(* ===== verification/Rust_Base.thy ===== *)
theory Rust_Base
  imports Main "HOL-Library.Word" "HOL-Library.Monad_Syntax"
begin

text \<open>
  The part of Rust and of its standard library that the modelled crates use, and the
  generic lemmas the component theories share.

  \<^item> Fixed-width integers are words (\<open>u8\<close>, \<open>u16\<close>, \<open>u32\<close>, \<open>u64\<close>; \<open>i32\<close> is a 32-bit word
    read with \<^const>\<open>sint\<close>). A \<open>usize\<close> is a natural number below \<open>2 ^ 64\<close>; the
    workspace is built with \<open>overflow-checks = true\<close> (Cargo.toml), so an operation
    that leaves this range panics.
  \<^item> A computation that can panic (or not return) has an option type: \<^const>\<open>None\<close> is
    "no value is returned". A Rust \<open>Result\<close> is a sum with the error on the left.
  \<^item> \<open>debug_assert!\<close> is not executed: the models are of the release build.
  \<^item> Big-endian byte strings, slices and the \<open>f64\<close> division that the chunking code uses
    to round a quotient up.
\<close>

unbundle bit_operations_syntax

type_synonym byte = "8 word"
type_synonym u16 = "16 word"
type_synonym u32 = "32 word"
type_synonym u64 = "64 word"
type_synonym i32 = "32 word"
type_synonym usize = nat
type_synonym bytes = "byte list"

named_theorems rust_simps \<open>evaluation of the Rust primitives under their side conditions\<close>
named_theorems codec_simps \<open>lengths and round trips of byte encodings\<close>

section \<open>Panicking primitives\<close>

abbreviation usize_max :: usize where
  "usize_max \<equiv> 18446744073709551615"

definition usize_add :: "usize \<Rightarrow> usize \<Rightarrow> usize option" where
  "usize_add a b = (if a + b \<le> usize_max then Some (a + b) else None)"

definition usize_sub :: "usize \<Rightarrow> usize \<Rightarrow> usize option" where
  "usize_sub a b = (if b \<le> a then Some (a - b) else None)"

definition usize_mul :: "usize \<Rightarrow> usize \<Rightarrow> usize option" where
  "usize_mul a b = (if a * b \<le> usize_max then Some (a * b) else None)"

text \<open>\<open>&xs[lb..ub]\<close>, \<open>&xs[lb..]\<close> and \<open>xs[i]\<close>: out of range is a panic.\<close>

definition slice :: "'a list \<Rightarrow> usize \<Rightarrow> usize \<Rightarrow> 'a list option" where
  "slice xs lb ub =
     (if lb \<le> ub \<and> ub \<le> length xs then Some (take (ub - lb) (drop lb xs)) else None)"

definition slice_from :: "'a list \<Rightarrow> usize \<Rightarrow> 'a list option" where
  "slice_from xs lb = (if lb \<le> length xs then Some (drop lb xs) else None)"

definition index :: "'a list \<Rightarrow> usize \<Rightarrow> 'a option" where
  "index xs i = (if i < length xs then Some (xs ! i) else None)"

text \<open>\<open>xs[lb..ub].copy_from_slice(ys)\<close>: a different length is a panic.\<close>

definition copy_from_slice :: "'a list \<Rightarrow> usize \<Rightarrow> usize \<Rightarrow> 'a list \<Rightarrow> 'a list option" where
  "copy_from_slice xs lb ub ys =
     (if lb \<le> ub \<and> ub \<le> length xs \<and> length ys = ub - lb
      then Some (take lb xs @ ys @ drop ub xs) else None)"

text \<open>\<open>Result::unwrap\<close>: an error is a panic.\<close>

definition unwrap :: "'e + 'a \<Rightarrow> 'a option" where
  "unwrap r = (case r of Inl _ \<Rightarrow> None | Inr x \<Rightarrow> Some x)"

text \<open>
  The \<open>?\<close> operator: on a \<open>Result\<close> (\<open>sbind\<close>), and on a \<open>Result\<close> of a computation that may also
  panic (\<open>pbind\<close>). \<open>panicking\<close> turns a computation that may only panic into one of these.
\<close>

definition sbind :: "'e + 'a \<Rightarrow> ('a \<Rightarrow> 'e + 'b) \<Rightarrow> 'e + 'b" where
  "sbind r f = (case r of Inl e \<Rightarrow> Inl e | Inr x \<Rightarrow> f x)"

definition pbind :: "('e + 'a) option \<Rightarrow> ('a \<Rightarrow> ('e + 'b) option) \<Rightarrow> ('e + 'b) option" where
  "pbind m f = (case m of None \<Rightarrow> None | Some (Inl e) \<Rightarrow> Some (Inl e) | Some (Inr x) \<Rightarrow> f x)"

definition panicking :: "'a option \<Rightarrow> ('e + 'a) option" where
  "panicking m = map_option Inr m"

lemma sbind_simps [simp]: "sbind (Inl e) f = Inl e" "sbind (Inr x) f = f x"
  by (simp_all add: sbind_def)

lemma pbind_simps [simp]:
  "pbind None f = None" "pbind (Some (Inl e)) f = Some (Inl e)" "pbind (Some (Inr x)) f = f x"
  by (simp_all add: pbind_def)

lemma panicking_simps [simp]: "panicking None = None" "panicking (Some x) = Some (Inr x)"
  by (simp_all add: panicking_def)

lemma sbind_eq_Inr: "sbind r f = Inr y \<longleftrightarrow> (\<exists>x. r = Inr x \<and> f x = Inr y)"
  by (cases r) auto

lemma pbind_eq_Inr: "pbind m f = Some (Inr y) \<longleftrightarrow> (\<exists>x. m = Some (Inr x) \<and> f x = Some (Inr y))"
  by (cases m; cases "the m") auto

lemma pbind_eq_None: "pbind m f = None \<longleftrightarrow> m = None \<or> (\<exists>x. m = Some (Inr x) \<and> f x = None)"
  by (auto simp: pbind_def split: option.splits sum.splits)

lemma panicking_eq_Inr: "panicking m = Some (Inr y) \<longleftrightarrow> m = Some y"
  by (cases m) auto

lemma sbind_assoc: "sbind (sbind r f) g = sbind r (\<lambda>x. sbind (f x) g)"
  by (cases r) simp_all

lemma usize_add_Some [rust_simps]: "a + b \<le> usize_max \<Longrightarrow> usize_add a b = Some (a + b)"
  by (simp add: usize_add_def)

lemma usize_sub_Some [rust_simps]: "b \<le> a \<Longrightarrow> usize_sub a b = Some (a - b)"
  by (simp add: usize_sub_def)

lemma usize_mul_Some [rust_simps]: "a * b \<le> usize_max \<Longrightarrow> usize_mul a b = Some (a * b)"
  by (simp add: usize_mul_def)

lemma slice_Some [rust_simps]:
  "lb \<le> ub \<Longrightarrow> ub \<le> length xs \<Longrightarrow> slice xs lb ub = Some (take (ub - lb) (drop lb xs))"
  by (simp add: slice_def)

lemma slice_from_Some [rust_simps]: "lb \<le> length xs \<Longrightarrow> slice_from xs lb = Some (drop lb xs)"
  by (simp add: slice_from_def)

lemma index_Some [rust_simps]: "i < length xs \<Longrightarrow> index xs i = Some (xs ! i)"
  by (simp add: index_def)

lemma unwrap_simps [simp]: "unwrap (Inr x) = Some x" "unwrap (Inl e) = None"
  by (simp_all add: unwrap_def)

lemma unwrap_eq_Some [simp]: "unwrap r = Some x \<longleftrightarrow> r = Inr x"
  by (cases r) auto

lemma map_sum_eq_Inr [simp]: "map_sum f g x = Inr y \<longleftrightarrow> (\<exists>z. x = Inr z \<and> y = g z)"
  by (cases x) auto

lemma map_sum_eq_Inl [simp]: "map_sum f g x = Inl y \<longleftrightarrow> (\<exists>z. x = Inl z \<and> y = f z)"
  by (cases x) auto

text \<open>A loop body that can panic, run over a list: the loop returns iff every body does.\<close>

lemma those_map_Some:
  assumes "\<And>x. x \<in> set xs \<Longrightarrow> f x = Some (g x)"
  shows "those (map f xs) = Some (map g xs)"
  using assms by (induction xs) auto

lemma those_eq_Some_iff: "those xs = Some ys \<longleftrightarrow> xs = map Some ys"
  by (induction xs arbitrary: ys) (auto split: option.splits simp: Cons_eq_map_conv)

section \<open>Big-endian bytes\<close>

fun be_bytes :: "nat \<Rightarrow> nat \<Rightarrow> bytes" where
  "be_bytes 0 n = []"
| "be_bytes (Suc k) n = be_bytes k (n div 256) @ [of_nat n]"

definition from_be_bytes :: "bytes \<Rightarrow> nat" where
  "from_be_bytes bs = foldl (\<lambda>a b. a * 256 + unat b) 0 bs"

lemma be_bytes_numeral [simp]:
  "be_bytes (numeral k) n = be_bytes (pred_numeral k) (n div 256) @ [of_nat n]"
  by (simp only: numeral_eq_Suc [of k] be_bytes.simps)

lemma length_be_bytes [simp]: "length (be_bytes k n) = k"
  by (induction k n rule: be_bytes.induct) auto

lemma from_be_bytes_Nil [simp]: "from_be_bytes [] = 0"
  by (simp add: from_be_bytes_def)

lemma from_be_bytes_snoc [simp]: "from_be_bytes (bs @ [b]) = from_be_bytes bs * 256 + unat b"
  by (simp add: from_be_bytes_def)

lemma from_be_bytes_bound: "from_be_bytes bs < 256 ^ length bs"
proof (induction bs rule: rev_induct)
  case Nil
  then show ?case by simp
next
  case (snoc b bs)
  have "unat b < 256" using unsigned_less [of b] by simp
  moreover have "from_be_bytes bs * 256 + 256 \<le> 256 ^ length bs * 256"
    using snoc.IH by (metis Suc_leI add.commute mult_Suc mult_le_mono1)
  ultimately show ?case by simp
qed

lemma from_be_bytes_be_bytes [codec_simps]: "n < 256 ^ k \<Longrightarrow> from_be_bytes (be_bytes k n) = n"
proof (induction k n rule: be_bytes.induct)
  case (1 n)
  then show ?case by simp
next
  case (2 k n)
  from 2(2) have "n div 256 < 256 ^ k"
    by (simp add: less_mult_imp_div_less mult.commute)
  moreover have "unat (of_nat n :: byte) = n mod 256"
    by (simp add: unat_of_nat)
  ultimately show ?case using 2(1) by simp
qed

lemma be_bytes_from_be_bytes [codec_simps]: "be_bytes (length bs) (from_be_bytes bs) = bs"
proof (induction bs rule: rev_induct)
  case Nil
  then show ?case by simp
next
  case (snoc b bs)
  have b: "unat b < 256" using unsigned_less [of b] by simp
  have "(from_be_bytes bs * 256 + unat b) div 256 = from_be_bytes bs"
    using b by simp
  moreover have "(of_nat (from_be_bytes bs * 256 + unat b) :: byte) = b"
  proof -
    have "of_nat (from_be_bytes bs * 256 + unat b) = (of_nat (from_be_bytes bs) * 256 + b :: byte)"
      by simp
    also have "(256 :: byte) = 0" by simp
    finally show ?thesis by simp
  qed
  ultimately show ?case using snoc by simp
qed

text \<open>\<open>to_be_bytes\<close> and \<open>from_be_bytes\<close> of the integer types.\<close>

definition u16_to_be :: "u16 \<Rightarrow> bytes" where
  "u16_to_be w = be_bytes 2 (unat w)"

definition u16_from_be :: "bytes \<Rightarrow> u16" where
  "u16_from_be bs = of_nat (from_be_bytes bs)"

definition u32_to_be :: "u32 \<Rightarrow> bytes" where
  "u32_to_be w = be_bytes 4 (unat w)"

definition u32_from_be :: "bytes \<Rightarrow> u32" where
  "u32_from_be bs = of_nat (from_be_bytes bs)"

definition u64_to_be :: "u64 \<Rightarrow> bytes" where
  "u64_to_be w = be_bytes 8 (unat w)"

definition u64_from_be :: "bytes \<Rightarrow> u64" where
  "u64_from_be bs = of_nat (from_be_bytes bs)"

lemma length_to_be [simp, codec_simps]:
  "length (u16_to_be a) = 2" "length (u32_to_be b) = 4" "length (u64_to_be c) = 8"
  by (simp_all add: u16_to_be_def u32_to_be_def u64_to_be_def del: be_bytes_numeral)

lemma u16_roundtrip [simp, codec_simps]: "u16_from_be (u16_to_be w) = w"
proof -
  have "unat w < 256 ^ 2" using unsigned_less [of w] by simp
  then show ?thesis
    by (simp add: u16_from_be_def u16_to_be_def from_be_bytes_be_bytes del: be_bytes_numeral)
qed

lemma u32_roundtrip [simp, codec_simps]: "u32_from_be (u32_to_be w) = w"
proof -
  have "unat w < 256 ^ 4" using unsigned_less [of w] by simp
  then show ?thesis
    by (simp add: u32_from_be_def u32_to_be_def from_be_bytes_be_bytes del: be_bytes_numeral)
qed

lemma u64_roundtrip [simp, codec_simps]: "u64_from_be (u64_to_be w) = w"
proof -
  have "unat w < 256 ^ 8" using unsigned_less [of w] by simp
  then show ?thesis
    by (simp add: u64_from_be_def u64_to_be_def from_be_bytes_be_bytes del: be_bytes_numeral)
qed

lemma u16_from_be_inverse [codec_simps]: "length bs = 2 \<Longrightarrow> u16_to_be (u16_from_be bs) = bs"
  using from_be_bytes_bound [of bs] be_bytes_from_be_bytes [of bs]
  by (simp add: u16_to_be_def u16_from_be_def unat_of_nat del: be_bytes_numeral)

lemma u32_from_be_inverse [codec_simps]: "length bs = 4 \<Longrightarrow> u32_to_be (u32_from_be bs) = bs"
  using from_be_bytes_bound [of bs] be_bytes_from_be_bytes [of bs]
  by (simp add: u32_to_be_def u32_from_be_def unat_of_nat del: be_bytes_numeral)

lemma u64_from_be_inverse [codec_simps]: "length bs = 8 \<Longrightarrow> u64_to_be (u64_from_be bs) = bs"
  using from_be_bytes_bound [of bs] be_bytes_from_be_bytes [of bs]
  by (simp add: u64_to_be_def u64_from_be_def unat_of_nat del: be_bytes_numeral)

section \<open>Rounding a quotient up through \<open>f64\<close>\<close>

text \<open>
  The chunking code computes \<open>(a as f64 / b as f64).ceil() as usize\<close>. An \<open>f64\<close> has a
  53-bit significand and every operation rounds to nearest, ties to even. \<open>rne p q\<close>
  rounds \<open>p / q\<close> to an integer that way; \<open>f64_of_usize\<close> is the conversion;
  \<open>f64_ceil_div\<close> divides, rounds the quotient to 53 significant bits, takes the
  ceiling and converts back (the cast saturates, and maps NaN to 0).
\<close>

definition rne :: "nat \<Rightarrow> nat \<Rightarrow> nat" where
  "rne p q = (let d = p div q; r = p mod q
              in if 2 * r < q \<or> (2 * r = q \<and> even d) then d else d + 1)"

fun ilog2 :: "nat \<Rightarrow> nat" where
  "ilog2 n = (if n \<le> 1 then 0 else Suc (ilog2 (n div 2)))"

declare ilog2.simps [simp del]

definition f64_of_usize :: "usize \<Rightarrow> nat" where
  "f64_of_usize n =
     (if n < 2 ^ 53 then n
      else let s = ilog2 n - 52 in rne n (2 ^ s) * 2 ^ s)"

definition f64_ceil_div :: "usize \<Rightarrow> usize \<Rightarrow> usize" where
  "f64_ceil_div a b =
     (let p = f64_of_usize a; q = f64_of_usize b in
      if q = 0 then (if p = 0 then 0 else usize_max)
      else if p = 0 then 0
      else if p < q then 1
      else let k = ilog2 (p div q) in
        if k \<le> 52
        then (let s = 2 ^ (52 - k); m = rne (p * s) q in (m + s - 1) div s)
        else (let s = 2 ^ (k - 52) in min usize_max (rne p (q * s) * s)))"

lemma ilog2_bounds: "0 < n \<Longrightarrow> 2 ^ ilog2 n \<le> n \<and> n < 2 ^ Suc (ilog2 n)"
proof (induction n rule: ilog2.induct)
  case (1 n)
  show ?case
  proof (cases "n \<le> 1")
    case True
    with "1.prems" show ?thesis by (simp add: ilog2.simps [of n])
  next
    case False
    with "1.IH" have "2 ^ ilog2 (n div 2) \<le> n div 2 \<and> n div 2 < 2 ^ Suc (ilog2 (n div 2))"
      by simp
    with False show ?thesis by (auto simp: ilog2.simps [of n])
  qed
qed

lemma rne_exact: "0 < q \<Longrightarrow> rne (n * q) q = n"
  by (simp add: rne_def)

lemma rne_upper: "0 < q \<Longrightarrow> p \<le> n * q \<Longrightarrow> rne p q \<le> n"
proof -
  assume q: "0 < q" and p: "p \<le> n * q"
  show ?thesis
  proof (cases "p mod q = 0")
    case True
    then have "rne p q = p div q" using q by (simp add: rne_def)
    also have "\<dots> \<le> n" using p q by (metis div_le_mono div_mult_self_is_m)
    finally show ?thesis .
  next
    case False
    then have "p \<noteq> n * q" by auto
    with p have "p < n * q" by simp
    then have "p div q < n" by (simp add: less_mult_imp_div_less)
    then show ?thesis by (simp add: rne_def Let_def)
  qed
qed

lemma rne_lower: "0 < q \<Longrightarrow> p = n * q + r \<Longrightarrow> q < 2 * r \<Longrightarrow> n < rne p q"
proof -
  assume q: "0 < q" and p: "p = n * q + r" and r: "q < 2 * r"
  show ?thesis
  proof (cases "r < q")
    case True
    then have "p div q = n" "p mod q = r" using p q by simp_all
    with r show ?thesis by (simp add: rne_def)
  next
    case False
    then have "(n + 1) * q \<le> p" using p by simp
    then have "n + 1 \<le> p div q" using q by (simp add: less_eq_div_iff_mult_less_eq)
    then show ?thesis by (simp add: rne_def Let_def)
  qed
qed

lemma ceil_div_mult: "0 < s \<Longrightarrow> (d * s + s - 1) div s = (d :: nat)"
  by (rule div_nat_eqI) (simp_all add: algebra_simps)

lemma f64_ceil_div_exact:
  assumes a: "a < 2 ^ 53" and b: "b < 2 ^ 53" "0 < b"
  shows "f64_ceil_div a b = (a + b - 1) div b"
proof (cases "a < b")
  case True
  show ?thesis
  proof (cases "a = 0")
    case False
    with True have "(a + b - 1) div b = 1"
      by (intro div_nat_eqI) auto
    with True False a b show ?thesis by (simp add: f64_ceil_div_def f64_of_usize_def)
  qed (use b in \<open>simp add: f64_ceil_div_def f64_of_usize_def\<close>)
next
  case False
  define d where "d = a div b"
  define r where "r = a mod b"
  define k where "k = ilog2 d"
  define s :: nat where "s = 2 ^ (52 - k)"
  have ab: "a = d * b + r" "r < b" using b by (simp_all add: d_def r_def)
  have d0: "0 < d" using False b by (simp add: d_def div_greater_zero_iff)
  note k = ilog2_bounds [OF d0, folded k_def]
  have dab: "d * b \<le> a" by (simp add: d_def)
  have "(2::nat) ^ k < 2 ^ 53"
  proof -
    have "2 ^ k * 1 \<le> d * b" using k b by (intro mult_le_mono) auto
    then show ?thesis using dab a by linarith
  qed
  then have k52: "k \<le> 52" using power_strict_increasing_iff [of "2::nat" k 53] by simp
  have s0: "0 < s" by (simp add: s_def)
  have "2 ^ k * (2 * s) = (2::nat) ^ 53"
    using k52 by (simp add: s_def flip: power_add power_Suc)
  moreover have "2 ^ k * b \<le> d * b" using k by simp
  ultimately have "2 ^ k * b < 2 ^ k * (2 * s)" using dab a by linarith
  then have b2s: "b < 2 * s" by simp
  have eq: "f64_ceil_div a b = (rne (a * s) b + s - 1) div s"
    using False a b d0 k52 
    by (simp add: f64_ceil_div_def f64_of_usize_def Let_def d_def [symmetric] k_def [symmetric] s_def [symmetric])
  show ?thesis
  proof (cases "r = 0")
    case True
    then have "rne (a * s) b = d * s" using ab(1) b rne_exact [of b "d * s"]
      by (simp add: mult.commute mult.left_commute)
    then have "f64_ceil_div a b = d" using eq s0 by (simp only: ceil_div_mult)
    moreover have "(a + b - 1) div b = d" using True ab(1) ceil_div_mult [OF b(2), of d] by simp
    ultimately show ?thesis by simp
  next
    case r0: False
    let ?m = "rne (a * s) b"
    have "a * s \<le> (d + 1) * s * b"
    proof -
      have "a \<le> (d + 1) * b" using ab by simp
      then have "a * s \<le> (d + 1) * b * s" by (rule mult_le_mono1)
      then show ?thesis by (simp only: ac_simps)
    qed
    then have up: "?m \<le> (d + 1) * s" using b by (intro rne_upper) auto
    have "a * s = d * s * b + r * s" using ab(1) by (simp add: algebra_simps)
    moreover have "b < 2 * (r * s)" using b2s r0 by (cases r) auto
    ultimately have lo: "d * s < ?m" using b by (intro rne_lower) auto
    have "f64_ceil_div a b = d + 1"
      unfolding eq
    proof (rule div_nat_eqI)
      show "s * (d + 1) \<le> ?m + s - 1" using lo s0 by (simp add: algebra_simps)
      show "?m + s - 1 < s * Suc (d + 1)" using up s0 by (simp add: algebra_simps)
    qed
    moreover have "(a + b - 1) div b = d + 1"
    proof (rule div_nat_eqI)
      show "b * (d + 1) \<le> a + b - 1" using ab r0 by (simp add: algebra_simps)
      show "a + b - 1 < b * Suc (d + 1)" using ab b by (simp add: algebra_simps)
    qed
    ultimately show ?thesis by simp
  qed
qed

section \<open>Decimal printing and little-endian integers\<close>

fun nat_to_string :: "nat \<Rightarrow> string" where
  "nat_to_string n =
     (if n < 10 then [char_of (48 + n)] else nat_to_string (n div 10) @ [char_of (48 + n mod 10)])"

declare nat_to_string.simps [simp del]

definition u16_to_le :: "u16 \<Rightarrow> bytes" where
  "u16_to_le x = rev (u16_to_be x)"

definition u16_from_le :: "bytes \<Rightarrow> u16" where
  "u16_from_le b = u16_from_be (rev b)"

lemma length_u16_to_le [simp, codec_simps]: "length (u16_to_le x) = 2"
  by (simp add: u16_to_le_def codec_simps)

lemma u16_le_roundtrip [simp, codec_simps]: "u16_from_le (u16_to_le x) = x"
  by (simp add: u16_to_le_def u16_from_le_def codec_simps)

lemma u16_from_le_inverse: "length b = 2 \<Longrightarrow> u16_to_le (u16_from_le b) = b"
  by (simp add: u16_to_le_def u16_from_le_def u16_from_be_inverse)

section \<open>Lists\<close>

lemma append_split_less:
  assumes "a @ d = b @ c" "length b < length a"
  obtains e where "a = b @ e" "e \<noteq> []"
proof -
  obtain e where "a = b @ e \<or> b = a @ e" using assms(1) by (auto simp: append_eq_append_conv2)
  then show thesis using assms(2) that by auto
qed

lemma append_split_le:
  assumes "a @ d = b @ c" "length a \<le> length b"
  obtains e where "b = a @ e"
proof -
  obtain e where "a = b @ e \<or> b = a @ e" using assms(1) by (auto simp: append_eq_append_conv2)
  then show thesis using assms(2) that by auto
qed

lemma replicate_numeral: "replicate (numeral k) x = x # replicate (pred_numeral k) x"
  by (simp add: numeral_eq_Suc)

lemma in_butlast_or_last: "x \<in> set xs \<Longrightarrow> x \<in> set (butlast xs) \<or> x = last xs"
  by (induction xs) auto

end
