(* ===== verification/Codec.thy ===== *)
theory Codec
  imports Rust_Base
begin

text \<open>
  The contracts of the byte encodings of the repository. \<open>wire_codec\<close> is an encoder with a
  fallible decoder that accepts exactly the encodings of the valid values; \<open>fixed_codec\<close> is one
  whose encodings all have the same length, so that sequences of them can be cut apart. The
  theories of the components interpret them on their own encoders and decoders.
\<close>

section \<open>Exact codecs\<close>

locale wire_codec =
  fixes enc :: "'a \<Rightarrow> bytes" and dec :: "bytes \<Rightarrow> 'e + 'a" and valid :: "'a \<Rightarrow> bool"
  assumes dec_enc: "valid x \<Longrightarrow> dec (enc x) = Inr x"
    and dec_sound: "dec b = Inr x \<Longrightarrow> valid x \<and> b = enc x"
begin

lemma dec_iff: "dec b = Inr x \<longleftrightarrow> valid x \<and> b = enc x"
proof
  assume "dec b = Inr x"
  then show "valid x \<and> b = enc x" by (rule dec_sound)
next
  assume "valid x \<and> b = enc x"
  then show "dec b = Inr x" by (simp add: dec_enc)
qed

lemma enc_inj:
  assumes "valid x" "valid y" "enc x = enc y"
  shows "x = y"
proof -
  have "Inr x = dec (enc y)" using dec_enc [OF assms(1)] unfolding assms(3) by (rule sym)
  also have "\<dots> = Inr y" by (rule dec_enc [OF assms(2)])
  finally show ?thesis by simp
qed

lemma dec_inj: "dec b = Inr x \<Longrightarrow> dec c = Inr x \<Longrightarrow> b = c"
  by (simp add: dec_iff)

lemma dec_rejects: "(\<forall>x. valid x \<longrightarrow> b \<noteq> enc x) \<longleftrightarrow> (\<exists>e. dec b = Inl e)"
proof (cases "dec b")
  case (Inl e)
  then show ?thesis using dec_iff [of b] by auto
next
  case (Inr y)
  then show ?thesis using dec_iff [of b y] by auto
qed

end

section \<open>Codecs of self-delimiting encodings\<close>

text \<open>The decoder reads an encoding from the front of its input and ignores what follows.\<close>

locale prefix_codec =
  fixes enc :: "'a \<Rightarrow> bytes" and dec :: "bytes \<Rightarrow> 'e + 'a" and valid :: "'a \<Rightarrow> bool"
  assumes dec_enc_append: "valid x \<Longrightarrow> dec (enc x @ r) = Inr x"
    and dec_prefix_sound: "dec b = Inr x \<Longrightarrow> valid x \<and> (\<exists>r. b = enc x @ r)"
begin

lemma dec_prefix_iff: "dec b = Inr x \<longleftrightarrow> valid x \<and> (\<exists>r. b = enc x @ r)"
proof
  assume "dec b = Inr x"
  then show "valid x \<and> (\<exists>r. b = enc x @ r)" by (rule dec_prefix_sound)
next
  assume "valid x \<and> (\<exists>r. b = enc x @ r)"
  then show "dec b = Inr x" by (auto simp: dec_enc_append)
qed

lemma enc_prefix_free:
  assumes "valid x" "valid y" "enc x @ r = enc y @ r'"
  shows "x = y \<and> r = r'"
proof -
  have "Inr x = dec (enc y @ r')" using dec_enc_append [OF assms(1), of r] unfolding assms(3) by (rule sym)
  also have "\<dots> = Inr y" by (rule dec_enc_append [OF assms(2)])
  finally have "x = y" by simp
  then show ?thesis using assms(3) by simp
qed

lemma dec_padding: "valid x \<Longrightarrow> dec (enc x @ replicate n 0) = Inr x"
  by (rule dec_enc_append)

end

section \<open>Codecs of fixed length\<close>

text \<open>Cutting a byte string into pieces of length \<open>n\<close>, as \<open>chunks_exact(n)\<close> does.\<close>

fun chunks_exact :: "nat \<Rightarrow> nat \<Rightarrow> bytes \<Rightarrow> bytes list" where
  "chunks_exact n 0 b = []"
| "chunks_exact n (Suc k) b = take n b # chunks_exact n k (drop n b)"

locale fixed_codec = wire_codec +
  fixes len :: nat
  assumes length_enc: "valid x \<Longrightarrow> length (enc x) = len"
begin

lemma dec_length: "dec b = Inr x \<Longrightarrow> length b = len"
  using length_enc by (simp add: dec_iff)

lemma dec_prefix: "valid x \<Longrightarrow> dec (take len (enc x @ rest)) = Inr x"
  by (simp add: length_enc dec_enc)

lemma drop_prefix: "valid x \<Longrightarrow> drop len (enc x @ rest) = rest"
  by (simp add: length_enc)

lemma length_encs: "list_all valid xs \<Longrightarrow> length (concat (map enc xs)) = length xs * len"
  by (induction xs) (simp_all add: length_enc)

lemma chunks_encs:
  "list_all valid xs \<Longrightarrow> map dec (chunks_exact len (length xs) (concat (map enc xs) @ rest)) = map Inr xs"
  by (induction xs) (simp_all add: length_enc dec_enc)

end

section \<open>Codecs of streams\<close>

text \<open>
  A stream decoder looks at the bytes received so far: it takes the first message off them, asks
  for more by leaving them alone, or fails. \<open>drain\<close> calls it until it asks for more;
  \<open>receive\<close> does so after every chunk that arrives.
\<close>

type_synonym ('a, 'e) stream_step = "bytes \<Rightarrow> (('e + 'a option) \<times> bytes) option"

partial_function (option) drain :: "('a, 'e) stream_step \<Rightarrow> bytes \<Rightarrow> (('e + 'a list) \<times> bytes) option" where
  "drain step b =
     (case step b of
        None \<Rightarrow> None
      | Some (Inl e, b') \<Rightarrow> Some (Inl e, b')
      | Some (Inr None, b') \<Rightarrow> Some (Inr [], b')
      | Some (Inr (Some x), b') \<Rightarrow>
          Option.bind (drain step b') (\<lambda>(r, b''). Some (map_sum (\<lambda>e. e) (Cons x) r, b'')))"

fun receive :: "('a, 'e) stream_step \<Rightarrow> bytes \<Rightarrow> bytes list \<Rightarrow> (('e + 'a list) \<times> bytes) option" where
  "receive step buf [] = Some (Inr [], buf)"
| "receive step buf (chunk # chunks) =
     (case drain step (buf @ chunk) of
        None \<Rightarrow> None
      | Some (Inl e, buf) \<Rightarrow> Some (Inl e, buf)
      | Some (Inr xs, buf) \<Rightarrow>
          (case receive step buf chunks of
             None \<Rightarrow> None
           | Some (Inl e, buf) \<Rightarrow> Some (Inl e, buf)
           | Some (Inr ys, buf) \<Rightarrow> Some (Inr (xs @ ys), buf)))"

text \<open>A decoder that asks for more on every part of the input delivers nothing.\<close>

lemma receive_waits:
  assumes "\<And>b c. b @ c = s \<Longrightarrow> step b = Some (Inr None, b)"
  shows "buf @ concat chunks = s \<Longrightarrow> receive step buf chunks = Some (Inr [], s)"
proof (induction chunks arbitrary: buf)
  case (Cons chunk chunks)
  then have "step (buf @ chunk) = Some (Inr None, buf @ chunk)" using assms [of "buf @ chunk" "concat chunks"] by simp
  then have "drain step (buf @ chunk) = Some (Inr [], buf @ chunk)" by (subst drain.simps) simp
  then show ?case using Cons.IH [of "buf @ chunk"] Cons.prems by simp
qed simp

locale stream_codec =
  fixes enc :: "'a \<Rightarrow> bytes" and step :: "('a, 'e) stream_step" and valid :: "'a \<Rightarrow> bool"
  assumes step_enc: "valid x \<Longrightarrow> step (enc x @ r) = Some (Inr (Some x), r)"
    and step_partial: "valid x \<Longrightarrow> enc x = b @ c \<Longrightarrow> c \<noteq> [] \<Longrightarrow> step b = Some (Inr None, b)"
    and step_empty: "step [] = Some (Inr None, [])"
begin

text \<open>The messages \<open>xs\<close> are still to come and \<open>b\<close> is a part of the first of them.\<close>

definition pending :: "'a list \<Rightarrow> bytes \<Rightarrow> bool" where
  "pending xs b \<longleftrightarrow> (case xs of [] \<Rightarrow> b = [] | x # _ \<Rightarrow> \<exists>c. c \<noteq> [] \<and> enc x = b @ c)"

lemma step_pending: "list_all valid xs \<Longrightarrow> pending xs b \<Longrightarrow> step b = Some (Inr None, b)"
  using step_partial step_empty by (auto simp: pending_def split: list.splits)

lemma enc_nonempty:
  assumes "valid x"
  shows "enc x \<noteq> []"
proof
  assume "enc x = []"
  then show False using step_enc [OF assms, of "[]"] step_empty by simp
qed

lemma drain_stream:
  assumes "list_all valid xs" "b @ c = concat (map enc xs)"
  shows "\<exists>ys zs b'. xs = ys @ zs \<and> b = concat (map enc ys) @ b' \<and> pending zs b' \<and> drain step b = Some (Inr ys, b')"
  using assms
proof (induction xs arbitrary: b)
  case Nil
  then show ?case using step_empty by (simp add: pending_def drain.simps)
next
  case (Cons x xs)
  have x: "valid x" and xs: "list_all valid xs" using Cons.prems(1) by simp_all
  have e: "b @ c = enc x @ concat (map enc xs)" using Cons.prems(2) by simp
  show ?case
  proof (cases "length (enc x) \<le> length b")
    case True
    then obtain b1 where b: "b = enc x @ b1" using e by (metis append_eq_append_conv_if append_eq_conv_conj)
    then have "b1 @ c = concat (map enc xs)" using e by simp
    from Cons.IH [OF xs this] obtain ys zs b' where
      ih: "xs = ys @ zs" "b1 = concat (map enc ys) @ b'" "pending zs b'" "drain step b1 = Some (Inr ys, b')" by blast
    have "drain step b = Some (Inr (x # ys), b')"
      unfolding b using step_enc [OF x, of b1] ih(4) by (subst drain.simps) simp
    then show ?thesis using ih b by (intro exI [of _ "x # ys"] exI [of _ zs] exI [of _ b']) simp
  next
    case False
    then obtain d where d: "enc x = b @ d" using e by (metis append_eq_append_conv2 le_add1 length_append)
    then have p: "pending (x # xs) b" using False by (auto simp: pending_def)
    then have "drain step b = Some (Inr [], b)"
      using step_pending [OF Cons.prems(1)] by (subst drain.simps) simp
    then show ?thesis using p by (intro exI [of _ "[]"] exI [of _ "x # xs"] exI [of _ b]) simp
  qed
qed

lemma receive_stream:
  assumes "list_all valid xs" "buf @ concat chunks = concat (map enc xs)" "chunks = [] \<Longrightarrow> buf = []"
  shows "receive step buf chunks = Some (Inr xs, [])"
  using assms
proof (induction chunks arbitrary: buf xs)
  case Nil
  then have "concat (map enc xs) = []" by simp
  then have "xs = []" using Nil.prems(1) enc_nonempty by (cases xs) auto
  then show ?case using Nil by simp
next
  case (Cons chunk chunks)
  have "(buf @ chunk) @ concat chunks = concat (map enc xs)" using Cons.prems(2) by simp
  from drain_stream [OF Cons.prems(1) this] obtain ys zs b' where
    d: "xs = ys @ zs" "buf @ chunk = concat (map enc ys) @ b'" "pending zs b'" "drain step (buf @ chunk) = Some (Inr ys, b')"
    by blast
  have "(concat (map enc ys) @ b') @ concat chunks = concat (map enc ys) @ concat (map enc zs)"
    using Cons.prems(2) unfolding d(2) [symmetric] d(1) by simp
  then have rest: "b' @ concat chunks = concat (map enc zs)" by simp
  have "b' = []" if "chunks = []"
    using rest that d(3) enc_nonempty by (auto simp: pending_def split: list.splits)
  then have "receive step b' chunks = Some (Inr zs, [])"
    using Cons.IH [OF _ rest] Cons.prems(1) d(1) by simp
  then show ?case using d by simp
qed

text \<open>Messages arrive whole and in order however the stream is cut into chunks.\<close>

lemma receive_any_chunking:
  assumes "list_all valid xs" "concat chunks = concat (map enc xs)"
  shows "receive step [] chunks = Some (Inr xs, [])"
  using receive_stream [OF assms(1), of "[]" chunks] assms(2) by simp

end

end
