(* ===== verification/Fragment.thy ===== *)
theory Fragment
  imports Codec
begin

text \<open>
  \<open>common/nymsphinx/chunking/src/fragment.rs\<close>: the unit of division of a message, its
  header and their byte encodings.

  The header is 7 bytes long, or 10 when the fragment links its set to another one. The
  main results are that a serialized header or fragment is parsed back
  (\<open>header_roundtrip\<close>, \<open>fragment_roundtrip\<close>), that whatever is parsed satisfies the
  checks of \<open>FragmentHeader::try_new\<close>, and which lengths \<open>Fragment::try_new\<close> accepts.
\<close>

section \<open>Data\<close>

datatype ChunkingError =
    InvalidPayloadLengthError usize usize
  | TooLongPayloadLengthError usize usize
  | MalformedHeaderError
  | TooShortFragmentHeader usize usize
  | MalformedFragmentIdentifier i32

abbreviation UNLINKED_FRAGMENTED_HEADER_LEN :: usize where
  "UNLINKED_FRAGMENTED_HEADER_LEN \<equiv> 7"

abbreviation LINKED_FRAGMENTED_HEADER_LEN :: usize where
  "LINKED_FRAGMENTED_HEADER_LEN \<equiv> 10"

definition unlinked_fragment_payload_max_len :: "usize \<Rightarrow> usize option" where
  "unlinked_fragment_payload_max_len max_plaintext_size =
     usize_sub max_plaintext_size UNLINKED_FRAGMENTED_HEADER_LEN"

definition linked_fragment_payload_max_len :: "usize \<Rightarrow> usize option" where
  "linked_fragment_payload_max_len max_plaintext_size =
     usize_sub max_plaintext_size LINKED_FRAGMENTED_HEADER_LEN"

record FragmentIdentifier =
  fi_set_id :: i32
  fi_fragment_position :: byte

definition COVER_FRAG_ID :: FragmentIdentifier where
  "COVER_FRAG_ID = \<lparr>fi_set_id = 0, fi_fragment_position = 0\<rparr>"

definition fragment_identifier_to_bytes :: "FragmentIdentifier \<Rightarrow> bytes" where
  "fragment_identifier_to_bytes self = u32_to_be (fi_set_id self) @ [fi_fragment_position self]"

text \<open>The argument is the array \<open>[u8; 5]\<close>.\<close>

definition fragment_identifier_try_from_bytes ::
    "bytes \<Rightarrow> ChunkingError + FragmentIdentifier" where
  "fragment_identifier_try_from_bytes b =
     (let set_id = u32_from_be [b ! 0, b ! 1, b ! 2, b ! 3] in
      if sint set_id < 0 then Inl (MalformedFragmentIdentifier set_id)
      else Inr \<lparr>fi_set_id = set_id, fi_fragment_position = b ! 4\<rparr>)"

record FragmentHeader =
  fh_id :: i32
  fh_total_fragments :: byte
  fh_current_fragment :: byte
  fh_previous_fragments_set_id :: "i32 option"
  fh_next_fragments_set_id :: "i32 option"

record Fragment =
  header :: FragmentHeader
  payload :: bytes

section \<open>The header\<close>

definition header_try_new ::
    "i32 \<Rightarrow> byte \<Rightarrow> byte \<Rightarrow> i32 option \<Rightarrow> i32 option \<Rightarrow> ChunkingError + FragmentHeader" where
  "header_try_new fid total_fragments current_fragment prev nxt =
     (if sint fid \<le> 0 then Inl MalformedHeaderError
      else if total_fragments < current_fragment then Inl MalformedHeaderError
      else if total_fragments = 0 then Inl MalformedHeaderError
      else if current_fragment = 0 then Inl MalformedHeaderError
      else if (case prev of Some pfid \<Rightarrow> sint pfid \<le> 0 \<or> current_fragment \<noteq> 1 \<or> pfid = fid
               | None \<Rightarrow> False) then Inl MalformedHeaderError
      else if (case nxt of Some nfid \<Rightarrow> sint nfid \<le> 0 \<or> current_fragment \<noteq> total_fragments \<or> nfid = fid
               | None \<Rightarrow> False) then Inl MalformedHeaderError
      else Inr \<lparr>fh_id = fid, fh_total_fragments = total_fragments,
                fh_current_fragment = current_fragment,
                fh_previous_fragments_set_id = prev, fh_next_fragments_set_id = nxt\<rparr>)"

text \<open>The flag bit: \<open>(x >> 31) & 1\<close> with the arithmetic shift of an \<open>i32\<close>, \<open>x | (1 << 31)\<close>
  and \<open>x & !(1 << 31)\<close>.\<close>

definition flag_bit :: "i32 \<Rightarrow> i32" where
  "flag_bit x = signed_drop_bit 31 x AND 1"

definition set_flag :: "i32 \<Rightarrow> i32" where
  "set_flag x = x OR push_bit 31 1"

definition clear_flag :: "i32 \<Rightarrow> i32" where
  "clear_flag x = x AND NOT (push_bit 31 1)"

definition header_try_from_bytes :: "bytes \<Rightarrow> ChunkingError + FragmentHeader \<times> usize" where
  "header_try_from_bytes b =
     (if length b < UNLINKED_FRAGMENTED_HEADER_LEN
      then Inl (TooShortFragmentHeader (length b) UNLINKED_FRAGMENTED_HEADER_LEN)
      else
        let frag_id = u32_from_be (take 4 b) in
        if flag_bit frag_id = 0 then Inl MalformedHeaderError
        else
          let fid = clear_flag frag_id;
              total_fragments = b ! 4;
              current_fragment = b ! 5 in
          if total_fragments = 0 \<or> current_fragment = 0 \<or> current_fragment > total_fragments
          then Inl MalformedHeaderError
          else if b ! 6 \<noteq> 0 then
            if length b < LINKED_FRAGMENTED_HEADER_LEN
            then Inl (TooShortFragmentHeader (length b) LINKED_FRAGMENTED_HEADER_LEN)
            else
              let flagged_linked_id = u32_from_be (take 4 (drop 6 b)) in
              if flag_bit flagged_linked_id = 0 then Inl MalformedHeaderError
              else
                let linked_id = clear_flag flagged_linked_id in
                if current_fragment = 1 then
                  map_sum (\<lambda>e. e) (\<lambda>h. (h, 10))
                    (header_try_new fid total_fragments current_fragment (Some linked_id) None)
                else if total_fragments = current_fragment \<and> current_fragment = 255 then
                  map_sum (\<lambda>e. e) (\<lambda>h. (h, 10))
                    (header_try_new fid total_fragments current_fragment None (Some linked_id))
                else Inl MalformedHeaderError
          else
            map_sum (\<lambda>e. e) (\<lambda>h. (h, 7))
              (header_try_new fid total_fragments current_fragment None None))"

text \<open>\<open>self.next_fragments_set_id.unwrap()\<close> is reached only when the previous id is
  absent and one of the two is present, so it cannot panic.\<close>

definition header_to_bytes :: "FragmentHeader \<Rightarrow> bytes" where
  "header_to_bytes self =
     (let prefix = u32_to_be (set_flag (fh_id self))
                   @ [fh_total_fragments self] @ [fh_current_fragment self] in
      case fh_previous_fragments_set_id self of
        Some linked_id \<Rightarrow> prefix @ u32_to_be (set_flag linked_id)
      | None \<Rightarrow> (case fh_next_fragments_set_id self of
          Some linked_id \<Rightarrow> prefix @ u32_to_be (set_flag linked_id)
        | None \<Rightarrow> prefix @ [0]))"

section \<open>The fragment\<close>

definition fragment_try_new ::
    "bytes \<Rightarrow> i32 \<Rightarrow> byte \<Rightarrow> byte \<Rightarrow> i32 option \<Rightarrow> i32 option \<Rightarrow> usize
      \<Rightarrow> (ChunkingError + Fragment) option" where
  "fragment_try_new data fid total_fragments current_fragment prev nxt max_plaintext_size =
     (case header_try_new fid total_fragments current_fragment prev nxt of
        Inl e \<Rightarrow> Some (Inl e)
      | Inr hdr \<Rightarrow>
          do {
            max_linked_len \<leftarrow> linked_fragment_payload_max_len max_plaintext_size;
            max_unlinked_len \<leftarrow> unlinked_fragment_payload_max_len max_plaintext_size;
            Some
              (if prev \<noteq> None then
                 if total_fragments > 1 then
                   if length data \<noteq> max_linked_len
                   then Inl (InvalidPayloadLengthError (length data) max_linked_len)
                   else Inr \<lparr>header = hdr, payload = data\<rparr>
                 else if length data > max_linked_len
                 then Inl (TooLongPayloadLengthError (length data) max_linked_len)
                 else Inr \<lparr>header = hdr, payload = data\<rparr>
               else if nxt \<noteq> None then
                 if length data \<noteq> max_linked_len
                 then Inl (InvalidPayloadLengthError (length data) max_linked_len)
                 else Inr \<lparr>header = hdr, payload = data\<rparr>
               else if total_fragments \<noteq> current_fragment then
                 if length data \<noteq> max_unlinked_len
                 then Inl (InvalidPayloadLengthError (length data) max_unlinked_len)
                 else Inr \<lparr>header = hdr, payload = data\<rparr>
               else if length data > max_unlinked_len
               then Inl (TooLongPayloadLengthError (length data) max_unlinked_len)
               else Inr \<lparr>header = hdr, payload = data\<rparr>)
          })"

definition payload_size :: "Fragment \<Rightarrow> usize" where
  "payload_size self = length (payload self)"

definition fragment_serialized_size :: "Fragment \<Rightarrow> usize option" where
  "fragment_serialized_size self =
     usize_add (length (header_to_bytes (header self))) (payload_size self)"

definition fragment_into_bytes :: "Fragment \<Rightarrow> bytes" where
  "fragment_into_bytes self = header_to_bytes (header self) @ payload self"

definition fragment_identifier :: "Fragment \<Rightarrow> FragmentIdentifier" where
  "fragment_identifier self =
     \<lparr>fi_set_id = fh_id (header self), fi_fragment_position = fh_current_fragment (header self)\<rparr>"

text \<open>The accessors \<open>id\<close>, \<open>total_fragments\<close>, \<open>current_fragment\<close>,
  \<open>previous_fragments_set_id\<close>, \<open>next_fragments_set_id\<close> and \<open>extract_payload\<close>.\<close>

definition frag_id :: "Fragment \<Rightarrow> i32" where
  "frag_id self = fh_id (header self)"

definition total_fragments :: "Fragment \<Rightarrow> byte" where
  "total_fragments self = fh_total_fragments (header self)"

definition current_fragment :: "Fragment \<Rightarrow> byte" where
  "current_fragment self = fh_current_fragment (header self)"

definition previous_fragments_set_id :: "Fragment \<Rightarrow> i32 option" where
  "previous_fragments_set_id self = fh_previous_fragments_set_id (header self)"

definition next_fragments_set_id :: "Fragment \<Rightarrow> i32 option" where
  "next_fragments_set_id self = fh_next_fragments_set_id (header self)"

definition extract_payload :: "Fragment \<Rightarrow> bytes" where
  "extract_payload self = payload self"

definition fragment_try_from_bytes :: "bytes \<Rightarrow> ChunkingError + Fragment" where
  "fragment_try_from_bytes b =
     (case header_try_from_bytes b of
        Inl e \<Rightarrow> Inl e
      | Inr (hdr, n) \<Rightarrow> Inr \<lparr>header = hdr, payload = drop n b\<rparr>)"

lemmas frag_accessor_defs =
  frag_id_def total_fragments_def current_fragment_def previous_fragments_set_id_def
  next_fragments_set_id_def extract_payload_def payload_size_def

section \<open>The flag bit\<close>

lemma sint_nonneg_iff_bit: "0 \<le> sint (x :: i32) \<longleftrightarrow> \<not> bit x 31"
  using bit_last_iff [of x] by auto

lemma flag_bit_eq: "flag_bit x = (if bit x 31 then 1 else 0)"
  unfolding flag_bit_def
  by (rule bit_word_eqI) (auto simp: bit_simps Suc_le_eq)

lemma flag_bit_zero [simp]: "flag_bit x = 0 \<longleftrightarrow> \<not> bit x 31"
  by (simp add: flag_bit_eq)

lemma bit_flag_mask: "bit (push_bit 31 1 :: i32) n \<longleftrightarrow> n = 31"
  by (auto simp only: bit_push_bit_iff bit_1_iff) auto

lemma bit_set_flag_iff: "bit (set_flag x) n \<longleftrightarrow> bit x n \<or> n = 31"
  unfolding set_flag_def by (simp only: bit_or_iff bit_flag_mask)

lemma bit_clear_flag_iff: "bit (clear_flag x) n \<longleftrightarrow> bit x n \<and> n \<noteq> 31"
  unfolding clear_flag_def
  by (simp only: bit_and_iff bit_not_iff bit_flag_mask) (auto dest: bit_imp_possible_bit)

lemma bit_set_flag [simp]: "bit (set_flag x) 31"
  by (simp add: bit_set_flag_iff)

lemma bit_clear_flag [simp]: "\<not> bit (clear_flag x) 31"
  by (simp add: bit_clear_flag_iff)

lemma clear_set_flag [simp]: "\<not> bit x 31 \<Longrightarrow> clear_flag (set_flag x) = x"
  by (rule bit_word_eqI) (auto simp: bit_set_flag_iff bit_clear_flag_iff)

lemma set_clear_flag [simp]: "bit x 31 \<Longrightarrow> set_flag (clear_flag x) = x"
  by (rule bit_word_eqI) (auto simp: bit_set_flag_iff bit_clear_flag_iff)

lemma positive_i32_bit: "0 < sint (x :: i32) \<Longrightarrow> \<not> bit x 31"
  using sint_nonneg_iff_bit [of x] by simp

lemma u32_to_be_Cons:
  "u32_to_be w = [of_nat (unat w div 16777216), of_nat (unat w div 65536),
                  of_nat (unat w div 256), of_nat (unat w)]"
  by (simp add: u32_to_be_def flip: div_mult2_eq)

lemma flagged_first_byte:
  assumes "bit (w :: i32) 31"
  shows "u32_to_be w ! 0 \<noteq> 0"
proof -
  have "bit (unat w) 31" using assms by (simp add: bit_unsigned_iff)
  then have "odd (unat w div 2 ^ 31)" by (simp add: bit_iff_odd)
  then have "2 ^ 31 \<le> unat w" by (rule contrapos_pp) simp
  moreover have "unat w < 2 ^ 32" using unsigned_less [of w] by simp
  ultimately have "0 < unat w div 16777216" "unat w div 16777216 < 256"
    by simp_all
  then have "unat (of_nat (unat w div 16777216) :: byte) \<noteq> 0"
    by (simp add: unat_of_nat)
  then show ?thesis by (auto simp: u32_to_be_Cons)
qed

section \<open>Well-formed headers\<close>

text \<open>What \<open>FragmentHeader::try_new\<close> accepts, and what can be put on the wire: the link to
  the next set is only written by the last fragment of a full set.\<close>

definition header_ok :: "FragmentHeader \<Rightarrow> bool" where
  "header_ok h \<longleftrightarrow>
     0 < sint (fh_id h)
   \<and> fh_current_fragment h \<noteq> 0 \<and> fh_current_fragment h \<le> fh_total_fragments h
   \<and> (\<forall>p. fh_previous_fragments_set_id h = Some p \<longrightarrow>
         0 < sint p \<and> fh_current_fragment h = 1 \<and> p \<noteq> fh_id h)
   \<and> (\<forall>n. fh_next_fragments_set_id h = Some n \<longrightarrow>
         0 < sint n \<and> fh_current_fragment h = fh_total_fragments h \<and> n \<noteq> fh_id h)"

definition wire_ok :: "FragmentHeader \<Rightarrow> bool" where
  "wire_ok h \<longleftrightarrow> header_ok h
   \<and> (fh_next_fragments_set_id h \<noteq> None \<longrightarrow> fh_total_fragments h = 255)"

lemma header_try_new_Inr_iff:
  "header_try_new fid t c p n = Inr h \<longleftrightarrow>
     h = \<lparr>fh_id = fid, fh_total_fragments = t, fh_current_fragment = c,
          fh_previous_fragments_set_id = p, fh_next_fragments_set_id = n\<rparr> \<and> header_ok h"
  by (cases p; cases n)
     (auto simp: header_try_new_def header_ok_def not_less word_gt_0 split: if_splits)

lemma header_try_new_Inl_iff:
  "header_try_new fid t c p n = Inl e \<longleftrightarrow>
     e = MalformedHeaderError \<and>
     \<not> header_ok \<lparr>fh_id = fid, fh_total_fragments = t, fh_current_fragment = c,
          fh_previous_fragments_set_id = p, fh_next_fragments_set_id = n\<rparr>"
  by (cases p; cases n)
     (auto simp: header_try_new_def header_ok_def not_less word_gt_0 split: if_splits)

lemma header_try_new_ok:
  "header_ok h \<Longrightarrow>
   header_try_new (fh_id h) (fh_total_fragments h) (fh_current_fragment h)
     (fh_previous_fragments_set_id h) (fh_next_fragments_set_id h) = Inr h"
  by (simp add: header_try_new_Inr_iff)

lemma length_header_to_bytes:
  "length (header_to_bytes h) =
     (if fh_previous_fragments_set_id h \<noteq> None \<or> fh_next_fragments_set_id h \<noteq> None then 10 else 7)"
  by (auto simp: header_to_bytes_def Let_def split: option.splits)

text \<open>The six bytes every header starts with.\<close>

definition header_prefix :: "FragmentHeader \<Rightarrow> bytes" where
  "header_prefix h = u32_to_be (set_flag (fh_id h)) @ [fh_total_fragments h, fh_current_fragment h]"

lemma length_header_prefix [simp]: "length (header_prefix h) = 6"
  by (simp add: header_prefix_def)

lemma header_prefix_nths:
  "header_prefix h ! 4 = fh_total_fragments h"
  "header_prefix h ! 5 = fh_current_fragment h"
  "take 4 (header_prefix h) = u32_to_be (set_flag (fh_id h))"
  by (simp_all add: header_prefix_def nth_append)

lemma header_to_bytes_unlinked:
  "fh_previous_fragments_set_id h = None \<Longrightarrow> fh_next_fragments_set_id h = None \<Longrightarrow>
   header_to_bytes h @ rest = header_prefix h @ 0 # rest"
  by (simp add: header_to_bytes_def header_prefix_def Let_def)

lemma header_to_bytes_linked:
  "fh_previous_fragments_set_id h = Some l \<or>
   (fh_previous_fragments_set_id h = None \<and> fh_next_fragments_set_id h = Some l) \<Longrightarrow>
   header_to_bytes h @ rest = header_prefix h @ u32_to_be (set_flag l) @ rest"
  by (auto simp: header_to_bytes_def header_prefix_def Let_def)

lemma wire_ok_both: "wire_ok h \<Longrightarrow> fh_previous_fragments_set_id h = Some p \<Longrightarrow> fh_next_fragments_set_id h = None"
  by (cases "fh_next_fragments_set_id h") (auto simp: wire_ok_def header_ok_def)

lemma header_roundtrip:
  assumes "wire_ok h"
  shows "header_try_from_bytes (header_to_bytes h @ rest) = Inr (h, length (header_to_bytes h))"
proof -
  from assms have ok: "header_ok h" by (simp add: wire_ok_def)
  then have hid: "\<not> bit (fh_id h) 31" and cur: "fh_current_fragment h \<noteq> 0"
    and tot: "\<not> fh_total_fragments h < fh_current_fragment h" "fh_total_fragments h \<noteq> 0"
    by (auto simp: header_ok_def not_less dest: positive_i32_bit)
  note new = header_try_new_ok [OF ok]
  show ?thesis
  proof (cases "fh_previous_fragments_set_id h")
    case None
    show ?thesis
    proof (cases "fh_next_fragments_set_id h")
      case None': None
      have "header_try_from_bytes (header_prefix h @ 0 # rest) = Inr (h, 7)"
        using None None' new hid cur tot
        by (simp add: header_try_from_bytes_def header_prefix_nths nth_append Let_def)
      then show ?thesis using None None' header_to_bytes_unlinked [OF None None', of rest]
        by (simp add: length_header_to_bytes)
    next
      case (Some l)
      with assms None have l: "\<not> bit l 31" and c255: "fh_total_fragments h = 255" "fh_current_fragment h = 255"
        by (auto simp: wire_ok_def header_ok_def dest: positive_i32_bit)
      have "header_try_from_bytes (header_prefix h @ u32_to_be (set_flag l) @ rest) = Inr (h, 10)"
        using None Some new hid l c255 flagged_first_byte [of "set_flag l"]
        by (simp add: header_try_from_bytes_def header_prefix_nths nth_append Let_def)
      then show ?thesis using None Some header_to_bytes_linked [of h l rest]
        by (simp add: length_header_to_bytes)
    qed
  next
    case (Some l)
    note nx = wire_ok_both [OF assms Some]
    from Some ok have l: "\<not> bit l 31" and c1: "fh_current_fragment h = 1"
      by (auto simp: header_ok_def dest: positive_i32_bit)
    have "header_try_from_bytes (header_prefix h @ u32_to_be (set_flag l) @ rest) = Inr (h, 10)"
      using nx Some new hid l c1 tot flagged_first_byte [of "set_flag l"]
      by (simp add: header_try_from_bytes_def header_prefix_nths nth_append Let_def)
    then show ?thesis using Some header_to_bytes_linked [of h l rest]
      by (simp add: length_header_to_bytes)
  qed
qed

text \<open>Parsing accepts nothing else: what is parsed is the encoding of a well-formed header.\<close>

lemma list_split_at_6:
  assumes "7 \<le> length b"
  shows "b = take 4 b @ [b ! 4, b ! 5] @ b ! 6 # drop 7 b"
proof -
  have "drop 4 b = b ! 4 # b ! 5 # b ! 6 # drop 7 b"
    using assms Cons_nth_drop_Suc [of 4 b] Cons_nth_drop_Suc [of 5 b] Cons_nth_drop_Suc [of 6 b]
    by simp
  then show ?thesis using append_take_drop_id [of 4 b] by simp
qed

lemma list_split_at_6_linked:
  assumes "10 \<le> length b"
  shows "b = take 4 b @ [b ! 4, b ! 5] @ take 4 (drop 6 b) @ drop 10 b"
proof -
  have "b ! 6 # drop 7 b = drop 6 b" using assms Cons_nth_drop_Suc [of 6 b] by simp
  moreover have "take 4 (drop 6 b) @ drop 10 b = drop 6 b"
    using append_take_drop_id [of 4 "drop 6 b"] by (simp add: drop_drop)
  ultimately show ?thesis using list_split_at_6 [of b] assms by simp
qed

lemma header_parse_sound:
  assumes "header_try_from_bytes b = Inr (h, n)"
  shows "wire_ok h \<and> b = header_to_bytes h @ drop n b \<and> n = length (header_to_bytes h)"
proof -
  let ?fid = "clear_flag (u32_from_be (take 4 b))"
  have len: "7 \<le> length b"
    using assms by (simp add: header_try_from_bytes_def split: if_splits)
  with assms have flag: "bit (u32_from_be (take 4 b)) 31"
    by (simp add: header_try_from_bytes_def Let_def split: if_splits)
  have pre: "u32_to_be (set_flag ?fid) = take 4 b"
    using flag len by (simp add: u32_from_be_inverse)
  show ?thesis
  proof (cases "b ! 6 = 0")
    case True
    with assms len flag have n: "n = 7"
      and new: "header_try_new ?fid (b ! 4) (b ! 5) None None = Inr h"
      by (auto simp: header_try_from_bytes_def Let_def map_sum_eq_Inr split: if_splits)
    from new have h: "wire_ok h" "header_to_bytes h = take 4 b @ [b ! 4, b ! 5, 0]"
      by (auto simp: header_try_new_Inr_iff wire_ok_def header_to_bytes_def Let_def pre)
    then show ?thesis using n True len list_split_at_6 [OF len] by simp
  next
    case False
    let ?lid = "u32_from_be (take 4 (drop 6 b))"
    from False assms len flag have len10: "10 \<le> length b" and lflag: "bit ?lid 31"
      and n: "n = 10"
      and new: "header_try_new ?fid (b ! 4) (b ! 5) (Some (clear_flag ?lid)) None = Inr h \<or>
        (b ! 4 = 255 \<and> b ! 5 = 255 \<and>
         header_try_new ?fid (b ! 4) (b ! 5) None (Some (clear_flag ?lid)) = Inr h)"
      by (auto simp: header_try_from_bytes_def Let_def map_sum_eq_Inr split: if_splits)
    have lpre: "u32_to_be (set_flag (clear_flag ?lid)) = take 4 (drop 6 b)"
      using lflag len10 by (simp add: u32_from_be_inverse)
    from new have h: "wire_ok h" "header_to_bytes h = take 4 b @ [b ! 4, b ! 5] @ take 4 (drop 6 b)"
      using lpre by (auto simp: header_try_new_Inr_iff wire_ok_def header_to_bytes_def Let_def pre)
    then show ?thesis using n list_split_at_6_linked [OF len10] len10 by simp
  qed
qed

lemma header_parse_iff:
  "header_try_from_bytes b = Inr (h, n) \<longleftrightarrow>
     wire_ok h \<and> n = length (header_to_bytes h) \<and> (\<exists>rest. b = header_to_bytes h @ rest)"
  using header_parse_sound [of b h n] header_roundtrip [of h] by auto

section \<open>Fragments on the wire\<close>

lemma fragment_roundtrip:
  "wire_ok (header f) \<Longrightarrow> fragment_try_from_bytes (fragment_into_bytes f) = Inr f"
  by (simp add: fragment_try_from_bytes_def fragment_into_bytes_def header_roundtrip)

lemma fragment_parse_iff:
  "fragment_try_from_bytes b = Inr f \<longleftrightarrow> wire_ok (header f) \<and> b = fragment_into_bytes f"
proof
  assume "fragment_try_from_bytes b = Inr f"
  then obtain n where n: "header_try_from_bytes b = Inr (header f, n)" "payload f = drop n b"
    by (auto simp: fragment_try_from_bytes_def split: sum.splits)
  show "wire_ok (header f) \<and> b = fragment_into_bytes f"
    using header_parse_sound [OF n(1)] unfolding fragment_into_bytes_def n(2) by blast
qed (auto intro: fragment_roundtrip)

text \<open>Which payload lengths \<open>Fragment::try_new\<close> accepts.\<close>

definition payload_len_ok :: "FragmentHeader \<Rightarrow> usize \<Rightarrow> usize \<Rightarrow> bool" where
  "payload_len_ok h max_plaintext_size n \<longleftrightarrow>
     (if fh_previous_fragments_set_id h \<noteq> None then
        (if fh_total_fragments h > 1 then n = max_plaintext_size - 10 else n \<le> max_plaintext_size - 10)
      else if fh_next_fragments_set_id h \<noteq> None then n = max_plaintext_size - 10
      else if fh_total_fragments h \<noteq> fh_current_fragment h then n = max_plaintext_size - 7
      else n \<le> max_plaintext_size - 7)"

lemma fragment_try_new_Inr_iff:
  assumes "10 \<le> mps"
  shows "fragment_try_new data fid t c p n mps = Some (Inr f) \<longleftrightarrow>
     header_try_new fid t c p n = Inr (header f) \<and> payload f = data
       \<and> payload_len_ok (header f) mps (length data)"
proof (cases "header_try_new fid t c p n")
  case (Inl e)
  then show ?thesis by (simp add: fragment_try_new_def)
next
  case (Inr hdr)
  then have flds: "fh_total_fragments hdr = t" "fh_current_fragment hdr = c"
    "fh_previous_fragments_set_id hdr = p" "fh_next_fragments_set_id hdr = n"
    by (auto simp: header_try_new_Inr_iff)
  have "fragment_try_new data fid t c p n mps = Some (Inr f) \<longleftrightarrow>
      f = \<lparr>header = hdr, payload = data\<rparr> \<and> payload_len_ok hdr mps (length data)"
    using assms Inr
    by (cases p; cases n; cases "1 < t"; cases "t = c")
       (simp_all add: fragment_try_new_def linked_fragment_payload_max_len_def flds
       unlinked_fragment_payload_max_len_def usize_sub_def payload_len_ok_def eq_commute [of f] not_less)
  then show ?thesis using Inr by (cases f) auto
qed

lemma fragment_try_new_fits:
  assumes "fragment_try_new data fid t c p n mps = Some (Inr f)" "10 \<le> mps"
  shows "length (fragment_into_bytes f) \<le> mps"
  using assms
  by (auto simp: fragment_try_new_Inr_iff payload_len_ok_def fragment_into_bytes_def
      length_header_to_bytes split: if_splits)

text \<open>What a header with a link to the next set looks like.\<close>

lemma header_next_link_values:
  assumes "header_try_new fid t c p (Some n) = Inr h"
  shows "h = \<lparr>fh_id = fid, fh_total_fragments = t, fh_current_fragment = t,
      fh_previous_fragments_set_id = p, fh_next_fragments_set_id = Some n\<rparr>"
    and "header_ok h" "\<not> bit fid 31" "\<not> bit n 31" "t \<noteq> 0" "p \<noteq> None \<Longrightarrow> t = 1"
proof -
  have h: "h = \<lparr>fh_id = fid, fh_total_fragments = t, fh_current_fragment = c,
      fh_previous_fragments_set_id = p, fh_next_fragments_set_id = Some n\<rparr>" and ok: "header_ok h"
    using assms unfolding header_try_new_Inr_iff by blast+
  then show "h = \<lparr>fh_id = fid, fh_total_fragments = t, fh_current_fragment = t,
      fh_previous_fragments_set_id = p, fh_next_fragments_set_id = Some n\<rparr>"
    "header_ok h" "\<not> bit fid 31" "\<not> bit n 31" "t \<noteq> 0" "p \<noteq> None \<Longrightarrow> t = 1"
    by (auto simp: header_ok_def dest: positive_i32_bit)
qed

section \<open>Interface and properties\<close>

interpretation fragment_wire: wire_codec fragment_into_bytes fragment_try_from_bytes
    "\<lambda>f. wire_ok (header f)"
  by unfold_locales (simp_all add: fragment_roundtrip fragment_parse_iff)

text \<open>
  C17. Parsing and printing of fragments agree exactly: a byte string is accepted as a fragment
  if and only if it is the printed form of that fragment and the fragment's header is one that
  can be sent. Nothing else is accepted and no two byte strings denote the same fragment.
\<close>

theorem fragment_codec_exact:
  "fragment_try_from_bytes b = Inr f \<longleftrightarrow> wire_ok (header f) \<and> b = fragment_into_bytes f"
  by (rule fragment_wire.dec_iff)

text \<open>
  C39. What becomes of a link to the next set on the wire. The header constructor accepts such a link
  on the last fragment of a set of any size, but only on a full set of 255 fragments does it
  survive. On a set of one fragment that also has a link to the previous set, it is not printed; on
  any other set of one fragment it is read back as a link to the previous set; on every other set
  that is not full, what is printed is rejected.
\<close>

theorem header_next_link_on_wire:
  assumes "header_try_new fid t c p (Some n) = Inr h"
  shows "header_try_from_bytes (header_to_bytes h @ rest) =
    (if p \<noteq> None then Inr (h\<lparr>fh_next_fragments_set_id := None\<rparr>, 10)
     else if t = 1 then Inr (h\<lparr>fh_previous_fragments_set_id := Some n, fh_next_fragments_set_id := None\<rparr>, 10)
     else if t = 255 then Inr (h, 10)
     else Inl MalformedHeaderError)"
proof -
  note v = header_next_link_values [OF assms]
  let ?h = "h\<lparr>fh_next_fragments_set_id := None\<rparr>"
  let ?g = "h\<lparr>fh_previous_fragments_set_id := Some n, fh_next_fragments_set_id := None\<rparr>"
  have both: ?thesis if "p \<noteq> None"
  proof -
    have "wire_ok ?h" using v(2) by (auto simp: wire_ok_def header_ok_def)
    moreover have "header_to_bytes ?h = header_to_bytes h" "length (header_to_bytes h) = 10"
      using that v(1) by (auto simp: header_to_bytes_def)
    ultimately show ?thesis using that header_roundtrip [of ?h rest] by simp
  qed
  have one: ?thesis if "p = None" "t = 1"
  proof -
    have "wire_ok ?g" using v(1,2) that by (auto simp: wire_ok_def header_ok_def)
    moreover have "header_to_bytes ?g = header_to_bytes h" "length (header_to_bytes h) = 10"
      using that v(1) by (auto simp: header_to_bytes_def)
    ultimately show ?thesis using that header_roundtrip [of ?g rest] by simp
  qed
  have many: ?thesis if "p = None" "t \<noteq> 1"
  proof (cases "t = 255")
    case True
    then have "wire_ok h" using v(1,2) by (simp add: wire_ok_def)
    then show ?thesis using that True header_roundtrip [of h rest] v(1) by (simp add: length_header_to_bytes)
  next
    case False
    have "header_try_from_bytes (header_prefix h @ u32_to_be (set_flag n) @ rest) = Inl MalformedHeaderError"
      using that False v(1,3,4,5) flagged_first_byte [of "set_flag n"]
      by (simp add: header_try_from_bytes_def header_prefix_nths nth_append Let_def)
    then show ?thesis using that False v(1) header_to_bytes_linked [of h n rest] by simp
  qed
  show ?thesis using both one many by blast
qed

theorem header_next_link_on_wire_witness:
  "(\<exists>h. header_try_new 5 2 2 None (Some 9) = Inr h
      \<and> header_try_from_bytes (header_to_bytes h) = Inl MalformedHeaderError)
   \<and> (\<exists>h. header_try_new 5 1 1 None (Some 9) = Inr h
      \<and> header_try_from_bytes (header_to_bytes h)
        = Inr (h\<lparr>fh_previous_fragments_set_id := Some 9, fh_next_fragments_set_id := None\<rparr>, 10))"
  using header_next_link_on_wire [of 5 2 2 None 9 _ "[]"] header_next_link_on_wire [of 5 1 1 None 9 _ "[]"]
  by (simp add: header_try_new_def)

end
