(* ===== verification/Fragment_Sets.thy ===== *)
theory Fragment_Sets
  imports Fragment
begin

text \<open>
  \<open>common/nymsphinx/chunking/src/set.rs\<close> and \<open>lib.rs\<close>: splitting a message into sets of
  at most 255 fragments, the links between consecutive sets, and the computation of the
  number of fragments a message needs.
\<close>

section \<open>Set capacities\<close>

definition max_unlinked_set_payload_length :: "usize \<Rightarrow> usize option" where
  "max_unlinked_set_payload_length max_plaintext_size =
     do {
       u \<leftarrow> unlinked_fragment_payload_max_len max_plaintext_size;
       usize_mul 255 u
     }"

definition max_one_way_linked_set_payload_length :: "usize \<Rightarrow> usize option" where
  "max_one_way_linked_set_payload_length max_plaintext_size =
     do {
       m \<leftarrow> max_unlinked_set_payload_length max_plaintext_size;
       usize_sub m (LINKED_FRAGMENTED_HEADER_LEN - UNLINKED_FRAGMENTED_HEADER_LEN)
     }"

definition two_way_linked_set_payload_length :: "usize \<Rightarrow> usize option" where
  "two_way_linked_set_payload_length max_plaintext_size =
     do {
       m \<leftarrow> max_unlinked_set_payload_length max_plaintext_size;
       usize_sub m (2 * (LINKED_FRAGMENTED_HEADER_LEN - UNLINKED_FRAGMENTED_HEADER_LEN))
     }"

type_synonym FragmentSet = "Fragment list"

section \<open>Set identifiers\<close>

text \<open>
  The random number generator is a parameter: \<open>gen\<close> draws an \<open>i32\<close> from a state. The
  source retries by recursion until the draw is neither 0 nor \<open>i32::MIN\<close>, so a
  generator that only draws these makes it run forever.
\<close>

abbreviation i32_MIN :: i32 where
  "i32_MIN \<equiv> 0x80000000"

definition i32_abs :: "i32 \<Rightarrow> i32" where
  "i32_abs x = (if sint x < 0 then - x else x)"

partial_function (option) generate_set_id :: "('r \<Rightarrow> i32 \<times> 'r) \<Rightarrow> 'r \<Rightarrow> (i32 \<times> 'r) option" where
  "generate_set_id gen rng =
     (case gen rng of (potential_id, rng') \<Rightarrow>
        if potential_id = 0 \<or> potential_id = i32_MIN then generate_set_id gen rng'
        else Some (i32_abs potential_id, rng'))"

fun generate_set_ids :: "('r \<Rightarrow> i32 \<times> 'r) \<Rightarrow> nat \<Rightarrow> 'r \<Rightarrow> (i32 list \<times> 'r) option" where
  "generate_set_ids gen 0 rng = Some ([], rng)"
| "generate_set_ids gen (Suc n) rng =
     do {
       (set_id, rng') \<leftarrow> generate_set_id gen rng;
       (set_ids, rng'') \<leftarrow> generate_set_ids gen n rng';
       Some (set_id # set_ids, rng'')
     }"

section \<open>Splitting\<close>

definition prepare_unlinked_fragmented_set :: "bytes \<Rightarrow> i32 \<Rightarrow> usize \<Rightarrow> FragmentSet option" where
  "prepare_unlinked_fragmented_set message set_id max_plaintext_size =
     do {
       u \<leftarrow> unlinked_fragment_payload_max_len max_plaintext_size;
       let pre_casted_frags = f64_ceil_div (length message) u;
       n \<leftarrow> usize_add pre_casted_frags 1;
       those (map (\<lambda>i. do {
           lb \<leftarrow> usize_mul (i - 1) u;
           x \<leftarrow> usize_mul i u;
           let ub = min (length message) x;
           data \<leftarrow> slice message lb ub;
           r \<leftarrow> fragment_try_new data set_id (of_nat pre_casted_frags) (of_nat i) None None
                 max_plaintext_size;
           unwrap r
         }) [1..<n])
     }"

text \<open>The loop of \<open>prepare_linked_fragment_set\<close>, with its bounds \<open>lb\<close> and \<open>ub\<close> as state.\<close>

fun linked_fragment_loop ::
    "bytes \<Rightarrow> i32 \<Rightarrow> i32 option \<Rightarrow> i32 option \<Rightarrow> usize \<Rightarrow> usize \<Rightarrow> usize list \<Rightarrow> usize \<Rightarrow> usize
      \<Rightarrow> FragmentSet option" where
  "linked_fragment_loop message set_id prev nxt max_plaintext_size num_frags [] lb ub = Some []"
| "linked_fragment_loop message set_id prev nxt max_plaintext_size num_frags (i # js) lb ub =
     do {
       data \<leftarrow> slice message lb ub;
       r \<leftarrow> fragment_try_new data set_id (of_nat num_frags) (of_nat i)
             (if i = 1 then prev else None) (if i = num_frags then nxt else None)
             max_plaintext_size;
       fragment \<leftarrow> unwrap r;
       u \<leftarrow> unlinked_fragment_payload_max_len max_plaintext_size;
       x \<leftarrow> usize_add ub u;
       fragments \<leftarrow> linked_fragment_loop message set_id prev nxt max_plaintext_size num_frags js
                      ub (min (length message) x);
       Some (fragment # fragments)
     }"

definition prepare_linked_fragment_set ::
    "bytes \<Rightarrow> i32 \<Rightarrow> i32 option \<Rightarrow> i32 option \<Rightarrow> usize \<Rightarrow> FragmentSet option" where
  "prepare_linked_fragment_set message set_id prev nxt max_plaintext_size =
     do {
       num_frags \<leftarrow>
         (if nxt \<noteq> None then Some 255
          else do {
            l \<leftarrow> linked_fragment_payload_max_len max_plaintext_size;
            tail_len \<leftarrow> (if length message \<ge> l then usize_sub (length message) l else Some 0);
            u \<leftarrow> unlinked_fragment_payload_max_len max_plaintext_size;
            pre_casted_frags \<leftarrow> usize_add 1 (f64_ceil_div tail_len u);
            (if pre_casted_frags > 255 then None else Some pre_casted_frags)
          });
       ub \<leftarrow>
         (if prev \<noteq> None then do {
            l \<leftarrow> linked_fragment_payload_max_len max_plaintext_size;
            Some (min (length message) l)
          }
          else unlinked_fragment_payload_max_len max_plaintext_size);
       linked_fragment_loop message set_id prev nxt max_plaintext_size num_frags
         [1..<num_frags + 1] 0 ub
     }"

definition total_number_of_sets :: "usize \<Rightarrow> usize \<Rightarrow> usize option" where
  "total_number_of_sets message_len max_plaintext_size =
     do {
       unlinked \<leftarrow> max_unlinked_set_payload_length max_plaintext_size;
       if message_len \<le> unlinked then Some 1
       else do {
         one_way \<leftarrow> max_one_way_linked_set_payload_length max_plaintext_size;
         edges \<leftarrow> usize_mul 2 one_way;
         if message_len > unlinked \<and> message_len \<le> edges then Some 2
         else do {
           len_without_edges \<leftarrow> usize_sub message_len edges;
           two_way \<leftarrow> two_way_linked_set_payload_length max_plaintext_size;
           usize_add (f64_ceil_div len_without_edges two_way) 2
         }
       }
     }"

definition prepare_fragment_set ::
    "bytes \<Rightarrow> i32 \<Rightarrow> i32 option \<Rightarrow> i32 option \<Rightarrow> usize \<Rightarrow> FragmentSet option" where
  "prepare_fragment_set message set_id prev nxt max_plaintext_size =
     (if prev \<noteq> None \<or> nxt \<noteq> None
      then prepare_linked_fragment_set message set_id prev nxt max_plaintext_size
      else prepare_unlinked_fragmented_set message set_id max_plaintext_size)"

text \<open>The loop of \<open>split_into_sets\<close> over the sets of a message that needs several.\<close>

fun fragment_set_loop ::
    "bytes \<Rightarrow> i32 list \<Rightarrow> usize \<Rightarrow> usize \<Rightarrow> usize list \<Rightarrow> usize \<Rightarrow> usize \<Rightarrow> FragmentSet list option" where
  "fragment_set_loop message set_ids max_plaintext_size num_of_sets [] lb ub = Some []"
| "fragment_set_loop message set_ids max_plaintext_size num_of_sets (i # js) lb ub =
     do {
       part \<leftarrow> slice message lb ub;
       set_id \<leftarrow> index set_ids i;
       prev \<leftarrow> (if i = 0 then Some None else map_option Some (index set_ids (i - 1)));
       nxt \<leftarrow> (if i = num_of_sets - 1 then Some None else map_option Some (index set_ids (i + 1)));
       fragment_set \<leftarrow> prepare_fragment_set part set_id prev nxt max_plaintext_size;
       step \<leftarrow> (if i = num_of_sets - 2 then max_one_way_linked_set_payload_length max_plaintext_size
                else two_way_linked_set_payload_length max_plaintext_size);
       x \<leftarrow> usize_add ub step;
       sets \<leftarrow> fragment_set_loop message set_ids max_plaintext_size num_of_sets js
                 ub (min (length message) x);
       Some (fragment_set # sets)
     }"

text \<open>The two branches of \<open>split_into_sets\<close> once the identifiers are drawn.\<close>

definition split_with_set_ids :: "i32 list \<Rightarrow> bytes \<Rightarrow> usize \<Rightarrow> FragmentSet list option" where
  "split_with_set_ids set_ids message max_plaintext_size =
     (if length set_ids = 1 then do {
        s \<leftarrow> prepare_fragment_set message (hd set_ids) None None max_plaintext_size;
        Some [s]
      }
      else do {
        ub \<leftarrow> max_one_way_linked_set_payload_length max_plaintext_size;
        fragment_set_loop message set_ids max_plaintext_size (length set_ids)
          [0..<length set_ids] 0 ub
      })"

definition split_into_sets ::
    "('r \<Rightarrow> i32 \<times> 'r) \<Rightarrow> 'r \<Rightarrow> bytes \<Rightarrow> usize \<Rightarrow> (FragmentSet list \<times> 'r) option" where
  "split_into_sets gen rng message max_plaintext_size =
     do {
       num_of_sets \<leftarrow> total_number_of_sets (length message) max_plaintext_size;
       (set_ids, rng') \<leftarrow> generate_set_ids gen num_of_sets rng;
       sets \<leftarrow> split_with_set_ids set_ids message max_plaintext_size;
       Some (sets, rng')
     }"

section \<open>How many fragments a message needs\<close>

text \<open>\<open>number_of_required_fragments\<close> of \<open>lib.rs\<close>: the number of fragments and the bytes
  left in the last one.\<close>

definition number_of_required_fragments :: "usize \<Rightarrow> usize \<Rightarrow> (usize \<times> usize) option" where
  "number_of_required_fragments message_len plaintext_per_fragment =
     do {
       max_unlinked \<leftarrow> unlinked_fragment_payload_max_len plaintext_per_fragment;
       max_linked \<leftarrow> linked_fragment_payload_max_len plaintext_per_fragment;
       n \<leftarrow> total_number_of_sets message_len plaintext_per_fragment;
       if n = 1 then
         if message_len < max_unlinked then Some (1, max_unlinked - message_len)
         else if max_unlinked = 0 then None
         else
           let quot = message_len div max_unlinked; rem = message_len mod max_unlinked in
           if rem = 0 then Some (quot, 0)
           else do { k \<leftarrow> usize_add quot 1; Some (k, max_unlinked - rem) }
       else do {
         m \<leftarrow> usize_sub n 1;
         without_last \<leftarrow> usize_mul m 255;
         x \<leftarrow> usize_mul 2 n;
         y \<leftarrow> usize_sub x 2;
         linked_without_last \<leftarrow> usize_sub y 1;
         unlinked_without_last \<leftarrow> usize_sub without_last linked_without_last;
         a \<leftarrow> usize_mul linked_without_last max_linked;
         b \<leftarrow> usize_mul unlinked_without_last max_unlinked;
         c \<leftarrow> usize_sub message_len a;
         final_set_message_len \<leftarrow> usize_sub c b;
         if final_set_message_len < max_linked then do {
           k \<leftarrow> usize_add without_last 1;
           Some (k, max_linked - final_set_message_len)
         }
         else if final_set_message_len = max_linked then do {
           k \<leftarrow> usize_add without_last 1;
           Some (k, 0)
         }
         else if max_unlinked = 0 then None
         else
           let remaining_len = final_set_message_len - max_linked;
               quot = remaining_len div max_unlinked;
               rem = remaining_len mod max_unlinked in
           do {
             k \<leftarrow> usize_add without_last quot;
             (if rem = 0 then do { k' \<leftarrow> usize_add k 1; Some (k', 0) }
              else do { k' \<leftarrow> usize_add k 2; Some (k', max_unlinked - rem) })
           }
       }
     }"

section \<open>Closed forms of the capacities\<close>

text \<open>
  The plaintext sizes for which no capacity computation panics or wraps, and the message
  lengths for which the \<open>f64\<close> quotients are exact (any buffer that fits in memory).
\<close>

definition plaintext_ok :: "usize \<Rightarrow> bool" where
  "plaintext_ok mps \<longleftrightarrow> 10 \<le> mps \<and> mps < 2 ^ 32"

abbreviation max_len_ok :: "usize \<Rightarrow> bool" where
  "max_len_ok n \<equiv> n < 2 ^ 52"

definition ceil_div :: "nat \<Rightarrow> nat \<Rightarrow> nat" where
  "ceil_div a b = (a + b - 1) div b"

lemma payload_max_len_eqs [rust_simps]:
  "plaintext_ok mps \<Longrightarrow> unlinked_fragment_payload_max_len mps = Some (mps - 7)"
  "plaintext_ok mps \<Longrightarrow> linked_fragment_payload_max_len mps = Some (mps - 10)"
  by (simp_all add: plaintext_ok_def unlinked_fragment_payload_max_len_def
      linked_fragment_payload_max_len_def rust_simps)

lemma set_payload_length_eqs [rust_simps]:
  assumes "plaintext_ok mps"
  shows "max_unlinked_set_payload_length mps = Some (255 * (mps - 7))"
    and "max_one_way_linked_set_payload_length mps = Some (255 * (mps - 7) - 3)"
    and "two_way_linked_set_payload_length mps = Some (255 * (mps - 7) - 6)"
  using assms
  by (auto simp: max_unlinked_set_payload_length_def max_one_way_linked_set_payload_length_def
      two_way_linked_set_payload_length_def payload_max_len_eqs usize_mul_def usize_sub_def plaintext_ok_def)

definition num_sets :: "nat \<Rightarrow> nat \<Rightarrow> nat" where
  "num_sets len mps =
     (let u = mps - 7 in
      if len \<le> 255 * u then 1
      else if len \<le> 2 * (255 * u - 3) then 2
      else ceil_div (len - 2 * (255 * u - 3)) (255 * u - 6) + 2)"

lemma ceil_div_le: "0 < b \<Longrightarrow> ceil_div a b \<le> a"
  by (cases a) (auto simp: ceil_div_def div_add_self2)

lemma total_number_of_sets_eq [rust_simps]:
  assumes "plaintext_ok mps" "max_len_ok len"
  shows "total_number_of_sets len mps = Some (num_sets len mps)"
proof -
  let ?u = "mps - 7"
  have u: "3 \<le> ?u" "?u < 2 ^ 32" using assms(1) by (auto simp: plaintext_ok_def)
  show ?thesis
  proof (cases "len \<le> 2 * (255 * ?u - 3)")
    case True
    then show ?thesis using assms u
      by (auto simp: total_number_of_sets_def set_payload_length_eqs num_sets_def Let_def usize_mul_def)
  next
    case False
    have ceil: "f64_ceil_div (len - 2 * (255 * ?u - 3)) (255 * ?u - 6)
        = ceil_div (len - 2 * (255 * ?u - 3)) (255 * ?u - 6)"
      unfolding ceil_div_def using u assms(2) by (intro f64_ceil_div_exact) auto
    have "ceil_div (len - 2 * (255 * ?u - 3)) (255 * ?u - 6) \<le> len"
      using u by (intro order.trans [OF ceil_div_le]) auto
    then show ?thesis using False assms u ceil
      by (auto simp: total_number_of_sets_def set_payload_length_eqs num_sets_def Let_def
          usize_mul_def usize_sub_def usize_add_def)
  qed
qed

section \<open>The segments of a message\<close>

text \<open>
  Both loops cut the message at the bounds \<open>0, c, c + u, c + 2u, \<dots>\<close>, capped by its length:
  \<open>seg c u m i\<close> is the \<open>i\<close>-th segment, counted from 1.
\<close>

definition bnd :: "nat \<Rightarrow> nat \<Rightarrow> nat \<Rightarrow> nat \<Rightarrow> nat" where
  "bnd c u len i = (if i = 0 then 0 else min len (c + (i - 1) * u))"

definition seg :: "nat \<Rightarrow> nat \<Rightarrow> bytes \<Rightarrow> nat \<Rightarrow> bytes" where
  "seg c u m i = take (bnd c u (length m) i - bnd c u (length m) (i - 1))
                   (drop (bnd c u (length m) (i - 1)) m)"

lemma bnd_mono: "bnd c u len (i - 1) \<le> bnd c u len i"
  by (auto simp: bnd_def intro!: min.coboundedI2 mult_le_mono)

lemma bnd_step: "1 \<le> i \<Longrightarrow> min len (bnd c u len i + u) = bnd c u len (Suc i)"
  by (cases i) (auto simp: bnd_def min_def)

lemma bnd_le: "bnd c u len i \<le> len"
  by (simp add: bnd_def)

lemma length_seg: "length (seg c u m i) = bnd c u (length m) i - bnd c u (length m) (i - 1)"
  using bnd_le [of c u "length m" i] bnd_mono [of c u "length m" i]
  by (simp add: seg_def)

lemma take_bnd_Suc:
  "take (bnd c u (length m) (i - 1)) m @ seg c u m i = take (bnd c u (length m) i) m"
  using bnd_mono [of c u "length m" i]
  by (simp add: seg_def flip: take_add)

lemma concat_seg: "concat (map (seg c u m) [1..<n + 1]) = take (bnd c u (length m) n) m"
proof (induction n)
  case 0
  then show ?case by (simp add: bnd_def)
next
  case (Suc n)
  then show ?case using take_bnd_Suc [of c u m "Suc n"] by simp
qed

lemma concat_seg_all: "bnd c u (length m) n = length m \<Longrightarrow> concat (map (seg c u m) [1..<n + 1]) = m"
  by (simp only: concat_seg) simp

section \<open>What one set looks like\<close>

text \<open>The \<open>i\<close>-th fragment (counted from 1) of a set of \<open>num\<close> fragments.\<close>

definition mk_fragment ::
    "i32 \<Rightarrow> nat \<Rightarrow> i32 option \<Rightarrow> i32 option \<Rightarrow> nat \<Rightarrow> bytes \<Rightarrow> Fragment" where
  "mk_fragment set_id num prev nxt i data =
     \<lparr>header = \<lparr>fh_id = set_id, fh_total_fragments = of_nat num, fh_current_fragment = of_nat i,
         fh_previous_fragments_set_id = (if i = 1 then prev else None),
         fh_next_fragments_set_id = (if i = num then nxt else None)\<rparr>,
      payload = data\<rparr>"

definition segment_set ::
    "i32 \<Rightarrow> nat \<Rightarrow> i32 option \<Rightarrow> i32 option \<Rightarrow> nat \<Rightarrow> nat \<Rightarrow> bytes \<Rightarrow> FragmentSet" where
  "segment_set set_id num prev nxt c u m =
     map (\<lambda>i. mk_fragment set_id num prev nxt i (seg c u m i)) [1..<num + 1]"

text \<open>The identifiers a set may carry.\<close>

definition set_ids_ok :: "i32 \<Rightarrow> i32 option \<Rightarrow> i32 option \<Rightarrow> bool" where
  "set_ids_ok set_id prev nxt \<longleftrightarrow>
     0 < sint set_id \<and> (\<forall>p. prev = Some p \<longrightarrow> 0 < sint p \<and> p \<noteq> set_id)
     \<and> (\<forall>n. nxt = Some n \<longrightarrow> 0 < sint n \<and> n \<noteq> set_id)"

lemma byte_of_nat_le: "i \<le> 255 \<Longrightarrow> j \<le> 255 \<Longrightarrow> (of_nat i :: byte) \<le> of_nat j \<longleftrightarrow> i \<le> j"
  by (simp add: word_le_nat_alt unat_of_nat)

lemma byte_of_nat_less: "i \<le> 255 \<Longrightarrow> j \<le> 255 \<Longrightarrow> (of_nat i :: byte) < of_nat j \<longleftrightarrow> i < j"
  by (simp add: word_less_nat_alt unat_of_nat)

lemma byte_of_nat_eq: "i \<le> 255 \<Longrightarrow> j \<le> 255 \<Longrightarrow> (of_nat i :: byte) = of_nat j \<longleftrightarrow> i = j"
  by (simp add: word_unat_eq_iff unat_of_nat)

lemma byte_of_nat_eq_0: "i \<le> 255 \<Longrightarrow> (of_nat i :: byte) = 0 \<longleftrightarrow> i = 0"
  using byte_of_nat_eq [of i 0] by simp

lemma byte_of_nat_gt_1: "i \<le> 255 \<Longrightarrow> 1 < (of_nat i :: byte) \<longleftrightarrow> 1 < i"
  using byte_of_nat_less [of 1 i] by simp

lemmas byte_of_nat_simps = byte_of_nat_le byte_of_nat_less byte_of_nat_eq byte_of_nat_eq_0 byte_of_nat_gt_1

lemma mk_fragment_header_ok:
  assumes "set_ids_ok set_id prev nxt" "1 \<le> i" "i \<le> num" "num \<le> 255"
  shows "header_ok (header (mk_fragment set_id num prev nxt i data))"
  using assms by (auto simp: header_ok_def mk_fragment_def set_ids_ok_def byte_of_nat_simps)

lemma mk_fragment_wire_ok:
  assumes "set_ids_ok set_id prev nxt" "1 \<le> i" "i \<le> num" "num \<le> 255" "nxt \<noteq> None \<longrightarrow> num = 255"
  shows "wire_ok (header (mk_fragment set_id num prev nxt i data))"
  using mk_fragment_header_ok [OF assms(1-4)] assms(5)
  by (auto simp: wire_ok_def mk_fragment_def split: if_splits)

text \<open>The length the \<open>i\<close>-th fragment has to have.\<close>

definition seg_len_ok :: "usize \<Rightarrow> nat \<Rightarrow> i32 option \<Rightarrow> i32 option \<Rightarrow> nat \<Rightarrow> nat \<Rightarrow> bool" where
  "seg_len_ok mps num prev nxt i n \<longleftrightarrow>
     (if i = 1 \<and> prev \<noteq> None then (if 1 < num then n = mps - 10 else n \<le> mps - 10)
      else if i = num \<and> nxt \<noteq> None then n = mps - 10
      else if i \<noteq> num then n = mps - 7 else n \<le> mps - 7)"

lemma fragment_try_new_mk:
  assumes "plaintext_ok mps" "set_ids_ok set_id prev nxt" "1 \<le> i" "i \<le> num" "num \<le> 255"
    and "seg_len_ok mps num prev nxt i (length data)"
  shows "fragment_try_new data set_id (of_nat num) (of_nat i)
      (if i = 1 then prev else None) (if i = num then nxt else None) mps
    = Some (Inr (mk_fragment set_id num prev nxt i data))"
proof -
  let ?f = "mk_fragment set_id num prev nxt i data"
  note ok = header_try_new_ok [OF mk_fragment_header_ok [OF assms(2-5)], of data]
  have "payload_len_ok (header ?f) mps (length data)"
    using assms(3-6) by (auto simp: payload_len_ok_def seg_len_ok_def mk_fragment_def byte_of_nat_simps
        split: if_splits)
  moreover have "10 \<le> mps" using assms(1) by (simp add: plaintext_ok_def)
  ultimately show ?thesis using ok
    by (subst fragment_try_new_Inr_iff) (simp_all add: mk_fragment_def)
qed

lemma length_segment_set [simp]: "length (segment_set set_id num prev nxt c u m) = num"
  by (simp add: segment_set_def)

lemma concat_payload_segment_set:
  "bnd c u (length m) num = length m \<Longrightarrow>
   concat (map payload (segment_set set_id num prev nxt c u m)) = m"
  using concat_seg_all [of c u m num]
  by (simp add: segment_set_def comp_def mk_fragment_def)

section \<open>The set constructors compute these sets\<close>

lemma linked_fragment_loop_eq:
  assumes ok: "plaintext_ok mps" "set_ids_ok set_id prev nxt" "num \<le> 255" and len: "max_len_ok (length m)"
    and segs: "\<And>i. 1 \<le> i \<Longrightarrow> i \<le> num \<Longrightarrow>
      seg_len_ok mps num prev nxt i (length (seg c (mps - 7) m i))"
  shows "1 \<le> i \<Longrightarrow> linked_fragment_loop m set_id prev nxt mps num [i..<num + 1]
       (bnd c (mps - 7) (length m) (i - 1)) (bnd c (mps - 7) (length m) i)
     = Some (map (\<lambda>j. mk_fragment set_id num prev nxt j (seg c (mps - 7) m j)) [i..<num + 1])"
proof (induction "num + 1 - i" arbitrary: i)
  case 0
  then show ?case by simp
next
  case (Suc k)
  let ?u = "mps - 7"
  let ?b = "bnd c ?u (length m)"
  have i: "i \<le> num" using Suc.hyps by simp
  then have ups: "[i..<num + 1] = i # [Suc i..<num + 1]" by (simp add: upt_rec)
  have sl: "slice m (?b (i - 1)) (?b i) = Some (seg c ?u m i)"
    using bnd_mono bnd_le by (simp add: slice_def seg_def)
  have new: "fragment_try_new (seg c ?u m i) set_id (of_nat num) (of_nat i)
      (if i = 1 then prev else None) (if i = num then nxt else None) mps
    = Some (Inr (mk_fragment set_id num prev nxt i (seg c ?u m i)))"
    using Suc.prems i ok segs by (intro fragment_try_new_mk) auto
  have "?b i \<le> length m" by (rule bnd_le)
  then have add: "usize_add (?b i) ?u = Some (?b i + ?u)"
    using ok(1) len by (auto simp: usize_add_def plaintext_ok_def)
  have step: "min (length m) (?b i + ?u) = ?b (Suc i)"
    using Suc.prems by (rule bnd_step)
  have IH: "linked_fragment_loop m set_id prev nxt mps num [Suc i..<num + 1] (?b i) (?b (Suc i))
     = Some (map (\<lambda>j. mk_fragment set_id num prev nxt j (seg c ?u m j)) [Suc i..<num + 1])"
    using Suc.hyps(1) [of "Suc i"] Suc.hyps(2) by simp
  show ?case
    unfolding ups using sl new add step IH ok(1) by (simp add: payload_max_len_eqs del: upt_Suc)
qed

lemma ceil_div_upper: "0 < b \<Longrightarrow> a \<le> ceil_div a b * b"
proof -
  assume b: "0 < b"
  have "a + b - 1 < b * ((a + b - 1) div b) + b"
    using b by (metis add.commute dividend_less_times_div mult.commute)
  then show ?thesis using b by (simp add: ceil_div_def mult.commute)
qed

lemma ceil_div_lower: "0 < b \<Longrightarrow> 0 < a \<Longrightarrow> (ceil_div a b - 1) * b < a"
proof -
  assume b: "0 < b" and a: "0 < a"
  have "(a + b - 1) div b * b \<le> a + b - 1" by (rule div_times_less_eq_dividend)
  then show ?thesis using a b unfolding ceil_div_def diff_mult_distrib mult_1 by linarith
qed

lemma ceil_div_le_iff: "0 < b \<Longrightarrow> ceil_div a b \<le> n \<longleftrightarrow> a \<le> n * b"
proof
  assume b: "0 < b" and "ceil_div a b \<le> n"
  then have "ceil_div a b * b \<le> n * b" by simp
  then show "a \<le> n * b" using ceil_div_upper [OF b, of a] by linarith
next
  assume b: "0 < b" and a: "a \<le> n * b"
  show "ceil_div a b \<le> n"
  proof (rule ccontr)
    assume "\<not> ceil_div a b \<le> n"
    then have n: "n \<le> ceil_div a b - 1" and c: "ceil_div a b \<noteq> 0" by auto
    show False
    proof (cases "a = 0")
      case True
      then show ?thesis using c b by (simp add: ceil_div_def)
    next
      case False
      then have "(ceil_div a b - 1) * b < a" using b by (intro ceil_div_lower) auto
      then show False using a n by (meson leD le_trans mult_le_mono1)
    qed
  qed
qed

lemma less_ceil_div_iff: "0 < b \<Longrightarrow> n < ceil_div a b \<longleftrightarrow> n * b < a"
  using ceil_div_le_iff [of b a n] by (meson not_le)

lemma ceil_div_pos_iff: "0 < b \<Longrightarrow> 0 < ceil_div a b \<longleftrightarrow> 0 < a"
  using ceil_div_le_iff [of b a 0] by auto

lemma bnd_same: "bnd u u len i = min len (i * u)"
  by (cases i) (auto simp: bnd_def)

lemma seg_len_ok_unlinked:
  assumes u: "0 < mps - 7" and i: "1 \<le> i" "i \<le> ceil_div (length m) (mps - 7)"
  shows "seg_len_ok mps (ceil_div (length m) (mps - 7)) None None i
      (length (seg (mps - 7) (mps - 7) m i))"
proof -
  let ?u = "mps - 7"
  let ?n = "ceil_div (length m) ?u"
  have lo: "j * ?u \<le> length m" if "j < ?n" for j
    using that u less_ceil_div_iff [of ?u j "length m"] by simp
  have step: "i * ?u = (i - 1) * ?u + ?u" using i by (cases i) auto
  have "(i - 1) * ?u \<le> length m" using i by (intro lo) auto
  then have "length (seg ?u ?u m i) = min (length m) (i * ?u) - (i - 1) * ?u"
    by (simp add: length_seg bnd_same)
  then have "length (seg ?u ?u m i) \<le> ?u" "i \<noteq> ?n \<Longrightarrow> length (seg ?u ?u m i) = ?u"
    using step lo [of i] i by linarith+
  then show ?thesis by (auto simp: seg_len_ok_def)
qed

lemma prepare_unlinked_eq:
  assumes ok: "plaintext_ok mps" "0 < sint set_id"
    and len: "length m \<le> 255 * (mps - 7)"
  shows "prepare_unlinked_fragmented_set m set_id mps
    = Some (segment_set set_id (ceil_div (length m) (mps - 7)) None None (mps - 7) (mps - 7) m)"
proof -
  let ?u = "mps - 7"
  let ?n = "ceil_div (length m) ?u"
  have u: "3 \<le> ?u" "?u < 2 ^ 32" using ok(1) by (auto simp: plaintext_ok_def)
  have n: "?n \<le> 255" using u len by (simp add: ceil_div_le_iff)
  have f64: "f64_ceil_div (length m) ?u = ?n"
    unfolding ceil_div_def using u len by (intro f64_ceil_div_exact) auto
  have lo: "i * ?u \<le> length m" if "i < ?n" for i
    using that u less_ceil_div_iff [of ?u i "length m"] by simp
  have body: "do {
           lb \<leftarrow> usize_mul (i - 1) ?u;
           x \<leftarrow> usize_mul i ?u;
           let ub = min (length m) x;
           data \<leftarrow> slice m lb ub;
           r \<leftarrow> fragment_try_new data set_id (of_nat ?n) (of_nat i) None None mps;
           unwrap r
         } = Some (mk_fragment set_id ?n None None i (seg ?u ?u m i))" if i: "i \<in> set [1..<?n + 1]" for i
  proof -
    from i have i': "1 \<le> i" "i \<le> ?n" by auto
    have "i * ?u \<le> 255 * ?u" using i' n by (intro mult_le_mono1) simp
    also have "255 * ?u \<le> usize_max" using u by simp
    finally have "i * ?u \<le> usize_max" .
    moreover have "(i - 1) * ?u \<le> i * ?u" by (intro mult_le_mono1) simp
    ultimately have mul: "usize_mul i ?u = Some (i * ?u)" "usize_mul (i - 1) ?u = Some ((i - 1) * ?u)"
      by (simp_all only: usize_mul_Some order.trans)
    have lo': "(i - 1) * ?u \<le> length m" using i' by (intro lo) auto
    then have sl: "slice m ((i - 1) * ?u) (min (length m) (i * ?u)) = Some (seg ?u ?u m i)"
      by (simp add: slice_def seg_def bnd_same diff_mult_distrib)
    have "seg_len_ok mps ?n None None i (length (seg ?u ?u m i))"
      using i' u by (intro seg_len_ok_unlinked) auto
    then have new: "fragment_try_new (seg ?u ?u m i) set_id (of_nat ?n) (of_nat i) None None mps
        = Some (Inr (mk_fragment set_id ?n None None i (seg ?u ?u m i)))"
      using ok i' n fragment_try_new_mk [of mps set_id None None i ?n "seg ?u ?u m i"]
      by (simp add: set_ids_ok_def)
    show ?thesis using mul sl new by simp
  qed
  have "usize_add ?n 1 = Some (?n + 1)" using n by (simp add: usize_add_def)
  then show ?thesis
    using ok(1) f64 those_map_Some [OF body, of "[1..<?n + 1]"]
    by (simp add: prepare_unlinked_fragmented_set_def payload_max_len_eqs segment_set_def Let_def del: upt_Suc)
qed

lemma length_seg_1: "length (seg c u m 1) = min (length m) c"
  by (simp add: length_seg bnd_def)

lemma length_seg_le:
  assumes "1 < i"
  shows "length (seg c u m i) \<le> u"
proof -
  have "min (length m) (bnd c u (length m) (i - 1) + u) = bnd c u (length m) i"
    using assms bnd_step [of "i - 1"] by simp
  then show ?thesis unfolding length_seg by linarith
qed

lemma bnd_full: "0 < i \<Longrightarrow> c + (i - 1) * u \<le> len \<Longrightarrow> bnd c u len i = c + (i - 1) * u"
  by (simp add: bnd_def)

lemma length_seg_full:
  assumes "1 < i" "c + (i - 1) * u \<le> length m"
  shows "length (seg c u m i) = u"
proof -
  have step: "(i - 1) * u = (i - 1 - 1) * u + u" using assms(1) by (cases "i - 1") auto
  then have "bnd c u (length m) (i - 1) = c + (i - 1 - 1) * u"
    using assms by (intro bnd_full) auto
  then show ?thesis using bnd_full [of i c u "length m"] assms step by (simp add: length_seg)
qed

text \<open>The sets that have a successor are full.\<close>

definition full_len :: "usize \<Rightarrow> 'a option \<Rightarrow> nat" where
  "full_len mps prev = 255 * (mps - 7) - (if prev = None then 3 else 6)"

definition first_len :: "usize \<Rightarrow> 'a option \<Rightarrow> nat" where
  "first_len mps prev = (if prev = None then mps - 7 else mps - 10)"

lemma full_len_last:
  "3 \<le> u \<Longrightarrow> 255 * u - (if P then 3 else 6) - ((if P then u else u - 3) + 253 * u) = u - (3::nat)"
  by (cases P) auto

lemma seg_len_ok_next:
  assumes ok: "plaintext_ok mps" and len: "length m = full_len mps prev" and i: "1 \<le> i" "i \<le> 255"
  shows "seg_len_ok mps 255 prev (Some n) i (length (seg (first_len mps prev) (mps - 7) m i))"
proof -
  let ?u = "mps - 7"
  let ?c = "first_len mps prev"
  have u: "3 \<le> ?u" "mps - 10 = ?u - 3" using ok by (auto simp: plaintext_ok_def)
  have lens: "?c \<le> length m" "?c + 253 * ?u \<le> length m"
    using u len by (auto simp: full_len_def first_len_def)
  consider "i = 1" | "1 < i" "i \<le> 254" | "i = 255" using i by linarith
  then show ?thesis
  proof cases
    case 1
    then show ?thesis using lens by (auto simp: seg_len_ok_def length_seg_1 [simplified] first_len_def)
  next
    case 2
    have "(i - 1) * ?u \<le> 253 * ?u" using 2 by (intro mult_le_mono1) simp
    then have "?c + (i - 1) * ?u \<le> length m" using lens(2) by linarith
    then show ?thesis using 2 by (simp add: seg_len_ok_def length_seg_full)
  next
    case 3
    have "length m \<le> ?c + 254 * ?u" using u len by (auto simp: full_len_def first_len_def)
    then have "bnd ?c ?u (length m) 255 = length m" "bnd ?c ?u (length m) 254 = ?c + 253 * ?u"
      using lens by (simp_all add: bnd_def)
    then have "length (seg ?c ?u m 255) = full_len mps prev - (?c + 253 * ?u)"
      using len by (simp add: length_seg)
    also have "\<dots> = mps - 10" unfolding full_len_def first_len_def u(2) using u(1) by (rule full_len_last)
    finally show ?thesis using 3 by (simp add: seg_len_ok_def)
  qed
qed

lemma prepare_linked_next_eq:
  assumes ok: "plaintext_ok mps" "set_ids_ok set_id prev (Some n)"
    and len: "length m = full_len mps prev"
  shows "prepare_linked_fragment_set m set_id prev (Some n) mps
    = Some (segment_set set_id 255 prev (Some n) (first_len mps prev) (mps - 7) m)"
proof -
  let ?c = "first_len mps prev"
  have u: "3 \<le> mps - 7" "mps < 2 ^ 32" using ok by (auto simp: plaintext_ok_def)
  then have "max_len_ok (length m)" using len by (auto simp: full_len_def)
  then have loop: "linked_fragment_loop m set_id prev (Some n) mps 255 [1..<255 + 1]
      (bnd ?c (mps - 7) (length m) 0) (bnd ?c (mps - 7) (length m) 1)
    = Some (segment_set set_id 255 prev (Some n) ?c (mps - 7) m)"
    using linked_fragment_loop_eq [of mps set_id prev "Some n" 255 m ?c 1] ok len
    by (simp add: seg_len_ok_next segment_set_def del: upt_Suc)
  have "?c \<le> length m" using u len by (auto simp: full_len_def first_len_def)
  then have "bnd ?c (mps - 7) (length m) 1 = (if prev = None then mps - 7 else min (length m) (mps - 10))"
    "bnd ?c (mps - 7) (length m) 0 = 0"
    by (auto simp: bnd_def first_len_def)
  with loop show ?thesis
    using ok(1) by (cases prev) (simp_all add: prepare_linked_fragment_set_def payload_max_len_eqs del: upt_Suc)
qed

definition last_num :: "usize \<Rightarrow> nat \<Rightarrow> nat" where
  "last_num mps len = 1 + ceil_div (len - (mps - 10)) (mps - 7)"

lemma seg_len_ok_last:
  assumes ok: "plaintext_ok mps" and i: "1 \<le> i" "i \<le> last_num mps (length m)"
  shows "seg_len_ok mps (last_num mps (length m)) (Some p) None i
    (length (seg (mps - 10) (mps - 7) m i))"
proof -
  let ?u = "mps - 7"
  let ?c = "mps - 10"
  have u: "0 < ?u" using ok by (auto simp: plaintext_ok_def)
  have lo: "?c + k * ?u \<le> length m" if "k + 1 < last_num mps (length m)" for k
    using that u by (auto simp: last_num_def less_ceil_div_iff)
  show ?thesis
  proof (cases "i = 1")
    case True
    then show ?thesis using lo [of 0] by (auto simp: seg_len_ok_def length_seg_1 [simplified])
  next
    case False
    then show ?thesis using i lo [of "i - 1"] length_seg_le [of i ?c ?u m] length_seg_full [of i ?c ?u m]
      by (auto simp: seg_len_ok_def)
  qed
qed

lemma prepare_linked_last_eq:
  assumes ok: "plaintext_ok mps" "set_ids_ok set_id (Some p) None"
    and len: "length m \<le> full_len mps None"
  shows "last_num mps (length m) \<le> 255"
    and "prepare_linked_fragment_set m set_id (Some p) None mps
    = Some (segment_set set_id (last_num mps (length m)) (Some p) None (mps - 10) (mps - 7) m)"
proof -
  let ?c = "mps - 10"
  let ?u = "mps - 7"
  let ?n = "last_num mps (length m)"
  have u: "3 \<le> ?u" "mps < 2 ^ 32" using ok by (auto simp: plaintext_ok_def)
  obtain v where v: "mps = v + 10"
    using ok(1) that [of "mps - 10"] by (auto simp: plaintext_ok_def)
  have "length m - ?c \<le> 254 * ?u" using len by (simp add: v full_len_def)
  then have n: "ceil_div (length m - ?c) ?u \<le> 254" using u by (subst ceil_div_le_iff) auto
  then show n': "?n \<le> 255" by (simp add: last_num_def)
  have m: "max_len_ok (length m)" using len u by (auto simp: full_len_def)
  have f64: "f64_ceil_div (length m - ?c) ?u = ceil_div (length m - ?c) ?u"
    unfolding ceil_div_def using u m by (intro f64_ceil_div_exact) auto
  have loop: "linked_fragment_loop m set_id (Some p) None mps ?n [1..<?n + 1]
      (bnd ?c ?u (length m) 0) (bnd ?c ?u (length m) 1)
    = Some (segment_set set_id ?n (Some p) None ?c ?u m)"
    using linked_fragment_loop_eq [of mps set_id "Some p" None ?n m ?c 1] ok n' m
    by (simp add: seg_len_ok_last segment_set_def del: upt_Suc)
  have bnds: "bnd ?c ?u (length m) 1 = min (length m) ?c" "bnd ?c ?u (length m) 0 = 0"
    by (auto simp: bnd_def)
  have tail: "(if length m \<ge> ?c then usize_sub (length m) ?c else Some 0) = Some (length m - ?c)"
    by (auto simp: usize_sub_def)
  have "usize_add 1 (f64_ceil_div (length m - ?c) ?u) = Some ?n"
    using n f64 by (auto simp: usize_add_def last_num_def)
  with loop tail n' bnds show "prepare_linked_fragment_set m set_id (Some p) None mps
    = Some (segment_set set_id ?n (Some p) None ?c ?u m)"
    using ok(1) by (simp add: prepare_linked_fragment_set_def payload_max_len_eqs del: upt_Suc)
qed

end
