(* ===== verification/Splitting.thy ===== *)
theory Splitting
  imports Fragment_Sets
begin

text \<open>
  What \<open>split_into_sets\<close> of \<open>common/nymsphinx/chunking/src/set.rs\<close> computes on a whole message:
  the closed form of its sets, that the split is lossless, the links between the sets, and the
  sizes of the fragments.
\<close>

section \<open>The sets of a whole message\<close>

abbreviation edge_len :: "usize \<Rightarrow> nat" where
  "edge_len mps \<equiv> 255 * (mps - 7) - 3"

abbreviation inner_len :: "usize \<Rightarrow> nat" where
  "inner_len mps \<equiv> 255 * (mps - 7) - 6"

abbreviation set_bnd :: "usize \<Rightarrow> nat \<Rightarrow> nat \<Rightarrow> nat" where
  "set_bnd mps \<equiv> bnd (edge_len mps) (inner_len mps)"

definition set_part :: "usize \<Rightarrow> bytes \<Rightarrow> nat \<Rightarrow> nat \<Rightarrow> bytes" where
  "set_part mps m n k =
     (if k = n - 1 then drop (set_bnd mps (length m) k) m
      else seg (edge_len mps) (inner_len mps) m (k + 1))"

definition set_prev :: "i32 list \<Rightarrow> nat \<Rightarrow> i32 option" where
  "set_prev ids k = (if k = 0 then None else Some (ids ! (k - 1)))"

definition set_next :: "i32 list \<Rightarrow> nat \<Rightarrow> i32 option" where
  "set_next ids k = (if k = length ids - 1 then None else Some (ids ! (k + 1)))"

text \<open>The number of fragments of a set that carries \<open>len\<close> bytes.\<close>

definition set_num :: "usize \<Rightarrow> 'a option \<Rightarrow> 'a option \<Rightarrow> nat \<Rightarrow> nat" where
  "set_num mps prev nxt len =
     (if nxt \<noteq> None then 255
      else if prev = None then ceil_div len (mps - 7) else last_num mps len)"

definition set_at :: "usize \<Rightarrow> i32 list \<Rightarrow> bytes \<Rightarrow> nat \<Rightarrow> FragmentSet" where
  "set_at mps ids m k =
     (let part = set_part mps m (length ids) k; prev = set_prev ids k; nxt = set_next ids k in
      segment_set (ids ! k) (set_num mps prev nxt (length part)) prev nxt (first_len mps prev)
        (mps - 7) part)"

text \<open>Positive identifiers, no two consecutive ones equal: what the header constructor accepts.\<close>

definition ids_ok :: "i32 list \<Rightarrow> bool" where
  "ids_ok ids \<longleftrightarrow> list_all (\<lambda>i. 0 < sint i) ids \<and> successively (\<noteq>) ids"

lemma ids_okI: "list_all (\<lambda>i. 0 < sint i) ids \<Longrightarrow> distinct ids \<Longrightarrow> ids_ok ids"
  by (auto simp: ids_ok_def successively_conv_nth nth_eq_iff_index_eq)

lemma set_ids_ok_at:
  assumes "ids_ok ids" "k < length ids"
  shows "set_ids_ok (ids ! k) (set_prev ids k) (set_next ids k)"
proof -
  have pos: "0 < sint (ids ! j)" if "j < length ids" for j
    using assms(1) that by (simp add: ids_ok_def list_all_length)
  have adj: "ids ! j \<noteq> ids ! Suc j" if "Suc j < length ids" for j
    using assms(1) that by (simp add: ids_ok_def successively_conv_nth)
  have "k \<noteq> length ids - 1 \<Longrightarrow> Suc k < length ids" using assms(2) by linarith
  then show ?thesis using pos adj [of k] adj [of "k - 1"] assms(2)
    by (cases k) (auto simp: set_ids_ok_def set_prev_def set_next_def)
qed

lemma num_sets_1: "num_sets len mps = 1 \<longleftrightarrow> len \<le> 255 * (mps - 7)"
  by (simp add: num_sets_def Let_def)

lemma num_sets_arith:
  assumes "2 * e < len" "e = b + 3" "len - 2 * e \<le> Suc q * b" "q * b < len - 2 * e"
  shows "e + Suc q * b + 3 < len \<and> len \<le> e + Suc q * b + (e::nat)"
  using assms unfolding mult_Suc by linarith

lemma num_sets_multi:
  assumes "plaintext_ok mps" "2 \<le> num_sets len mps"
  defines "base \<equiv> edge_len mps + (num_sets len mps - 2) * inner_len mps"
  shows "base + 3 < len" "len \<le> base + edge_len mps"
proof -
  let ?u = "mps - 7"
  let ?b = "inner_len mps"
  have u: "3 \<le> ?u" using assms(1) by (auto simp: plaintext_ok_def)
  have b: "0 < ?b" "edge_len mps = ?b + 3" using u by auto
  have big: "255 * ?u < len" using assms(2) by (auto simp: num_sets_def Let_def split: if_splits)
  have "base + 3 < len \<and> len \<le> base + edge_len mps"
  proof (cases "len \<le> 2 * edge_len mps")
    case True
    then have "num_sets len mps = 2" using big by (simp add: num_sets_def Let_def)
    then show ?thesis using True big u unfolding base_def by auto
  next
    case False
    let ?r = "len - 2 * edge_len mps"
    have n: "num_sets len mps - 2 = ceil_div ?r ?b"
      using False big by (simp add: num_sets_def Let_def)
    have r: "0 < ?r" using False by simp
    have hi: "?r \<le> ceil_div ?r ?b * ?b" using b(1) by (rule ceil_div_upper)
    have lo: "(ceil_div ?r ?b - 1) * ?b < ?r" using b(1) r by (rule ceil_div_lower)
    have "0 < ceil_div ?r ?b" using b(1) r by (simp only: ceil_div_pos_iff)
    then obtain q where q: "ceil_div ?r ?b = Suc q" using gr0_implies_Suc by blast
    have "2 * edge_len mps < len" "q * ?b < ?r"
      using False lo unfolding q by (simp_all only: not_le diff_Suc_1)
    then show ?thesis unfolding base_def n q
      using b(2) hi unfolding q by (intro num_sets_arith)
  qed
  then show "base + 3 < len" "len \<le> base + edge_len mps" by auto
qed

lemma set_bnd_eq:
  assumes "plaintext_ok mps" "0 < k" "k < num_sets len mps"
  shows "set_bnd mps len k = edge_len mps + (k - 1) * inner_len mps"
proof -
  have n: "2 \<le> num_sets len mps" using assms(2,3) by linarith
  have "(k - 1) * inner_len mps \<le> (num_sets len mps - 2) * inner_len mps"
    using assms(2,3) by (intro mult_le_mono1) linarith
  then show ?thesis using num_sets_multi(1) [OF assms(1) n] assms(2) by (intro bnd_full) linarith+
qed

lemma step_diff: "e + Suc j * x - (e + j * x) = (x :: nat)"
  by simp

lemma length_set_part:
  assumes ok: "plaintext_ok mps" and ids: "length ids = num_sets (length m) mps" and k: "k < length ids"
  shows "set_next ids k \<noteq> None \<Longrightarrow>
      length (set_part mps m (length ids) k) = full_len mps (set_prev ids k)"
    and "set_next ids k = None \<Longrightarrow> set_prev ids k \<noteq> None \<Longrightarrow>
      length (set_part mps m (length ids) k) \<le> edge_len mps
      \<and> 3 < length (set_part mps m (length ids) k)"
    and "set_next ids k = None \<Longrightarrow> set_prev ids k = None \<Longrightarrow>
      set_part mps m (length ids) k = m \<and> length m \<le> 255 * (mps - 7)"
proof -
  assume "set_next ids k \<noteq> None"
  then have k': "k \<noteq> length ids - 1" by (auto simp: set_next_def)
  then have b: "set_bnd mps (length m) (k + 1) = edge_len mps + k * inner_len mps"
    using set_bnd_eq [OF ok, of "k + 1" "length m"] k ids by simp
  show "length (set_part mps m (length ids) k) = full_len mps (set_prev ids k)"
  proof (cases k)
    case 0
    then show ?thesis using b k' by (simp add: set_part_def length_seg full_len_def set_prev_def bnd_def)
  next
    case (Suc j)
    then have "set_bnd mps (length m) k = edge_len mps + j * inner_len mps"
      using set_bnd_eq [OF ok, of k "length m"] k ids by simp
    moreover have "length (set_part mps m (length ids) k) = set_bnd mps (length m) (k + 1) - set_bnd mps (length m) k"
      using k' by (simp add: set_part_def length_seg)
    moreover have "full_len mps (set_prev ids k) = inner_len mps"
      using Suc by (simp add: full_len_def set_prev_def)
    ultimately show ?thesis using b unfolding Suc by (simp only: step_diff)
  qed
next
  assume "set_next ids k = None" "set_prev ids k \<noteq> None"
  then have k': "k = length ids - 1" "0 < k" by (auto simp: set_next_def set_prev_def split: if_splits)
  then have n: "2 \<le> num_sets (length m) mps" using ids by simp
  have "set_bnd mps (length m) k = edge_len mps + (num_sets (length m) mps - 2) * inner_len mps"
    using set_bnd_eq [OF ok, of k "length m"] k k' ids by (simp add: numeral_2_eq_2)
  moreover have "length (set_part mps m (length ids) k) = length m - set_bnd mps (length m) k"
    using k' by (simp add: set_part_def)
  ultimately show "length (set_part mps m (length ids) k) \<le> edge_len mps
      \<and> 3 < length (set_part mps m (length ids) k)"
    using num_sets_multi [OF ok n] by linarith
next
  assume "set_next ids k = None" "set_prev ids k = None"
  then have "k = 0" "k = length ids - 1" by (auto simp: set_next_def set_prev_def split: if_splits)
  then have k': "k = 0" "length ids = 1" using k by linarith+
  then have "num_sets (length m) mps = 1" using ids by simp
  then show "set_part mps m (length ids) k = m \<and> length m \<le> 255 * (mps - 7)"
    using k' num_sets_1 by (simp add: set_part_def bnd_def)
qed

lemma prepare_fragment_set_at:
  assumes ok: "plaintext_ok mps" "ids_ok ids" and ids: "length ids = num_sets (length m) mps"
    and k: "k < length ids"
  shows "prepare_fragment_set (set_part mps m (length ids) k) (ids ! k) (set_prev ids k) (set_next ids k) mps
    = Some (set_at mps ids m k)"
proof -
  note sok = set_ids_ok_at [OF ok(2) k]
  note len = length_set_part [OF ok(1) ids k]
  show ?thesis
  proof (cases "set_next ids k")
    case (Some n)
    then show ?thesis
      using prepare_linked_next_eq [OF ok(1)] sok len(1)
      by (simp add: prepare_fragment_set_def set_at_def Let_def set_num_def)
  next
    case None
    show ?thesis
    proof (cases "set_prev ids k")
      case (Some p)
      then show ?thesis
        using prepare_linked_last_eq(2) [OF ok(1)] sok len(2) None
        by (simp add: prepare_fragment_set_def set_at_def Let_def set_num_def first_len_def full_len_def)
    next
      case None
      then show ?thesis
        using prepare_unlinked_eq [OF ok(1)] sok len(3) \<open>set_next ids k = None\<close>
        by (simp add: prepare_fragment_set_def set_at_def Let_def set_num_def first_len_def set_ids_ok_def)
    qed
  qed
qed

lemma fragment_set_loop_eq:
  assumes ok: "plaintext_ok mps" "ids_ok ids" "max_len_ok (length m)"
    and ids: "length ids = num_sets (length m) mps" "2 \<le> length ids"
  defines "hi \<equiv> \<lambda>i. if i = length ids - 1 then length m else set_bnd mps (length m) (i + 1)"
  shows "fragment_set_loop m ids mps (length ids) [i..<length ids] (set_bnd mps (length m) i) (hi i)
    = Some (map (set_at mps ids m) [i..<length ids])"
proof (induction "length ids - i" arbitrary: i)
  case 0
  then show ?case by simp
next
  case (Suc k)
  let ?b = "set_bnd mps (length m)"
  have i: "i < length ids" using Suc.hyps by simp
  then have ups: "[i..<length ids] = i # [Suc i..<length ids]" by (simp add: upt_rec)
  have hi_le: "hi i \<le> length m" "?b i \<le> hi i"
    using bnd_le bnd_mono [of _ _ "length m" "i + 1"] by (auto simp: hi_def)
  have sl: "slice m (?b i) (hi i) = Some (set_part mps m (length ids) i)"
    unfolding slice_Some [OF hi_le(2,1)] by (simp add: set_part_def seg_def hi_def)
  have idx: "index ids i = Some (ids ! i)"
    "(if i = 0 then Some None else map_option Some (index ids (i - 1))) = Some (set_prev ids i)"
    "(if i = length ids - 1 then Some None else map_option Some (index ids (i + 1))) = Some (set_next ids i)"
    using i by (auto simp: index_def set_prev_def set_next_def)
  let ?step = "if i = length ids - 2 then edge_len mps else inner_len mps"
  have "?step \<le> 255 * 2 ^ 32" using ok(1) by (auto simp: plaintext_ok_def)
  then have "hi i + ?step \<le> usize_max" using hi_le(1) ok(3) by simp
  then have add: "usize_add (hi i) ?step = Some (hi i + ?step)" by (simp only: usize_add_Some)
  have IH: "fragment_set_loop m ids mps (length ids) [Suc i..<length ids] (?b (Suc i)) (hi (Suc i))
    = Some (map (set_at mps ids m) [Suc i..<length ids])"
    using Suc.hyps by simp
  have tail: "fragment_set_loop m ids mps (length ids) [Suc i..<length ids] (hi i)
      (min (length m) (hi i + ?step)) = Some (map (set_at mps ids m) [Suc i..<length ids])"
  proof (cases "i = length ids - 1")
    case True
    then show ?thesis by simp
  next
    case False
    then have hb: "hi i = ?b (Suc i)" by (simp add: hi_def)
    have ub: "min (length m) (hi i + ?step) = hi (Suc i)"
    proof (cases "i = length ids - 2")
      case True
      have "?b (Suc i) = edge_len mps + (num_sets (length m) mps - 2) * inner_len mps"
        using set_bnd_eq [OF ok(1), of "Suc i" "length m"] ids True by simp
      moreover have "2 \<le> num_sets (length m) mps" using ids by simp
      ultimately have "length m \<le> hi i + edge_len mps"
        using num_sets_multi(2) [OF ok(1)] by (simp only: hb)
      then show ?thesis using True ids(2) by (simp add: hi_def Suc_diff_Suc numeral_2_eq_2)
    next
      case False
      then have "Suc i \<noteq> length ids - 1" using ids(2) \<open>i < length ids\<close> by linarith
      then have "hi (Suc i) = ?b (Suc (Suc i))" by (simp add: hi_def)
      then show ?thesis unfolding hb if_not_P [OF False] by (simp only: bnd_step)
    qed
    show ?thesis unfolding ub unfolding hb by (rule IH)
  qed
  have "(if i = length ids - 2 then max_one_way_linked_set_payload_length mps
      else two_way_linked_set_payload_length mps) = Some ?step"
    using set_payload_length_eqs [OF ok(1)] by simp
  then show ?case
    unfolding ups using sl idx add tail prepare_fragment_set_at [OF ok(1,2) ids(1) i] by simp
qed

lemma split_with_set_ids_eq:
  assumes ok: "plaintext_ok mps" "ids_ok ids" "max_len_ok (length m)"
    and ids: "length ids = num_sets (length m) mps"
  shows "split_with_set_ids ids m mps = Some (map (set_at mps ids m) [0..<length ids])"
proof (cases "length ids = 1")
  case True
  have "set_prev ids 0 = None" "set_next ids 0 = None" "set_part mps m (length ids) 0 = m"
    using True by (auto simp: set_prev_def set_next_def set_part_def bnd_def)
  moreover have "ids ! 0 = hd ids" using True by (cases ids) auto
  ultimately show ?thesis
    using prepare_fragment_set_at [OF ok(1,2) ids, of 0] True by (simp add: split_with_set_ids_def)
next
  case False
  have "num_sets (length m) mps \<noteq> 0" by (auto simp: num_sets_def Let_def)
  then have two: "2 \<le> length ids" using False ids by linarith
  then have "set_bnd mps (length m) 1 = edge_len mps"
    using set_bnd_eq [OF ok(1), of 1 "length m"] ids by simp
  then show ?thesis
    using fragment_set_loop_eq [OF ok ids two, of 0] False two set_payload_length_eqs [OF ok(1)]
    by (simp add: split_with_set_ids_def bnd_def)
qed

lemma concat_set_part:
  assumes "0 < n"
  shows "concat (map (set_part mps m n) [0..<n]) = m"
proof -
  obtain j where n: "n = Suc j" using assms gr0_implies_Suc by blast
  have segs: "map (set_part mps m n) [0..<j] = map (seg (edge_len mps) (inner_len mps) m) [1..<j + 1]"
    unfolding n by (simp add: set_part_def map_Suc_upt [symmetric] del: upt_Suc)
  show ?thesis
    unfolding n upt_Suc_append [OF le0] map_append concat_append
    by (simp only: segs [unfolded n] concat_seg) (simp add: set_part_def)
qed

lemma first_len_bnd_all:
  assumes ok: "plaintext_ok mps" and ids: "length ids = num_sets (length m) mps" and k: "k < length ids"
  defines "part \<equiv> set_part mps m (length ids) k"
  shows "bnd (first_len mps (set_prev ids k)) (mps - 7) (length part)
      (set_num mps (set_prev ids k) (set_next ids k) (length part)) = length part"
proof -
  let ?u = "mps - 7"
  let ?prev = "set_prev ids k"
  have u: "0 < ?u" using ok by (auto simp: plaintext_ok_def)
  obtain v where v: "mps = v + 10" using ok that [of "mps - 10"] by (auto simp: plaintext_ok_def)
  note len = length_set_part [OF ok ids k, folded part_def]
  show ?thesis
  proof (cases "set_next ids k")
    case (Some x)
    then show ?thesis using len(1) by (auto simp: bnd_def set_num_def full_len_def first_len_def v)
  next
    case None
    show ?thesis
    proof (cases ?prev)
      case (Some p)
      have "length part - (mps - 10) \<le> ceil_div (length part - (mps - 10)) ?u * ?u"
        using u by (rule ceil_div_upper)
      then have "length part \<le> mps - 10 + ceil_div (length part - (mps - 10)) ?u * ?u"
        by (simp only: le_diff_conv add.commute)
      then show ?thesis using None Some
        by (simp add: bnd_def set_num_def first_len_def last_num_def)
    next
      case None
      have "length part \<le> ceil_div (length part) ?u * ?u" using u by (rule ceil_div_upper)
      then show ?thesis using None \<open>set_next ids k = None\<close>
        by (simp add: set_num_def first_len_def bnd_same)
    qed
  qed
qed

lemma concat_payload_set_at:
  assumes "plaintext_ok mps" "length ids = num_sets (length m) mps" "k < length ids"
  shows "concat (map payload (set_at mps ids m k)) = set_part mps m (length ids) k"
  unfolding set_at_def Let_def by (rule concat_payload_segment_set [OF first_len_bnd_all [OF assms]])

lemma concat_map_concat:
  "concat (map f (concat (map g xs))) = concat (map (\<lambda>x. concat (map f (g x))) xs)"
  by (induction xs) auto

lemma split_lossless:
  assumes "plaintext_ok mps" "length ids = num_sets (length m) mps"
  shows "concat (map payload (concat (map (set_at mps ids m) [0..<length ids]))) = m"
proof -
  have "0 < length ids" using assms(2) by (simp add: num_sets_def Let_def)
  have "concat (map payload (concat (map (set_at mps ids m) [0..<length ids])))
      = concat (map (\<lambda>k. concat (map payload (set_at mps ids m k))) [0..<length ids])"
    by (rule concat_map_concat)
  also have "\<dots> = concat (map (set_part mps m (length ids)) [0..<length ids])"
    by (intro arg_cong [where f = concat] map_cong) (simp_all add: concat_payload_set_at [OF assms])
  finally show ?thesis using concat_set_part [OF \<open>0 < length ids\<close>] by simp
qed

section \<open>The links between the sets\<close>

definition linked_set :: "i32 list \<Rightarrow> nat \<Rightarrow> FragmentSet \<Rightarrow> bool" where
  "linked_set ids k fs \<longleftrightarrow>
     fs \<noteq> [] \<and> length fs \<le> 255 \<and> (set_next ids k \<noteq> None \<longrightarrow> length fs = 255)
   \<and> map header fs = map (\<lambda>i. header (mk_fragment (ids ! k) (length fs) (set_prev ids k) (set_next ids k) i []))
       [1..<length fs + 1]"

definition linked_sets :: "i32 list \<Rightarrow> FragmentSet list \<Rightarrow> bool" where
  "linked_sets ids sets \<longleftrightarrow>
     length sets = length ids \<and> list_all (\<lambda>k. linked_set ids k (sets ! k)) [0..<length ids]"

lemma linked_setsD:
  assumes "linked_sets ids sets" "k < length ids" "j < length (sets ! k)"
  shows "header (sets ! k ! j)
    = header (mk_fragment (ids ! k) (length (sets ! k)) (set_prev ids k) (set_next ids k) (j + 1) [])"
proof -
  have "map header (sets ! k) = map (\<lambda>i. header (mk_fragment (ids ! k) (length (sets ! k))
      (set_prev ids k) (set_next ids k) i [])) [1..<length (sets ! k) + 1]"
    using assms(1,2) by (simp add: linked_sets_def linked_set_def list_all_iff del: upt_Suc)
  from arg_cong [OF this, of "\<lambda>xs. xs ! j"] show ?thesis using assms(3) by (simp del: upt_Suc)
qed

lemma linked_sets_bounds:
  assumes "linked_sets ids sets" "k < length ids"
  shows "0 < length (sets ! k)" "length (sets ! k) \<le> 255"
    "set_next ids k \<noteq> None \<Longrightarrow> length (sets ! k) = 255"
  using assms by (auto simp: linked_sets_def linked_set_def list_all_iff)

lemma set_num_bounds:
  assumes ok: "plaintext_ok mps" and ids: "length ids = num_sets (length m) mps" and k: "k < length ids"
    and ne: "m \<noteq> []"
  defines "n \<equiv> set_num mps (set_prev ids k) (set_next ids k) (length (set_part mps m (length ids) k))"
  shows "0 < n" "n \<le> 255"
proof -
  note len = length_set_part [OF ok ids k]
  have u: "0 < mps - 7" using ok by (auto simp: plaintext_ok_def)
  obtain v where v: "mps = v + 10" using ok that [of "mps - 10"] by (auto simp: plaintext_ok_def)
  show "0 < n" using len(3) ne u
    by (auto simp: n_def set_num_def last_num_def ceil_div_pos_iff)
  have "last_num mps l \<le> 255" if "l \<le> edge_len mps" for l
    using that ceil_div_le_iff [OF u, of "l - (mps - 10)" 254] by (auto simp: last_num_def v)
  then show "n \<le> 255" using len u by (auto simp: n_def set_num_def ceil_div_le_iff)
qed

lemma length_set_at:
  "length (set_at mps ids m k)
    = set_num mps (set_prev ids k) (set_next ids k) (length (set_part mps m (length ids) k))"
  by (simp add: set_at_def Let_def)

lemma header_mk_fragment: "header (mk_fragment i num p n j data) = header (mk_fragment i num p n j [])"
  by (simp add: mk_fragment_def)

lemma split_linked_sets:
  assumes ok: "plaintext_ok mps" and ids: "length ids = num_sets (length m) mps" and ne: "m \<noteq> []"
  shows "linked_sets ids (map (set_at mps ids m) [0..<length ids])"
proof -
  have "linked_set ids k (set_at mps ids m k)" if k: "k < length ids" for k
  proof -
    note b = set_num_bounds [OF ok ids k ne, folded length_set_at]
    have "map header (set_at mps ids m k) = map (\<lambda>i. header (mk_fragment (ids ! k) (length (set_at mps ids m k))
        (set_prev ids k) (set_next ids k) i [])) [1..<length (set_at mps ids m k) + 1]"
      unfolding length_set_at unfolding set_at_def Let_def segment_set_def
      by (simp add: header_mk_fragment [of _ _ _ _ _ "seg _ _ _ _"] del: upt_Suc)
    moreover have "set_next ids k \<noteq> None \<longrightarrow> length (set_at mps ids m k) = 255"
      by (simp add: length_set_at set_num_def)
    ultimately show ?thesis using b by (simp add: linked_set_def del: upt_Suc)
  qed
  then show ?thesis by (simp add: linked_sets_def list_all_iff)
qed

section \<open>The sizes of the fragments\<close>

lemma mk_fragment_full:
  assumes "plaintext_ok mps" "seg_len_ok mps num prev nxt i (length data)" "1 \<le> i"
    and "i < num \<or> nxt \<noteq> None \<and> 1 < num \<and> i = num"
  shows "length (fragment_into_bytes (mk_fragment set_id num prev nxt i data)) = mps"
  using assms
  by (auto simp: fragment_into_bytes_def mk_fragment_def length_header_to_bytes seg_len_ok_def
      plaintext_ok_def split: if_splits)

lemma set_at_full:
  assumes ok: "plaintext_ok mps" and ids: "length ids = num_sets (length m) mps" and k: "k < length ids"
    and j: "j < length (set_at mps ids m k)"
    and nl: "k + 1 < length ids \<or> j + 1 < length (set_at mps ids m k)"
  shows "length (fragment_into_bytes (set_at mps ids m k ! j)) = mps"
proof -
  let ?part = "set_part mps m (length ids) k"
  let ?prev = "set_prev ids k"
  let ?nxt = "set_next ids k"
  let ?n = "set_num mps ?prev ?nxt (length ?part)"
  note len = length_set_part [OF ok ids k]
  have u: "0 < mps - 7" using ok by (auto simp: plaintext_ok_def)
  have jn: "1 \<le> j + 1" "j + 1 \<le> ?n" using j by (auto simp: length_set_at)
  have seg: "seg_len_ok mps ?n ?prev ?nxt (j + 1) (length (seg (first_len mps ?prev) (mps - 7) ?part (j + 1)))"
  proof (cases ?nxt)
    case (Some n)
    then show ?thesis using seg_len_ok_next [OF ok] len(1) jn by (simp add: set_num_def)
  next
    case None
    show ?thesis
    proof (cases ?prev)
      case (Some p)
      then show ?thesis using seg_len_ok_last [OF ok jn(1)] None jn(2)
        by (simp add: set_num_def first_len_def)
    next
      case None
      then show ?thesis using seg_len_ok_unlinked [OF u jn(1)] \<open>?nxt = None\<close> jn(2)
        by (simp add: set_num_def first_len_def)
    qed
  qed
  have at: "set_at mps ids m k ! j
      = mk_fragment (ids ! k) ?n ?prev ?nxt (j + 1) (seg (first_len mps ?prev) (mps - 7) ?part (j + 1))"
    using jn(2) by (simp add: set_at_def Let_def segment_set_def del: upt_Suc)
  have "j + 1 < ?n \<or> ?nxt \<noteq> None \<and> 1 < ?n \<and> j + 1 = ?n"
    using nl jn by (auto simp: length_set_at set_next_def set_num_def)
  then show ?thesis unfolding at by (rule mk_fragment_full [OF ok seg jn(1)])
qed

section \<open>The number of fragments\<close>

lemma ceil_div_split:
  assumes "r < (b::nat)"
  shows "ceil_div (q * b + r) b = (if r = 0 then q else q + 1)"
proof (cases "r = 0")
  case True
  have b: "0 < b" using assms by simp
  have "ceil_div (q * b) b \<le> q" using b by (simp add: ceil_div_le_iff)
  moreover have "\<not> ceil_div (q * b) b < q"
  proof
    assume "ceil_div (q * b) b < q"
    then have "ceil_div (q * b) b * b < q * b" using b by simp
    then show False using ceil_div_upper [OF b, of "q * b"] by linarith
  qed
  ultimately show ?thesis using True by simp
next
  case False
  then have b: "0 < b" and r: "0 < r" "r \<le> b" using assms by auto
  have "ceil_div (q * b + r) b \<le> q + 1" using b r by (simp add: ceil_div_le_iff)
  moreover have "q < ceil_div (q * b + r) b" using b r by (simp add: less_ceil_div_iff)
  ultimately show ?thesis using False by simp
qed

lemma ceil_div_divmod:
  assumes "0 < (b::nat)"
  shows "ceil_div a b = (if a mod b = 0 then a div b else a div b + 1)"
  using ceil_div_split [of "a mod b" b "a div b"] assms by simp

lemma ceil_div_spare:
  assumes "0 < (b::nat)"
  shows "ceil_div a b * b - a = (if a mod b = 0 then 0 else b - a mod b)"
proof -
  obtain q r where a: "a = q * b + r" "r < b"
    using that [of "a div b" "a mod b"] assms by simp
  then show ?thesis using ceil_div_split [of r b q] by simp
qed

definition final_set_len :: "usize \<Rightarrow> nat \<Rightarrow> nat" where
  "final_set_len mps len = len - (edge_len mps + (num_sets len mps - 2) * inner_len mps)"

text \<open>The number of fragments a message has, and the bytes left in the last one.\<close>

definition frag_count :: "usize \<Rightarrow> nat \<Rightarrow> nat" where
  "frag_count mps len =
     (if num_sets len mps = 1 then ceil_div len (mps - 7)
      else (num_sets len mps - 1) * 255 + last_num mps (final_set_len mps len))"

definition frag_spare :: "usize \<Rightarrow> nat \<Rightarrow> nat" where
  "frag_spare mps len =
     (if num_sets len mps = 1 then ceil_div len (mps - 7) * (mps - 7) - len
      else (mps - 10) + (last_num mps (final_set_len mps len) - 1) * (mps - 7) - final_set_len mps len)"

lemma nrf_single:
  assumes ok: "plaintext_ok mps" "max_len_ok len" "0 < len" and one: "num_sets len mps = 1"
  shows "number_of_required_fragments len mps = Some (frag_count mps len, frag_spare mps len)"
proof -
  define u where "u = mps - 7"
  have u: "0 < u" using ok(1) by (simp add: plaintext_ok_def u_def)
  have "len div u < 2 ^ 52" by (rule le_less_trans [OF _ ok(2)]) simp
  then have k: "usize_add (len div u) 1 = Some (len div u + 1)" by (intro usize_add_Some) simp
  have lens: "unlinked_fragment_payload_max_len mps = Some u"
    "linked_fragment_payload_max_len mps = Some (mps - 10)"
    using payload_max_len_eqs [OF ok(1)] by (simp_all only: u_def)
  have count: "frag_count mps len = ceil_div len u" "frag_spare mps len = ceil_div len u * u - len"
    using one by (simp_all add: frag_count_def frag_spare_def u_def)
  have "number_of_required_fragments len mps =
     (if len < u then Some (1, u - len) else if len mod u = 0 then Some (len div u, 0)
      else Some (len div u + 1, u - len mod u))"
    using k lens one u total_number_of_sets_eq [OF ok(1,2)]
    by (simp add: number_of_required_fragments_def Let_def)
  also have "\<dots> = Some (ceil_div len u, ceil_div len u * u - len)"
    unfolding ceil_div_spare [OF u] unfolding ceil_div_divmod [OF u] using ok(3) u
    by (cases "len < u") simp_all
  finally show ?thesis unfolding count .
qed

lemma linked_without_last_arith:
  assumes "3 \<le> u" "2 \<le> (n::nat)"
  shows "(2 * n - 3) * (u - 3) + ((n - 1) * 255 - (2 * n - 3)) * u
    = 255 * u - 3 + (n - 2) * (255 * u - 6)"
proof -
  obtain v where v: "u = v + 3" using assms(1) that [of "u - 3"] by simp
  obtain k where k: "n = k + 2" using assms(2) that [of "n - 2"] by simp
  have "2 * n - 3 = 2 * k + 1" "(n - 1) * 255 - (2 * n - 3) = 253 * k + 254"
    "255 * u - 3 = 255 * v + 762" "255 * u - 6 = 255 * v + 759"
    by (simp_all add: v k)
  then show ?thesis by (simp add: v k algebra_simps)
qed

lemma nrf_multi:
  assumes ok: "plaintext_ok mps" "max_len_ok len" and two: "2 \<le> num_sets len mps"
  shows "number_of_required_fragments len mps = Some (frag_count mps len, frag_spare mps len)"
proof -
  let ?u = "mps - 7"
  let ?n = "num_sets len mps"
  let ?f = "final_set_len mps len"
  let ?base = "edge_len mps + (?n - 2) * inner_len mps"
  have u: "3 \<le> ?u" "?u < 2 ^ 32" using ok(1) by (auto simp: plaintext_ok_def)
  note multi = num_sets_multi [OF ok(1) two]
  have "(?n - 2) * 759 \<le> (?n - 2) * inner_len mps" using u by (intro mult_le_mono2) simp
  then have n: "?n < 2 ^ 52" using multi(1) ok(2) by linarith
  have lw: "(2 * ?n - 3) * (mps - 10) + ((?n - 1) * 255 - (2 * ?n - 3)) * ?u = ?base"
    using linked_without_last_arith [OF u(1) two] by simp
  define a where "a = (2 * ?n - 3) * (mps - 10)"
  define b where "b = ((?n - 1) * 255 - (2 * ?n - 3)) * ?u"
  have base: "?base = a + b" unfolding a_def b_def by (rule lw [symmetric])
  have ab: "a + b + 3 < len" "?f = len - a - b"
    using multi(1) unfolding final_set_len_def base by simp_all
  have sizes: "usize_mul (?n - 1) 255 = Some ((?n - 1) * 255)" "usize_mul 2 ?n = Some (2 * ?n)"
    "usize_sub ?n 1 = Some (?n - 1)" "usize_sub (2 * ?n) 2 = Some (2 * ?n - 2)"
    "usize_sub (2 * ?n - 2) 1 = Some (2 * ?n - 3)"
    "usize_sub ((?n - 1) * 255) (2 * ?n - 3) = Some ((?n - 1) * 255 - (2 * ?n - 3))"
    using n two by (simp_all add: usize_mul_def usize_sub_def)
  have "a \<le> usize_max" "b \<le> usize_max" using ab ok(2) by simp_all
  then have lens: "usize_mul (2 * ?n - 3) (mps - 10) = Some a"
    "usize_mul ((?n - 1) * 255 - (2 * ?n - 3)) ?u = Some b"
    unfolding a_def b_def by (simp_all only: usize_mul_Some)
  have subs: "usize_sub len a = Some (len - a)" "usize_sub (len - a) b = Some ?f"
    using ab by (simp_all add: usize_sub_def)
  define u l r where "u = ?u" and "l = mps - 10" and "r = ?f - l"
  have upos: "0 < u" using \<open>3 \<le> ?u\<close> by (simp add: u_def)
  have "r div u \<le> r" by (rule div_le_dividend)
  moreover have "r \<le> len" using ab by (simp add: r_def)
  ultimately have q: "r div u < 2 ^ 52" using ok(2) by linarith
  have k: "usize_add ((?n - 1) * 255) 1 = Some ((?n - 1) * 255 + 1)"
    "usize_add ((?n - 1) * 255) (r div u) = Some ((?n - 1) * 255 + r div u)"
    "usize_add ((?n - 1) * 255 + r div u) 1 = Some ((?n - 1) * 255 + r div u + 1)"
    "usize_add ((?n - 1) * 255 + r div u) 2 = Some ((?n - 1) * 255 + r div u + 2)"
    using n q by (simp_all add: usize_add_def)
  have lens': "unlinked_fragment_payload_max_len mps = Some u" "linked_fragment_payload_max_len mps = Some l"
    "usize_mul (2 * ?n - 3) l = Some a" "usize_mul ((?n - 1) * 255 - (2 * ?n - 3)) u = Some b"
    using ok(1) lens by (simp_all only: u_def l_def payload_max_len_eqs)
  have count: "frag_count mps len = (?n - 1) * 255 + (1 + ceil_div r u)"
    "frag_spare mps len = l + ceil_div r u * u - ?f"
    using two by (simp_all add: frag_count_def frag_spare_def last_num_def u_def l_def r_def)
  have "number_of_required_fragments len mps =
     (if ?f < l then Some ((?n - 1) * 255 + 1, l - ?f) else if ?f = l then Some ((?n - 1) * 255 + 1, 0)
      else if r mod u = 0 then Some ((?n - 1) * 255 + r div u + 1, 0)
      else Some ((?n - 1) * 255 + r div u + 2, u - r mod u))"
    using two sizes lens' subs k upos total_number_of_sets_eq [OF ok]
    by (simp add: number_of_required_fragments_def Let_def flip: r_def)
  also have "\<dots> = Some (frag_count mps len, frag_spare mps len)"
  proof (cases "?f \<le> l")
    case True
    then show ?thesis unfolding count by (auto simp: r_def ceil_div_def upos)
  next
    case False
    then have "l + ceil_div r u * u - ?f = ceil_div r u * u - r" by (simp add: r_def)
    then show ?thesis unfolding count
      using False ceil_div_divmod [OF upos, of r] ceil_div_spare [OF upos, of r] by simp
  qed
  finally show ?thesis .
qed

lemma num_sets_pos: "0 < num_sets len mps"
  by (simp add: num_sets_def Let_def)

lemma number_of_required_fragments_eq:
  assumes "plaintext_ok mps" "max_len_ok len" "0 < len"
  shows "number_of_required_fragments len mps = Some (frag_count mps len, frag_spare mps len)"
proof (cases "num_sets len mps = 1")
  case True
  then show ?thesis using assms by (intro nrf_single)
next
  case False
  then have "2 \<le> num_sets len mps" using num_sets_pos [of len mps] by linarith
  then show ?thesis using assms by (intro nrf_multi)
qed

abbreviation split_sets :: "usize \<Rightarrow> i32 list \<Rightarrow> bytes \<Rightarrow> FragmentSet list" where
  "split_sets mps ids m \<equiv> map (set_at mps ids m) [0..<length ids]"

lemma split_sets_snoc:
  assumes "0 < length ids"
  shows "split_sets mps ids m
    = map (set_at mps ids m) [0..<length ids - 1] @ [set_at mps ids m (length ids - 1)]"
proof -
  have "[0..<length ids] = [0..<length ids - 1] @ [length ids - 1]"
    using assms by (cases "length ids") auto
  then show ?thesis by simp
qed

lemma last_set_part_len:
  assumes "plaintext_ok mps" "length ids = num_sets (length m) mps"
  shows "length (set_part mps m (length ids) (length ids - 1))
    = (if num_sets (length m) mps = 1 then length m else final_set_len mps (length m))"
  using assms set_bnd_eq [OF assms(1), of "length ids - 1" "length m"] num_sets_pos [of "length m" mps]
  by (auto simp: set_part_def bnd_def final_set_len_def numeral_2_eq_2)

lemma length_set_at_inner: "k + 1 < length ids \<Longrightarrow> length (set_at mps ids m k) = 255"
proof -
  assume "k + 1 < length ids"
  then have "k \<noteq> length ids - 1" by linarith
  then show ?thesis by (simp add: length_set_at set_num_def set_next_def)
qed

lemma length_set_at_last:
  assumes "plaintext_ok mps" "length ids = num_sets (length m) mps"
  shows "length (set_at mps ids m (length ids - 1))
    = (if num_sets (length m) mps = 1 then ceil_div (length m) (mps - 7)
       else last_num mps (final_set_len mps (length m)))"
proof -
  have "set_next ids (length ids - 1) = None" by (simp add: set_next_def)
  moreover have "set_prev ids (length ids - 1) = None \<longleftrightarrow> num_sets (length m) mps = 1"
    using assms(2) num_sets_pos [of "length m" mps] by (auto simp: set_prev_def)
  ultimately show ?thesis
    unfolding length_set_at last_set_part_len [OF assms] by (auto simp: set_num_def)
qed

lemma length_concat_split_sets:
  assumes "plaintext_ok mps" "length ids = num_sets (length m) mps"
  shows "length (concat (split_sets mps ids m)) = frag_count mps (length m)"
proof -
  have pos: "0 < length ids" using assms(2) num_sets_pos by simp
  have "map (length \<circ> set_at mps ids m) [0..<length ids - 1] = replicate (length ids - 1) 255"
    by (rule nth_equalityI) (simp_all add: length_set_at_inner)
  then have "sum_list (map (length \<circ> set_at mps ids m) [0..<length ids - 1]) = (length ids - 1) * 255"
    by (simp add: sum_list_replicate)
  then show ?thesis
    unfolding split_sets_snoc [OF pos]
    using length_set_at_last [OF assms] assms(2)
    by (simp add: length_concat frag_count_def)
qed

lemma last_set_at_size:
  assumes ok: "plaintext_ok mps" and ids: "length ids = num_sets (length m) mps" and ne: "m \<noteq> []"
  shows "length (fragment_into_bytes (last (set_at mps ids m (length ids - 1)))) + frag_spare mps (length m) = mps"
proof -
  define k where kdef: "k = length ids - 1"
  let ?part = "set_part mps m (length ids) k"
  let ?prev = "set_prev ids k"
  define num where numdef: "num = set_num mps ?prev (set_next ids k) (length ?part)"
  let ?c = "first_len mps ?prev"
  let ?u = "mps - 7"
  have u: "0 < ?u" "10 \<le> mps" using ok by (auto simp: plaintext_ok_def)
  have k: "k < length ids" using ids num_sets_pos [of "length m" mps] by (simp add: kdef)
  have nxt: "set_next ids k = None" by (simp add: set_next_def kdef)
  note num = set_num_bounds [OF ok ids k ne, folded numdef]
  note all = first_len_bnd_all [OF ok ids k, folded numdef]
  have "last (set_at mps ids m k) = mk_fragment (ids ! k) num ?prev None num (seg ?c ?u ?part num)"
    using num(1) by (simp add: set_at_def Let_def segment_set_def last_map nxt numdef del: upt_Suc)
  then have "length (fragment_into_bytes (last (set_at mps ids m k)))
      = (if num = 1 \<and> ?prev \<noteq> None then 10 else 7) + (length ?part - bnd ?c ?u (length ?part) (num - 1))"
    using all by (simp add: fragment_into_bytes_def mk_fragment_def length_header_to_bytes length_seg)
  also have "\<dots> + frag_spare mps (length m) = mps"
  proof (cases ?prev)
    case None
    then have one: "num_sets (length m) mps = 1"
      using ids k by (auto simp: set_prev_def kdef split: if_splits)
    then have part: "length ?part = length m" "num = ceil_div (length m) ?u"
      using last_set_part_len [OF ok ids, folded kdef] None nxt by (simp_all add: set_num_def numdef)
    have lo: "(num - 1) * ?u < length m" using ne u unfolding part by (intro ceil_div_lower) auto
    have hi: "length m \<le> num * ?u" using u unfolding part by (intro ceil_div_upper)
    have "num * ?u = (num - 1) * ?u + ?u" using num(1) by (cases num) auto
    moreover have "bnd ?c ?u (length m) (num - 1) = (num - 1) * ?u"
      using None lo by (simp add: first_len_def bnd_same)
    moreover have "frag_spare mps (length m) = num * ?u - length m"
      using one by (simp add: frag_spare_def part(2))
    moreover have "(if num = 1 \<and> ?prev \<noteq> None then 10 else 7) = (7::nat)" using None by simp
    ultimately show ?thesis unfolding part(1) using lo hi u(2) by linarith
  next
    case (Some p)
    then have two: "num_sets (length m) mps \<noteq> 1" using ids by (auto simp: set_prev_def kdef)
    let ?f = "final_set_len mps (length m)"
    define l q where "l = mps - 10" and "q = ceil_div (?f - l) ?u"
    have part: "length ?part = ?f" "num = 1 + q" "?c = l"
      using last_set_part_len [OF ok ids, folded kdef] Some nxt two
      by (simp_all add: numdef set_num_def last_num_def first_len_def l_def q_def)
    have spare: "frag_spare mps (length m) = l + q * ?u - ?f"
      using two by (simp add: frag_spare_def last_num_def l_def q_def)
    show ?thesis
    proof (cases q)
      case 0
      then have "?f \<le> l" using u(1) ceil_div_le_iff [of ?u "?f - l" 0] by (simp add: q_def)
      then show ?thesis using 0 Some u(2) by (simp add: part spare bnd_def) (simp add: l_def)
    next
      case (Suc j)
      then have "j < ceil_div (?f - l) ?u" by (simp add: q_def)
      then have lo: "j * ?u < ?f - l" using u(1) by (simp add: less_ceil_div_iff)
      then have "bnd ?c ?u ?f (num - 1) = l + j * ?u" using Suc part by (simp add: bnd_def)
      moreover have "?f - l \<le> q * ?u" unfolding q_def using u(1) by (rule ceil_div_upper)
      moreover have "q * ?u = j * ?u + ?u" using Suc by simp
      moreover have "(if num = 1 \<and> ?prev \<noteq> None then 10 else 7) = (7::nat)"
        using Suc part(2) by simp
      ultimately show ?thesis unfolding part(1) spare using lo u(2) by linarith
    qed
  qed
  finally show ?thesis unfolding kdef .
qed

lemma split_sizes:
  assumes ok: "plaintext_ok mps" and ids: "length ids = num_sets (length m) mps" and ne: "m \<noteq> []"
  shows "\<forall>f \<in> set (butlast (concat (split_sets mps ids m))). length (fragment_into_bytes f) = mps"
    and "length (fragment_into_bytes (last (concat (split_sets mps ids m)))) + frag_spare mps (length m) = mps"
    and "concat (split_sets mps ids m) \<noteq> []"
proof -
  define k where kdef: "k = length ids - 1"
  have pos: "0 < length ids" using ids num_sets_pos by simp
  then have k: "k < length ids" by (simp add: kdef)
  have x: "set_at mps ids m k \<noteq> []"
    using set_num_bounds(1) [OF ok ids k ne, folded length_set_at] by auto
  have all: "concat (split_sets mps ids m) = concat (map (set_at mps ids m) [0..<k]) @ set_at mps ids m k"
    unfolding split_sets_snoc [OF pos] by (simp add: kdef)
  have inner: "length (fragment_into_bytes f) = mps" if f: "f \<in> set (set_at mps ids m i)" and i: "i < k" for f i
  proof -
    have "i < length ids" "i + 1 < length ids" using i k by (auto simp: kdef)
    then show ?thesis using set_at_full [OF ok ids, of i] f by (auto simp: in_set_conv_nth)
  qed
  have outer: "length (fragment_into_bytes f) = mps" if f: "f \<in> set (butlast (set_at mps ids m k))" for f
  proof -
    from f obtain j where "j < length (butlast (set_at mps ids m k))" "f = butlast (set_at mps ids m k) ! j"
      by (auto simp: in_set_conv_nth)
    then have "j + 1 < length (set_at mps ids m k)" "f = set_at mps ids m k ! j"
      by (auto simp: nth_butlast)
    then show ?thesis using set_at_full [OF ok ids k, of j] by simp
  qed
  show "\<forall>f \<in> set (butlast (concat (split_sets mps ids m))). length (fragment_into_bytes f) = mps"
    unfolding all using x inner outer by (auto simp: butlast_append)
  show "length (fragment_into_bytes (last (concat (split_sets mps ids m)))) + frag_spare mps (length m) = mps"
    using last_set_at_size [OF ok ids ne] x unfolding all by (simp add: kdef)
  show "concat (split_sets mps ids m) \<noteq> []" unfolding all using x by simp
qed

lemma ceil_div_exact: "0 < b \<Longrightarrow> ceil_div (q * b) b = q"
  using ceil_div_split [of 0 b q] by simp

lemma num_sets_unique:
  assumes ok: "plaintext_ok mps" and n: "2 \<le> n"
    and lo: "edge_len mps + (n - 2) * inner_len mps + 3 < len"
    and hi: "len \<le> edge_len mps + (n - 2) * inner_len mps + edge_len mps"
  shows "num_sets len mps = n"
proof -
  define e b where "e = edge_len mps" and "b = inner_len mps"
  have eb: "e = b + 3" "0 < b" "e + 3 = 255 * (mps - 7)" using ok by (auto simp: e_def b_def plaintext_ok_def)
  have ns: "num_sets len mps =
      (if len \<le> e + 3 then 1 else if len \<le> 2 * e then 2 else ceil_div (len - 2 * e) b + 2)"
    unfolding num_sets_def Let_def eb(3) unfolding e_def b_def ..
  have big: "\<not> len \<le> e + 3" using lo by (simp add: e_def)
  show ?thesis
  proof (cases "n = 2")
    case True
    then show ?thesis using big hi unfolding ns by (simp add: e_def)
  next
    case False
    obtain j where j: "n = j + 3" using n False that [of "n - 3"] by fastforce
    have nj: "(n - 2) * b = j * b + b" by (simp add: j)
    have "2 * e + j * b < len" "len \<le> 2 * e + (j + 1) * b"
      using lo hi nj eb(1) unfolding e_def [symmetric] b_def [symmetric] by (simp_all add: algebra_simps)
    then have "\<not> len \<le> 2 * e" "ceil_div (len - 2 * e) b \<le> j + 1" "j < ceil_div (len - 2 * e) b"
      using eb(2) by (auto simp: ceil_div_le_iff less_ceil_div_iff)
    then show ?thesis using big unfolding ns by (simp add: j)
  qed
qed

lemma padded_counts:
  assumes ok: "plaintext_ok mps" and pos: "0 < len"
  defines "len' \<equiv> len + frag_spare mps len"
  shows "num_sets len' mps = num_sets len mps" "frag_count mps len' = frag_count mps len"
    "frag_spare mps len' = 0"
proof -
  define u where "u = mps - 7"
  have u: "0 < u" using ok by (auto simp: plaintext_ok_def u_def)
  have "num_sets len' mps = num_sets len mps \<and> frag_count mps len' = frag_count mps len \<and> frag_spare mps len' = 0"
  proof (cases "num_sets len mps = 1")
    case True
    have "len \<le> ceil_div len u * u" using u by (rule ceil_div_upper)
    then have len': "len' = ceil_div len u * u" using True by (simp add: len'_def frag_spare_def u_def)
    have "ceil_div len u \<le> 255" using True num_sets_1 [of len mps] u by (simp add: ceil_div_le_iff u_def)
    then have "len' \<le> 255 * u" unfolding len' by simp
    then have "num_sets len' mps = 1" using num_sets_1 [of len' mps] by (simp add: u_def)
    then show ?thesis using True ceil_div_exact [OF u]
      by (simp add: frag_count_def frag_spare_def len' flip: u_def)
  next
    case False
    then have two: "2 \<le> num_sets len mps" using num_sets_pos [of len mps] by linarith
    define base where "base = edge_len mps + (num_sets len mps - 2) * inner_len mps"
    define f l q where "f = final_set_len mps len" and "l = mps - 10" and "q = ceil_div (f - l) u"
    note multi = num_sets_multi [OF ok two, folded base_def]
    have f: "f = len - base" by (simp add: f_def final_set_len_def base_def)
    have "f - l \<le> q * u" unfolding q_def using u by (rule ceil_div_upper)
    moreover have "frag_spare mps len = l + q * u - f"
      using False by (simp add: frag_spare_def last_num_def f_def l_def q_def u_def)
    ultimately have len': "len' = base + (l + q * u)" using multi f unfolding len'_def by linarith
    have lu: "l + 254 * u = edge_len mps" using ok by (auto simp: l_def u_def plaintext_ok_def)
    have "f - l \<le> 254 * u" using lu multi(2) f by linarith
    then have "q \<le> 254" unfolding q_def by (simp only: ceil_div_le_iff [OF u])
    then have "q * u \<le> 254 * u" by (rule mult_le_mono1)
    then have "len' \<le> base + edge_len mps" unfolding len' using lu by linarith
    moreover have "base + 3 < len'" using multi(1) by (simp add: len'_def)
    ultimately have same: "num_sets len' mps = num_sets len mps"
      using num_sets_unique [OF ok two, folded base_def] by blast
    have "final_set_len mps len' = l + q * u"
      unfolding final_set_len_def same base_def [symmetric] unfolding len' by simp
    then show ?thesis using False same ceil_div_exact [OF u, of q]
      by (simp add: frag_count_def frag_spare_def last_num_def f_def [symmetric] l_def [symmetric]
          u_def [symmetric] q_def [symmetric])
  qed
  then show "num_sets len' mps = num_sets len mps" "frag_count mps len' = frag_count mps len"
    "frag_spare mps len' = 0" by auto
qed

section \<open>The identifiers\<close>

text \<open>The \<open>k\<close>-th draw, counted from 0, and the generator's state after it.\<close>

fun draw :: "('r \<Rightarrow> i32 \<times> 'r) \<Rightarrow> nat \<Rightarrow> 'r \<Rightarrow> i32 \<times> 'r" where
  "draw gen 0 rng = gen rng"
| "draw gen (Suc k) rng = draw gen k (snd (gen rng))"

definition draw_ok :: "i32 \<Rightarrow> bool" where
  "draw_ok x \<longleftrightarrow> x \<noteq> 0 \<and> x \<noteq> i32_MIN"

lemma i32_abs_pos:
  assumes "draw_ok x"
  shows "0 < sint (i32_abs x)"
proof (cases "sint x < 0")
  case True
  have "sint x \<noteq> - (2 ^ 31)"
  proof
    assume "sint x = - (2 ^ 31)"
    then have "word_of_int (sint x) = (word_of_int (- (2 ^ 31)) :: i32)" by simp
    then show False using assms by (simp add: draw_ok_def)
  qed
  moreover have "- (2 ^ 31) \<le> sint x" using sint_range_size [of x] by (simp add: word_size)
  ultimately have "sint (- x) = - sint x"
    using True by (simp add: sint_word_ariths signed_take_bit_int_eq_self)
  then show ?thesis using True by (simp add: i32_abs_def)
next
  case False
  have "sint x \<noteq> 0" using assms signed_eq_0_iff [of x] by (simp add: draw_ok_def)
  then show ?thesis using False by (simp add: i32_abs_def)
qed

lemma generate_set_id_positive:
  assumes "generate_set_id gen rng = Some y"
  shows "0 < sint (fst y)"
proof (rule generate_set_id.raw_induct [where P = "\<lambda>_ _ y. 0 < sint (fst y)", OF _ assms])
  fix f :: "('a \<Rightarrow> i32 \<times> 'a) \<Rightarrow> 'a \<Rightarrow> (i32 \<times> 'a) option" and gen rng y
  assume "\<And>gen rng y. f gen rng = Some y \<Longrightarrow> 0 < sint (fst y)"
    and "(case gen rng of (potential_id, rng') \<Rightarrow>
        if potential_id = 0 \<or> potential_id = i32_MIN then f gen rng'
        else Some (i32_abs potential_id, rng')) = Some y"
  then show "0 < sint (fst y)" by (auto simp: draw_ok_def i32_abs_pos split: prod.splits if_splits)
qed

lemma generate_set_id_draw:
  assumes "draw_ok (fst (draw gen k rng))"
  shows "\<exists>r. generate_set_id gen rng = Some r"
  using assms
proof (induction k arbitrary: rng)
  case 0
  then show ?case by (subst generate_set_id.simps) (auto simp: draw_ok_def split: prod.splits)
next
  case (Suc k)
  then show ?case by (subst generate_set_id.simps) (auto split: prod.splits)
qed

lemma generate_set_id_first_draw:
  assumes "generate_set_id gen rng = Some y"
  shows "\<exists>k. draw_ok (fst (draw gen k rng)) \<and> list_all (\<lambda>j. \<not> draw_ok (fst (draw gen j rng))) [0..<k]
    \<and> y = (i32_abs (fst (draw gen k rng)), snd (draw gen k rng))" (is "?first gen rng y")
proof (rule generate_set_id.raw_induct [where P = ?first, OF _ assms])
  fix f :: "('a \<Rightarrow> i32 \<times> 'a) \<Rightarrow> 'a \<Rightarrow> (i32 \<times> 'a) option" and gen rng y
  assume IH: "\<And>gen rng y. f gen rng = Some y \<Longrightarrow> ?first gen rng y"
    and y: "(case gen rng of (potential_id, rng') \<Rightarrow>
        if potential_id = 0 \<or> potential_id = i32_MIN then f gen rng'
        else Some (i32_abs potential_id, rng')) = Some y"
  show "?first gen rng y"
  proof (cases "draw_ok (fst (gen rng))")
    case True
    then show ?thesis using y
      by (intro exI [of _ 0]) (auto simp: draw_ok_def split: prod.splits)
  next
    case False
    then have "f gen (snd (gen rng)) = Some y" using y by (auto simp: draw_ok_def split: prod.splits)
    then obtain k where k: "draw_ok (fst (draw gen k (snd (gen rng))))"
        "list_all (\<lambda>j. \<not> draw_ok (fst (draw gen j (snd (gen rng))))) [0..<k]"
        "y = (i32_abs (fst (draw gen k (snd (gen rng)))), snd (draw gen k (snd (gen rng))))"
      using IH by blast
    have "\<not> draw_ok (fst (draw gen j rng))" if "j < Suc k" for j
      using that k(2) False by (cases j) (auto simp: list_all_iff)
    then show ?thesis using k(1,3) by (intro exI [of _ "Suc k"]) (simp add: list_all_iff)
  qed
qed

lemma generate_set_ids_ok:
  "generate_set_ids gen n rng = Some (ids, rng') \<Longrightarrow>
   length ids = n \<and> list_all (\<lambda>i. 0 < sint i) ids"
proof (induction n arbitrary: rng ids)
  case 0
  then show ?case by simp
next
  case (Suc n)
  then show ?case
    by (auto simp: bind_eq_Some_conv split: prod.splits dest!: generate_set_id_positive)
qed

lemma linked_sets_wire_ok:
  assumes "linked_sets ids sets" "ids_ok ids" "f \<in> set (concat sets)"
  shows "wire_ok (header f)"
proof -
  from assms(1,3) obtain k j where k: "k < length ids" "j < length (sets ! k)" "f = sets ! k ! j"
    by (auto simp: linked_sets_def in_set_conv_nth)
  show ?thesis
    unfolding k(3) linked_setsD [OF assms(1) k(1,2)]
    using linked_sets_bounds [OF assms(1) k(1)] k(2) set_ids_ok_at [OF assms(2) k(1)]
    by (intro mk_fragment_wire_ok) auto
qed

section \<open>Properties\<close>

text \<open>
  C2. Splitting a non-empty message never panics once the identifiers are drawn, provided no
  two consecutive ones are equal. The sets it returns carry exactly the message, in order.
  Their headers number the fragments of each set from 1 and link each set to its neighbours,
  all of them can be sent, and no fragment is longer than the plaintext of one packet.
\<close>

theorem split_into_sets_correct:
  assumes "plaintext_ok mps" "max_len_ok (length m)" "m \<noteq> []"
    and "total_number_of_sets (length m) mps = Some n"
    and "generate_set_ids gen n rng = Some (ids, rng')" "successively (\<noteq>) ids"
  shows "\<exists>sets. split_into_sets gen rng m mps = Some (sets, rng')
     \<and> linked_sets ids sets
     \<and> concat (map payload (concat sets)) = m
     \<and> (\<forall>f \<in> set (concat sets). wire_ok (header f) \<and> length (fragment_into_bytes f) \<le> mps)"
proof -
  have ids: "length ids = num_sets (length m) mps" and ok: "ids_ok ids"
    using assms(4,6) generate_set_ids_ok [OF assms(5)] total_number_of_sets_eq [OF assms(1,2)]
    by (auto simp: ids_ok_def)
  let ?sets = "split_sets mps ids m"
  have split: "split_into_sets gen rng m mps = Some (?sets, rng')"
    using assms(4,5) split_with_set_ids_eq [OF assms(1) ok assms(2) ids] by (simp add: split_into_sets_def)
  note linked = split_linked_sets [OF assms(1) ids assms(3)]
  note sizes = split_sizes [OF assms(1) ids assms(3)]
  have fits: "length (fragment_into_bytes f) \<le> mps" if "f \<in> set (concat ?sets)" for f
    using in_butlast_or_last [OF that] sizes(1,2) by auto
  show ?thesis
    using split linked split_lossless [OF assms(1) ids] linked_sets_wire_ok [OF linked ok] fits
    by (intro exI [of _ ?sets] conjI ballI)
qed

theorem split_into_sets_correct_witness:
  "\<exists>sets. split_into_sets (\<lambda>r. (r, r + 1)) 1 (replicate 800 7) 10 = Some (sets, 3)
     \<and> linked_sets [1, 2] sets
     \<and> concat (map payload (concat sets)) = replicate 800 7
     \<and> (\<forall>f \<in> set (concat sets). wire_ok (header f) \<and> length (fragment_into_bytes f) \<le> 10)"
proof -
  have "generate_set_id (\<lambda>r. (r, r + 1)) 1 = Some (1 :: i32, 2)"
      "generate_set_id (\<lambda>r. (r, r + 1)) 2 = Some (2 :: i32, 3)"
    by (subst generate_set_id.simps, simp add: i32_abs_def)+
  then have "generate_set_ids (\<lambda>r. (r, r + 1)) 2 (1 :: i32) = Some ([1, 2], 3)"
    by (simp only: numeral_2_eq_2 generate_set_ids.simps) simp
  moreover have "total_number_of_sets 800 10 = Some 2"
    by (simp add: total_number_of_sets_eq plaintext_ok_def num_sets_def Let_def)
  ultimately show ?thesis
    using split_into_sets_correct [of 10 "replicate 800 7" 2 "\<lambda>r. (r, r + 1)" 1 "[1, 2]" 3]
    by (simp add: plaintext_ok_def)
qed

text \<open>
  C15. \<open>number_of_required_fragments\<close> predicts the split of a non-empty message exactly (for the empty
  one it predicts a fragment although there is none): the first component is the
  number of fragments of the message, every fragment but the last one fills its packet, and the
  second component is the number of bytes the last one leaves free.
\<close>

theorem number_of_required_fragments_exact:
  assumes "plaintext_ok mps" "max_len_ok (length m)" "m \<noteq> []" "ids_ok ids"
    and "total_number_of_sets (length m) mps = Some (length ids)"
  shows "\<exists>sets left. split_with_set_ids ids m mps = Some sets
     \<and> number_of_required_fragments (length m) mps = Some (length (concat sets), left)
     \<and> (\<forall>f \<in> set (butlast (concat sets)). length (fragment_into_bytes f) = mps)
     \<and> length (fragment_into_bytes (last (concat sets))) + left = mps"
proof -
  have ids: "length ids = num_sets (length m) mps"
    using assms(5) total_number_of_sets_eq [OF assms(1,2)] by simp
  show ?thesis
    using split_with_set_ids_eq [OF assms(1,4,2) ids] split_sizes [OF assms(1) ids assms(3)]
      number_of_required_fragments_eq [OF assms(1,2)] length_concat_split_sets [OF assms(1) ids] assms(3)
    by auto
qed

theorem number_of_required_fragments_exact_witness:
  "\<exists>sets left. split_with_set_ids [1, 2] (replicate 800 7) 10 = Some sets
     \<and> number_of_required_fragments 800 10 = Some (length (concat sets), left)
     \<and> (\<forall>f \<in> set (butlast (concat sets)). length (fragment_into_bytes f) = 10)
     \<and> length (fragment_into_bytes (last (concat sets))) + left = 10"
proof -
  have "total_number_of_sets 800 10 = Some (length [1, 2 :: i32])"
    by (simp add: total_number_of_sets_eq plaintext_ok_def num_sets_def Let_def)
  then show ?thesis
    using number_of_required_fragments_exact [of 10 "replicate 800 7" "[1, 2]"]
    by (simp add: plaintext_ok_def ids_ok_def)
qed

text \<open>
  C30. Padding by the number of free bytes leaves the number of fragments unchanged and no byte
  free: the length \<open>pad_to_full_packet_lengths\<close> aims at.
\<close>

theorem padding_fills_last_fragment:
  assumes "plaintext_ok mps" "0 < len" "number_of_required_fragments len mps = Some (n, left)"
    and "max_len_ok (len + left)"
  shows "number_of_required_fragments (len + left) mps = Some (n, 0)"
proof -
  have len: "max_len_ok len" using assms(4) by linarith
  have "n = frag_count mps len" "left = frag_spare mps len"
    using assms(3) number_of_required_fragments_eq [OF assms(1) len assms(2)] by auto
  then show ?thesis
    using number_of_required_fragments_eq [OF assms(1,4)] padded_counts(2,3) [OF assms(1,2)] assms(2) by simp
qed

theorem padding_fills_last_fragment_witness:
  "number_of_required_fragments (799 + 2) 10 = Some (269, 0)"
proof -
  have n: "num_sets 799 10 = 2" by (simp add: num_sets_def Let_def)
  then have "frag_count 10 799 = 269" "frag_spare 10 799 = 2"
    by (simp_all add: frag_count_def frag_spare_def last_num_def final_set_len_def ceil_div_def)
  then have "number_of_required_fragments 799 10 = Some (269, 2)"
    by (simp add: number_of_required_fragments_eq plaintext_ok_def)
  then show ?thesis by (intro padding_fills_last_fragment) (simp_all add: plaintext_ok_def)
qed

text \<open>
  C31. \<open>generate_set_id\<close> returns the absolute value of the first acceptable draw, which is a
  positive \<open>i32\<close>, and it fails to return exactly when no draw is acceptable.
\<close>

theorem generate_set_id_first_acceptable:
  "case generate_set_id gen rng of
     None \<Rightarrow> (\<forall>k. \<not> draw_ok (fst (draw gen k rng)))
   | Some (set_id, rng') \<Rightarrow>
       0 < sint set_id
     \<and> (\<exists>k. draw_ok (fst (draw gen k rng)) \<and> list_all (\<lambda>j. \<not> draw_ok (fst (draw gen j rng))) [0..<k]
         \<and> set_id = i32_abs (fst (draw gen k rng)) \<and> rng' = snd (draw gen k rng))"
proof (cases "generate_set_id gen rng")
  case None
  then show ?thesis using generate_set_id_draw [of gen _ rng] by fastforce
next
  case (Some y)
  then show ?thesis
    using generate_set_id_first_draw [OF Some] generate_set_id_positive [OF Some] by (cases y) auto
qed

end
