(* ===== verification/Reconstruction.thy ===== *)
theory Reconstruction
  imports Splitting
begin

text \<open>
  \<open>common/nymsphinx/chunking/src/reconstruction.rs\<close>: the per-set buffers, the checks along
  the links between sets, and the reconstruction of a message from its fragments.

  The \<open>HashMap\<close> of buffers is a map. \<^const>\<open>None\<close> as the result of an operation is a panic
  (an index out of range, an \<open>unwrap\<close> of an absent value) or a recursion that never returns,
  which the code does not exclude when the links form a cycle.
\<close>

section \<open>The buffer of one set\<close>

record ReconstructionBuffer =
  rb_is_complete :: bool
  rb_previous_fragments_set_id :: "i32 option"
  rb_next_fragments_set_id :: "i32 option"
  rb_fragments :: "Fragment option list"

type_synonym ReconstructedMessage = "bytes \<times> i32 list"

definition buffer_new :: "byte \<Rightarrow> ReconstructionBuffer" where
  "buffer_new set_size =
     \<lparr>rb_is_complete = False, rb_previous_fragments_set_id = None, rb_next_fragments_set_id = None,
      rb_fragments = replicate (unat set_size) None\<rparr>"

definition reconstruct_set_data :: "ReconstructionBuffer \<Rightarrow> bytes option" where
  "reconstruct_set_data self =
     map_option (\<lambda>frags. concat (map extract_payload frags)) (those (rb_fragments self))"

definition is_done_receiving :: "ReconstructionBuffer \<Rightarrow> bool" where
  "is_done_receiving self \<longleftrightarrow> None \<notin> set (rb_fragments self)"

definition insert_fragment :: "ReconstructionBuffer \<Rightarrow> Fragment \<Rightarrow> ReconstructionBuffer option" where
  "insert_fragment self fragment =
     do {
       fragment_index \<leftarrow> usize_sub (unat (current_fragment fragment)) 1;
       _ \<leftarrow> index (rb_fragments self) fragment_index;
       let self = self\<lparr>rb_fragments := (rb_fragments self)[fragment_index := Some fragment]\<rparr>;
       if is_done_receiving self then
         do {
           first \<leftarrow> index (rb_fragments self) 0;
           prev \<leftarrow> map_option previous_fragments_set_id first;
           nxt \<leftarrow>
             (if length (rb_fragments self) = 255 then
                do {
                  final \<leftarrow> index (rb_fragments self) (255 - 1);
                  map_option next_fragments_set_id final
                }
              else Some None);
           Some (self\<lparr>rb_is_complete := True, rb_previous_fragments_set_id := prev,
                      rb_next_fragments_set_id := nxt\<rparr>)
         }
       else Some self
     }"

section \<open>The reconstructor\<close>

record MessageReconstructor =
  reconstructed_sets :: "i32 \<rightharpoonup> ReconstructionBuffer"

definition reconstructor_new :: MessageReconstructor where
  "reconstructor_new = \<lparr>reconstructed_sets = Map.empty\<rparr>"

definition is_set_fully_received :: "MessageReconstructor \<Rightarrow> i32 \<Rightarrow> bool" where
  "is_set_fully_received self set_id =
     (case reconstructed_sets self set_id of
        Some set_buf \<Rightarrow> rb_is_complete set_buf
      | None \<Rightarrow> False)"

definition previous_linked_set_id :: "MessageReconstructor \<Rightarrow> i32 \<Rightarrow> i32 option option" where
  "previous_linked_set_id self set_id =
     map_option rb_previous_fragments_set_id (reconstructed_sets self set_id)"

definition next_linked_set_id :: "MessageReconstructor \<Rightarrow> i32 \<Rightarrow> i32 option option" where
  "next_linked_set_id self set_id =
     map_option rb_next_fragments_set_id (reconstructed_sets self set_id)"

partial_function (option) check_front_chain :: "MessageReconstructor \<Rightarrow> i32 \<Rightarrow> bool option" where
  "check_front_chain self set_id =
     do {
       prev \<leftarrow> previous_linked_set_id self set_id;
       case prev of
         Some previous_id \<Rightarrow>
           if is_set_fully_received self previous_id then check_front_chain self previous_id
           else Some False
       | None \<Rightarrow> Some True
     }"

partial_function (option) check_back_chain :: "MessageReconstructor \<Rightarrow> i32 \<Rightarrow> bool option" where
  "check_back_chain self set_id =
     do {
       nxt \<leftarrow> next_linked_set_id self set_id;
       case nxt of
         Some next_id \<Rightarrow>
           if is_set_fully_received self next_id then check_back_chain self next_id
           else Some False
       | None \<Rightarrow> Some True
     }"

definition is_message_fully_received :: "MessageReconstructor \<Rightarrow> i32 \<Rightarrow> bool option" where
  "is_message_fully_received self set_id =
     (if is_set_fully_received self set_id then
        do {
          back \<leftarrow> check_back_chain self set_id;
          if back then check_front_chain self set_id else Some False
        }
      else Some False)"

partial_function (option) find_starting_set_id :: "MessageReconstructor \<Rightarrow> i32 \<Rightarrow> i32 option option" where
  "find_starting_set_id self set_id =
     (if is_set_fully_received self set_id then
        do {
          prev \<leftarrow> previous_linked_set_id self set_id;
          case prev of
            Some previous_id \<Rightarrow> find_starting_set_id self previous_id
          | None \<Rightarrow> Some (Some set_id)
        }
      else Some None)"

definition extract_set_payload :: "MessageReconstructor \<Rightarrow> i32 \<Rightarrow> (bytes \<times> MessageReconstructor) option" where
  "extract_set_payload self set_id =
     do {
       buf \<leftarrow> reconstructed_sets self set_id;
       data \<leftarrow> reconstruct_set_data buf;
       Some (data, self\<lparr>reconstructed_sets := (reconstructed_sets self)(set_id := None)\<rparr>)
     }"

text \<open>\<open>std::iter::successors(Some(starting_id), next_linked_set_id).collect()\<close>\<close>

partial_function (option) set_id_successors :: "MessageReconstructor \<Rightarrow> i32 \<Rightarrow> i32 list option" where
  "set_id_successors self set_id =
     do {
       nxt \<leftarrow> next_linked_set_id self set_id;
       rest \<leftarrow> (case nxt of Some next_id \<Rightarrow> set_id_successors self next_id | None \<Rightarrow> Some []);
       Some (set_id # rest)
     }"

fun extract_payloads :: "MessageReconstructor \<Rightarrow> i32 list \<Rightarrow> (bytes \<times> MessageReconstructor) option" where
  "extract_payloads self [] = Some ([], self)"
| "extract_payloads self (set_id # set_ids) =
     do {
       (data, self') \<leftarrow> extract_set_payload self set_id;
       (rest, self'') \<leftarrow> extract_payloads self' set_ids;
       Some (data @ rest, self'')
     }"

definition reconstruct_message ::
    "MessageReconstructor \<Rightarrow> i32 \<Rightarrow> (ReconstructedMessage \<times> MessageReconstructor) option" where
  "reconstruct_message self set_id =
     do {
       start \<leftarrow> find_starting_set_id self set_id;
       starting_id \<leftarrow> start;
       set_id_sequence \<leftarrow> set_id_successors self starting_id;
       (message_content, self') \<leftarrow> extract_payloads self set_id_sequence;
       Some ((message_content, set_id_sequence), self')
     }"

definition insert_new_fragment ::
    "MessageReconstructor \<Rightarrow> Fragment \<Rightarrow> (ReconstructedMessage option \<times> MessageReconstructor) option" where
  "insert_new_fragment self fragment =
     do {
       let set_id = frag_id fragment;
       let set_len = total_fragments fragment;
       let buf = (case reconstructed_sets self set_id of Some b \<Rightarrow> b | None \<Rightarrow> buffer_new set_len);
       buf' \<leftarrow> insert_fragment buf fragment;
       let self' = self\<lparr>reconstructed_sets := (reconstructed_sets self)(set_id \<mapsto> buf')\<rparr>;
       received \<leftarrow> is_message_fully_received self' set_id;
       if received then
         do {
           (msg, self'') \<leftarrow> reconstruct_message self' set_id;
           Some (Some msg, self'')
         }
       else Some (None, self')
     }"

definition recover_fragment :: "MessageReconstructor \<Rightarrow> bytes \<Rightarrow> ChunkingError + Fragment" where
  "recover_fragment self fragment_data = fragment_try_from_bytes fragment_data"

text \<open>A sequence of insertions, with the results in order.\<close>

fun insert_fragments ::
    "MessageReconstructor \<Rightarrow> Fragment list \<Rightarrow> (ReconstructedMessage option list \<times> MessageReconstructor) option" where
  "insert_fragments self [] = Some ([], self)"
| "insert_fragments self (f # fs) =
     do {
       (r, self') \<leftarrow> insert_new_fragment self f;
       (rs, self'') \<leftarrow> insert_fragments self' fs;
       Some (r # rs, self'')
     }"

section \<open>The buffer of a set whose fragments arrive\<close>

lemma linked_sets_fields:
  assumes "linked_sets ids sets" "k < length ids" "j < length (sets ! k)"
  shows "frag_id (sets ! k ! j) = ids ! k"
    and "total_fragments (sets ! k ! j) = of_nat (length (sets ! k))"
    and "unat (current_fragment (sets ! k ! j)) = j + 1"
    and "j = 0 \<Longrightarrow> previous_fragments_set_id (sets ! k ! j) = set_prev ids k"
    and "j + 1 = length (sets ! k) \<Longrightarrow> next_fragments_set_id (sets ! k ! j) = set_next ids k"
proof -
  have "j + 1 < 2 ^ LENGTH(8)" using linked_sets_bounds(2) [OF assms(1,2)] assms(3) by simp
  then have cur: "unat (of_nat (j + 1) :: byte) = j + 1" by (simp only: unat_of_nat mod_less)
  note h = linked_setsD [OF assms]
  show "frag_id (sets ! k ! j) = ids ! k"
    "total_fragments (sets ! k ! j) = of_nat (length (sets ! k))"
    "j = 0 \<Longrightarrow> previous_fragments_set_id (sets ! k ! j) = set_prev ids k"
    "j + 1 = length (sets ! k) \<Longrightarrow> next_fragments_set_id (sets ! k ! j) = set_next ids k"
    unfolding frag_accessor_defs h by (simp_all add: mk_fragment_def)
  show "unat (current_fragment (sets ! k ! j)) = j + 1"
    unfolding frag_accessor_defs h mk_fragment_def
    by (simp only: Fragment.select_convs FragmentHeader.select_convs cur)
qed

lemma linked_sets_distinct:
  assumes "linked_sets ids sets" "k < length ids"
  shows "distinct (sets ! k)"
proof -
  have "i = j" if "i < length (sets ! k)" "j < length (sets ! k)" "sets ! k ! i = sets ! k ! j" for i j
    using linked_sets_fields(3) [OF assms that(1), unfolded that(3)]
      linked_sets_fields(3) [OF assms that(2)] by linarith
  then show ?thesis by (auto simp: distinct_conv_nth)
qed

text \<open>The buffer after the fragments in \<open>F\<close> have been inserted.\<close>

definition rbuf :: "i32 list \<Rightarrow> nat \<Rightarrow> FragmentSet \<Rightarrow> Fragment set \<Rightarrow> ReconstructionBuffer" where
  "rbuf ids k fs F =
     \<lparr>rb_is_complete = (set fs \<subseteq> F),
      rb_previous_fragments_set_id = (if set fs \<subseteq> F then set_prev ids k else None),
      rb_next_fragments_set_id = (if set fs \<subseteq> F then set_next ids k else None),
      rb_fragments = map (\<lambda>f. if f \<in> F then Some f else None) fs\<rparr>"

lemma buffer_new_rbuf:
  assumes "set fs \<inter> F = {}" "fs \<noteq> []" "length fs \<le> 255"
  shows "buffer_new (of_nat (length fs)) = rbuf ids k fs F"
proof -
  have "map (\<lambda>f. if f \<in> F then Some f else None) fs = replicate (length fs) None"
    using assms(1) by (intro nth_equalityI) (auto simp: disjoint_iff)
  moreover have "\<not> set fs \<subseteq> F" using assms(1,2) by (auto simp: disjoint_iff neq_Nil_conv)
  ultimately show ?thesis using assms(3) by (simp add: buffer_new_def rbuf_def unat_of_nat)
qed

lemma map_received_update:
  assumes "distinct fs" "j < length fs"
  shows "(map (\<lambda>f. if f \<in> F then Some f else None) fs)[j := Some (fs ! j)]
    = map (\<lambda>f. if f \<in> insert (fs ! j) F then Some f else None) fs"
  using assms by (intro nth_equalityI) (auto simp: nth_list_update nth_eq_iff_index_eq)

lemma insert_fragment_rbuf:
  assumes ls: "linked_sets ids sets" "k < length ids" and f: "f \<in> set (sets ! k)"
  shows "insert_fragment (rbuf ids k (sets ! k) F) f = Some (rbuf ids k (sets ! k) (insert f F))"
proof -
  define fs where "fs = sets ! k"
  define b where "b = rbuf ids k fs F"
  define new where "new = map (\<lambda>g. if g \<in> insert f F then Some g else None) fs"
  from f obtain j where j: "j < length fs" "f = fs ! j" by (auto simp: in_set_conv_nth fs_def)
  note flds = linked_sets_fields [OF ls, folded fs_def]
  note bounds = linked_sets_bounds [OF ls, folded fs_def]
  have upd: "(rb_fragments b)[j := Some f] = new"
    unfolding j(2) new_def b_def using map_received_update [OF linked_sets_distinct [OF ls, folded fs_def] j(1)]
    by (simp add: rbuf_def)
  have rcvd: "is_done_receiving (b\<lparr>rb_fragments := new\<rparr>) \<longleftrightarrow> set fs \<subseteq> insert f F"
    by (auto simp: is_done_receiving_def new_def)
  have idx: "usize_sub (unat (current_fragment f)) 1 = Some j"
    using flds(3) [OF j(1)] j(2) by (simp add: usize_sub_def)
  have len: "length (rb_fragments b) = length fs" "length new = length fs" by (simp_all add: b_def rbuf_def new_def)
  have nxt: "length fs \<noteq> 255 \<Longrightarrow> set_next ids k = None" using bounds(3) by blast
  show ?thesis unfolding fs_def [symmetric] b_def [symmetric]
  proof (cases "set fs \<subseteq> insert f F")
    case True
    have all: "new ! i = Some (fs ! i)" if "i < length fs" for i
      using True that by (auto simp: subset_iff new_def)
    have first: "fs \<noteq> []" "new ! 0 = Some (fs ! 0)" "previous_fragments_set_id (fs ! 0) = set_prev ids k"
      using all [of 0] flds(4) [of 0] bounds(1) by auto
    have final: "length fs = 255 \<Longrightarrow> new ! 254 = Some (fs ! 254)"
      "length fs = 255 \<Longrightarrow> next_fragments_set_id (fs ! 254) = set_next ids k"
      using all [of 254] flds(5) [of 254] by simp_all
    have "insert_fragment b f = Some (b\<lparr>rb_fragments := new, rb_is_complete := True,
        rb_previous_fragments_set_id := set_prev ids k, rb_next_fragments_set_id := set_next ids k\<rparr>)"
      using idx upd rcvd True len j(1) first final nxt
      by (cases "length fs = 255") (simp_all add: insert_fragment_def index_def Let_def)
    also have "\<dots> = Some (rbuf ids k fs (insert f F))"
      using True by (simp add: b_def rbuf_def new_def)
    finally show "insert_fragment b f = Some (rbuf ids k fs (insert f F))" .
  next
    case False
    then have "\<not> set fs \<subseteq> F" by auto
    have "insert_fragment b f = Some (b\<lparr>rb_fragments := new\<rparr>)"
      using idx upd rcvd False len j(1) by (simp add: insert_fragment_def index_def Let_def)
    also have "\<dots> = Some (rbuf ids k fs (insert f F))"
      using False \<open>\<not> set fs \<subseteq> F\<close> by (simp add: b_def rbuf_def new_def)
    finally show "insert_fragment b f = Some (rbuf ids k fs (insert f F))" .
  qed
qed

section \<open>A reconstructor that has received part of a message\<close>

text \<open>
  \<open>R\<close> is \<open>R0\<close> after the fragments in \<open>F\<close> of the message with the sets \<open>sets\<close> have been
  inserted: a set has a buffer as soon as one of its fragments has arrived.
\<close>

definition received ::
    "MessageReconstructor \<Rightarrow> i32 list \<Rightarrow> FragmentSet list \<Rightarrow> Fragment set \<Rightarrow> MessageReconstructor \<Rightarrow> bool" where
  "received R0 ids sets F R \<longleftrightarrow>
     (\<forall>i. i \<notin> set ids \<longrightarrow> reconstructed_sets R i = reconstructed_sets R0 i)
   \<and> (\<forall>k < length ids. reconstructed_sets R (ids ! k)
        = (if set (sets ! k) \<inter> F = {} then None else Some (rbuf ids k (sets ! k) F)))"

lemma received_full:
  assumes ls: "linked_sets ids sets" and rcv: "received R0 ids sets F R" and k: "k < length ids"
  shows "is_set_fully_received R (ids ! k) \<longleftrightarrow> set (sets ! k) \<subseteq> F"
proof -
  have "sets ! k \<noteq> []" using linked_sets_bounds(1) [OF ls k] by auto
  then have "set (sets ! k) \<inter> F = {} \<Longrightarrow> \<not> set (sets ! k) \<subseteq> F"
    by (auto simp: disjoint_iff neq_Nil_conv)
  then show ?thesis using rcv k by (simp add: received_def is_set_fully_received_def rbuf_def)
qed

lemma received_buffer:
  assumes ls: "linked_sets ids sets" and rcv: "received R0 ids sets F R" and k: "k < length ids"
    and full: "set (sets ! k) \<subseteq> F"
  shows "reconstructed_sets R (ids ! k) = Some (rbuf ids k (sets ! k) F)"
proof -
  have "sets ! k \<noteq> []" using linked_sets_bounds(1) [OF ls k] by auto
  then have "set (sets ! k) \<inter> F \<noteq> {}" using full by (auto simp: disjoint_iff neq_Nil_conv)
  then show ?thesis using rcv k by (simp add: received_def)
qed

lemma received_links:
  assumes "linked_sets ids sets" "received R0 ids sets F R" "k < length ids" "set (sets ! k) \<subseteq> F"
  shows "previous_linked_set_id R (ids ! k) = Some (set_prev ids k)"
    and "next_linked_set_id R (ids ! k) = Some (set_next ids k)"
  using received_buffer [OF assms] assms(4)
  by (simp_all add: previous_linked_set_id_def next_linked_set_id_def rbuf_def)

lemma check_front_chain_received:
  assumes "linked_sets ids sets" "received R0 ids sets F R"
  shows "k < length ids \<Longrightarrow> set (sets ! k) \<subseteq> F \<Longrightarrow>
     check_front_chain R (ids ! k) = Some (\<forall>i < k. set (sets ! i) \<subseteq> F)"
proof (induction k)
  case 0
  then show ?case
    by (subst check_front_chain.simps) (simp add: received_links(1) [OF assms] set_prev_def)
next
  case (Suc k)
  then show ?case
    by (subst check_front_chain.simps)
       (auto simp: received_links(1) [OF assms] received_full [OF assms] set_prev_def less_Suc_eq)
qed

lemma all_less_Suc_split:
  "Suc k < n \<Longrightarrow> (\<forall>i < n. k < i \<longrightarrow> P i) \<longleftrightarrow> P (Suc k) \<and> (\<forall>i < n. Suc k < i \<longrightarrow> P i)"
  by (metis Suc_lessD Suc_lessI lessI)

lemma all_less_split:
  assumes "P k" "k < (n::nat)"
  shows "(\<forall>i < n. k < i \<longrightarrow> P i) \<and> (\<forall>i < k. P i) \<longleftrightarrow> (\<forall>i < n. P i)"
proof (intro iffI allI impI)
  fix i assume "(\<forall>i < n. k < i \<longrightarrow> P i) \<and> (\<forall>i < k. P i)" "i < n"
  then show "P i" using assms(1) by (cases i k rule: linorder_cases) auto
qed (use assms(2) in auto)

lemma check_back_chain_received:
  assumes "linked_sets ids sets" "received R0 ids sets F R"
  shows "k < length ids \<Longrightarrow> set (sets ! k) \<subseteq> F \<Longrightarrow>
     check_back_chain R (ids ! k) = Some (\<forall>i < length ids. k < i \<longrightarrow> set (sets ! i) \<subseteq> F)"
proof (induction "length ids - k" arbitrary: k)
  case 0
  then show ?case by simp
next
  case (Suc d)
  show ?case
  proof (cases "k = length ids - 1")
    case True
    then have "\<not> (i < length ids \<and> k < i)" for i by auto
    then show ?thesis using Suc.prems True
      by (subst check_back_chain.simps) (auto simp: received_links(2) [OF assms] set_next_def)
  next
    case False
    then have k: "Suc k < length ids" using Suc.prems by linarith
    have IH: "set (sets ! Suc k) \<subseteq> F \<Longrightarrow> check_back_chain R (ids ! Suc k)
        = Some (\<forall>i < length ids. Suc k < i \<longrightarrow> set (sets ! i) \<subseteq> F)"
      using Suc.hyps k by auto
    have "check_back_chain R (ids ! k)
        = (if set (sets ! Suc k) \<subseteq> F then check_back_chain R (ids ! Suc k) else Some False)"
      using Suc.prems False k
      by (subst check_back_chain.simps)
         (simp add: received_links(2) [OF assms] received_full [OF assms] set_next_def)
    also have "\<dots> = Some (\<forall>i < length ids. k < i \<longrightarrow> set (sets ! i) \<subseteq> F)"
      using IH all_less_Suc_split [OF k, of "\<lambda>i. set (sets ! i) \<subseteq> F"] by simp
    finally show ?thesis .
  qed
qed

lemma is_message_fully_received_received:
  assumes "linked_sets ids sets" "received R0 ids sets F R" "k < length ids"
  shows "is_message_fully_received R (ids ! k) = Some (\<forall>i < length ids. set (sets ! i) \<subseteq> F)"
proof (cases "set (sets ! k) \<subseteq> F")
  case True
  have "(\<forall>i < length ids. k < i \<longrightarrow> set (sets ! i) \<subseteq> F) \<and> (\<forall>i < k. set (sets ! i) \<subseteq> F)
      \<longleftrightarrow> (\<forall>i < length ids. set (sets ! i) \<subseteq> F)"
    using True assms(3) by (intro all_less_split)
  then show ?thesis
    using True check_front_chain_received [OF assms True] check_back_chain_received [OF assms True]
    by (auto simp: is_message_fully_received_def received_full [OF assms])
next
  case False
  then show ?thesis
    using assms(3) by (auto simp: is_message_fully_received_def received_full [OF assms])
qed

lemma find_starting_set_id_received:
  assumes "linked_sets ids sets" "received R0 ids sets F R" "\<forall>i < length ids. set (sets ! i) \<subseteq> F"
  shows "k < length ids \<Longrightarrow> find_starting_set_id R (ids ! k) = Some (Some (ids ! 0))"
proof (induction k)
  case 0
  then show ?case using assms(3)
    by (subst find_starting_set_id.simps)
       (simp add: received_links(1) [OF assms(1,2)] received_full [OF assms(1,2)] set_prev_def)
next
  case (Suc k)
  then show ?case using assms(3)
    by (subst find_starting_set_id.simps)
       (simp add: received_links(1) [OF assms(1,2)] received_full [OF assms(1,2)] set_prev_def)
qed

lemma set_id_successors_received:
  assumes "linked_sets ids sets" "received R0 ids sets F R" "\<forall>i < length ids. set (sets ! i) \<subseteq> F"
  shows "k < length ids \<Longrightarrow> set_id_successors R (ids ! k) = Some (drop k ids)"
proof (induction "length ids - k" arbitrary: k)
  case 0
  then show ?case by simp
next
  case (Suc d)
  have links: "next_linked_set_id R (ids ! k) = Some (set_next ids k)"
    using received_links(2) [OF assms(1,2)] Suc.prems assms(3) by simp
  show ?case
  proof (cases "k = length ids - 1")
    case True
    then have "drop (Suc k) ids = []" by simp
    then show ?thesis using Suc.prems True links Cons_nth_drop_Suc [of k ids]
      by (subst set_id_successors.simps) (simp add: set_next_def)
  next
    case False
    then have k: "Suc k < length ids" using Suc.prems by linarith
    then have "set_id_successors R (ids ! Suc k) = Some (drop (Suc k) ids)" using Suc.hyps by simp
    then show ?thesis using Suc.prems False links Cons_nth_drop_Suc [of k ids]
      by (subst set_id_successors.simps) (simp add: set_next_def)
  qed
qed

lemma reconstruct_set_data_rbuf:
  assumes "set fs \<subseteq> F"
  shows "reconstruct_set_data (rbuf ids k fs F) = Some (concat (map payload fs))"
proof -
  have "those (map (\<lambda>f. if f \<in> F then Some f else None) fs) = Some fs"
    using assms by (induction fs) auto
  then show ?thesis by (simp add: reconstruct_set_data_def rbuf_def extract_payload_def cong: map_cong)
qed

lemma extract_payloads_received:
  assumes dist: "distinct ids" and len: "length sets = length ids" and all: "\<forall>i < length ids. set (sets ! i) \<subseteq> F"
    and R: "\<forall>i < length ids. k \<le> i \<longrightarrow> reconstructed_sets R (ids ! i) = Some (rbuf ids i (sets ! i) F)"
  shows "extract_payloads R (drop k ids)
    = Some (concat (map payload (concat (drop k sets))),
        R\<lparr>reconstructed_sets := reconstructed_sets R |` (- set (drop k ids))\<rparr>)"
  using R
proof (induction "length ids - k" arbitrary: k R)
  case 0
  then show ?case using len by simp
next
  case (Suc d)
  then have k: "k < length ids" by simp
  define R' where "R' = R\<lparr>reconstructed_sets := (reconstructed_sets R)(ids ! k := None)\<rparr>"
  have "extract_set_payload R (ids ! k) = Some (concat (map payload (sets ! k)), R')"
    using Suc.prems k all by (simp add: extract_set_payload_def R'_def reconstruct_set_data_rbuf)
  moreover have "\<forall>i < length ids. Suc k \<le> i \<longrightarrow> reconstructed_sets R' (ids ! i) = Some (rbuf ids i (sets ! i) F)"
    using Suc.prems k dist by (auto simp: R'_def nth_eq_iff_index_eq)
  then have "extract_payloads R' (drop (Suc k) ids)
    = Some (concat (map payload (concat (drop (Suc k) sets))),
        R'\<lparr>reconstructed_sets := reconstructed_sets R' |` (- set (drop (Suc k) ids))\<rparr>)"
    using Suc.hyps by simp
  moreover have "drop k ids = ids ! k # drop (Suc k) ids" "drop k sets = sets ! k # drop (Suc k) sets"
    using k len by (simp_all add: Cons_nth_drop_Suc)
  moreover have "(reconstructed_sets R)(ids ! k := None) |` (- set (drop (Suc k) ids))
      = reconstructed_sets R |` (- set (ids ! k # drop (Suc k) ids))"
    by (rule ext) (simp add: restrict_map_def)
  ultimately show ?case by (simp add: R'_def)
qed

text \<open>One insertion, on both branches.\<close>

lemma insert_new_fragment_received:
  assumes ls: "linked_sets ids sets" and dist: "distinct ids"
    and R0: "\<forall>i \<in> set ids. reconstructed_sets R0 i = None"
    and rcv: "received R0 ids sets F R" and f: "f \<in> set (concat sets)"
  shows "set (concat sets) \<subseteq> insert f F \<Longrightarrow>
      insert_new_fragment R f = Some (Some (concat (map payload (concat sets)), ids), R0)"
    and "\<not> set (concat sets) \<subseteq> insert f F \<Longrightarrow>
      \<exists>R'. insert_new_fragment R f = Some (None, R') \<and> received R0 ids sets (insert f F) R'"
proof -
  have len: "length sets = length ids" using ls by (simp add: linked_sets_def)
  from f obtain k where k: "k < length ids" "f \<in> set (sets ! k)"
    using len unfolding set_concat by (metis UN_E in_set_conv_nth)
  then obtain j where j: "j < length (sets ! k)" "f = sets ! k ! j" by (auto simp: in_set_conv_nth)
  note flds = linked_sets_fields [OF ls k(1) j(1), folded j(2)]
  note bounds = linked_sets_bounds [OF ls]
  define buf where
    "buf = (case reconstructed_sets R (ids ! k) of Some b \<Rightarrow> b | None \<Rightarrow> buffer_new (total_fragments f))"
  have buf: "buf = rbuf ids k (sets ! k) F"
    using rcv k(1) buffer_new_rbuf [of "sets ! k" F ids k] bounds [OF k(1)] flds(2)
    by (auto simp: buf_def received_def)
  define R' where
    "R' = R\<lparr>reconstructed_sets := (reconstructed_sets R)(ids ! k \<mapsto> rbuf ids k (sets ! k) (insert f F))\<rparr>"
  have other: "f \<notin> set (sets ! i) \<and> rbuf ids i (sets ! i) (insert f F) = rbuf ids i (sets ! i) F"
    if i: "i < length ids" "i \<noteq> k" for i
  proof -
    have "f \<notin> set (sets ! i)"
    proof
      assume "f \<in> set (sets ! i)"
      then have "frag_id f = ids ! i" using linked_sets_fields(1) [OF ls i(1)] by (auto simp: in_set_conv_nth)
      then show False using flds(1) dist i k(1) by (simp add: nth_eq_iff_index_eq)
    qed
    then show ?thesis by (auto simp: rbuf_def)
  qed
  have rcv': "received R0 ids sets (insert f F) R'"
    using rcv other k dist by (auto simp: received_def R'_def nth_eq_iff_index_eq)
  have all: "set (concat sets) \<subseteq> insert f F \<longleftrightarrow> (\<forall>i < length ids. set (sets ! i) \<subseteq> insert f F)"
    unfolding len [symmetric] set_concat UN_subset_iff by (metis in_set_conv_nth nth_mem)
  have step: "insert_new_fragment R f =
     (if set (concat sets) \<subseteq> insert f F
      then do { (msg, self'') \<leftarrow> reconstruct_message R' (ids ! k); Some (Some msg, self'') }
      else Some (None, R'))"
    using is_message_fully_received_received [OF ls rcv' k(1), folded all] insert_fragment_rbuf [OF ls k]
      buf flds(1) by (simp add: insert_new_fragment_def buf_def R'_def Let_def)
  show "\<not> set (concat sets) \<subseteq> insert f F \<Longrightarrow>
      \<exists>R'. insert_new_fragment R f = Some (None, R') \<and> received R0 ids sets (insert f F) R'"
    using step rcv' by simp
  assume "set (concat sets) \<subseteq> insert f F"
  then have full: "\<forall>i < length ids. set (sets ! i) \<subseteq> insert f F" using all by simp
  have "\<forall>i < length ids. reconstructed_sets R' (ids ! i) = Some (rbuf ids i (sets ! i) (insert f F))"
    using received_buffer [OF ls rcv'] full by simp
  then have ex: "extract_payloads R' ids = Some (concat (map payload (concat sets)),
        R'\<lparr>reconstructed_sets := reconstructed_sets R' |` (- set ids)\<rparr>)"
    using extract_payloads_received [OF dist len full, of 0 R'] by simp
  have "reconstructed_sets R' |` (- set ids) = reconstructed_sets R0"
    using rcv' R0 by (intro ext) (auto simp: restrict_map_def received_def)
  then have "R'\<lparr>reconstructed_sets := reconstructed_sets R' |` (- set ids)\<rparr> = R0" by simp
  moreover have "find_starting_set_id R' (ids ! k) = Some (Some (ids ! 0))"
    "set_id_successors R' (ids ! 0) = Some ids"
    using find_starting_set_id_received [OF ls rcv' full k(1)]
      set_id_successors_received [OF ls rcv' full, of 0] k(1) by (cases ids; simp)+
  ultimately show "insert_new_fragment R f = Some (Some (concat (map payload (concat sets)), ids), R0)"
    using step ex \<open>set (concat sets) \<subseteq> insert f F\<close> by (simp add: reconstruct_message_def)
qed

lemma received_start:
  assumes "\<forall>i \<in> set ids. reconstructed_sets R0 i = None"
  shows "received R0 ids sets {} R0"
  using assms by (auto simp: received_def)

text \<open>Any order, any number of duplicates: the message comes out with the last missing fragment.\<close>

lemma insert_fragments_complete:
  assumes ls: "linked_sets ids sets" and dist: "distinct ids"
    and R0: "\<forall>i \<in> set ids. reconstructed_sets R0 i = None"
    and f: "f \<in> set (concat sets)"
  shows "received R0 ids sets F R \<Longrightarrow> set fs \<subseteq> set (concat sets) \<Longrightarrow>
     \<not> set (concat sets) \<subseteq> F \<union> set fs \<Longrightarrow> set (concat sets) \<subseteq> insert f (F \<union> set fs) \<Longrightarrow>
     insert_fragments R (fs @ [f])
       = Some (replicate (length fs) None @ [Some (concat (map payload (concat sets)), ids)], R0)"
proof (induction fs arbitrary: F R)
  case Nil
  then have "set (concat sets) \<subseteq> insert f F" by simp
  from insert_new_fragment_received(1) [OF ls dist R0 Nil.prems(1) f this] show ?case by simp
next
  case (Cons g gs)
  have g: "g \<in> set (concat sets)" using Cons.prems(2) by simp
  have "\<not> set (concat sets) \<subseteq> insert g F" using Cons.prems(3) by auto
  from insert_new_fragment_received(2) [OF ls dist R0 Cons.prems(1) g this]
  obtain R' where R': "insert_new_fragment R g = Some (None, R')" "received R0 ids sets (insert g F) R'"
    by blast
  have "insert_fragments R' (gs @ [f])
      = Some (replicate (length gs) None @ [Some (concat (map payload (concat sets)), ids)], R0)"
    using Cons.prems by (intro Cons.IH [OF R'(2)]) auto
  then show ?case using R'(1) by simp
qed

lemma insert_fragments_incomplete:
  assumes ls: "linked_sets ids sets" and dist: "distinct ids"
    and R0: "\<forall>i \<in> set ids. reconstructed_sets R0 i = None"
  shows "received R0 ids sets F R \<Longrightarrow> set fs \<subseteq> set (concat sets) \<Longrightarrow>
     \<not> set (concat sets) \<subseteq> F \<union> set fs \<Longrightarrow>
     \<exists>R'. insert_fragments R fs = Some (replicate (length fs) None, R') \<and> received R0 ids sets (F \<union> set fs) R'"
proof (induction fs arbitrary: F R)
  case Nil
  then show ?case by simp
next
  case (Cons g gs)
  have g: "g \<in> set (concat sets)" using Cons.prems(2) by simp
  have "\<not> set (concat sets) \<subseteq> insert g F" using Cons.prems(3) by auto
  from insert_new_fragment_received(2) [OF ls dist R0 Cons.prems(1) g this]
  obtain R' where R': "insert_new_fragment R g = Some (None, R')" "received R0 ids sets (insert g F) R'"
    by blast
  have "\<exists>R''. insert_fragments R' gs = Some (replicate (length gs) None, R'')
      \<and> received R0 ids sets (insert g F \<union> set gs) R''"
    using Cons.prems by (intro Cons.IH [OF R'(2)]) auto
  then show ?case using R'(1) by auto
qed

section \<open>The contract of a chunker\<close>

text \<open>
  What reconstruction needs of the code that splits messages: for the arguments it admits, the
  sets are linked by the identifiers, which are distinct, and carry the message in order.
\<close>

locale chunker =
  fixes split :: "'c \<Rightarrow> i32 list \<Rightarrow> bytes \<Rightarrow> FragmentSet list option"
    and admissible :: "'c \<Rightarrow> i32 list \<Rightarrow> bytes \<Rightarrow> bool"
  assumes split_total: "admissible c ids m \<Longrightarrow> \<exists>sets. split c ids m = Some sets"
    and split_linked: "admissible c ids m \<Longrightarrow> split c ids m = Some sets \<Longrightarrow> linked_sets ids sets"
    and split_content: "admissible c ids m \<Longrightarrow> split c ids m = Some sets \<Longrightarrow>
      concat (map payload (concat sets)) = m"
    and admissible_ids: "admissible c ids m \<Longrightarrow> distinct ids \<and> ids_ok ids"
begin

lemma reassembly:
  assumes "admissible c ids m" "split c ids m = Some sets"
    and "\<forall>i \<in> set ids. reconstructed_sets R i = None"
    and "insert f (set fs) = set (concat sets)" "f \<notin> set fs"
  shows "insert_fragments R (fs @ [f]) = Some (replicate (length fs) None @ [Some (m, ids)], R)"
proof -
  note ls = split_linked [OF assms(1,2)]
  have dist: "distinct ids" using admissible_ids [OF assms(1)] by simp
  have "f \<in> set (concat sets)" "set fs \<subseteq> set (concat sets)" "set (concat sets) = insert f (set fs)"
    using assms(4) by blast+
  then have "insert_fragments R (fs @ [f])
      = Some (replicate (length fs) None @ [Some (concat (map payload (concat sets)), ids)], R)"
    using assms(5) by (intro insert_fragments_complete [OF ls dist assms(3) _ received_start [OF assms(3)]]) auto
  then show ?thesis using split_content [OF assms(1,2)] by simp
qed

lemma no_early_message:
  assumes "admissible c ids m" "split c ids m = Some sets"
    and "\<forall>i \<in> set ids. reconstructed_sets R i = None"
    and "set fs \<subset> set (concat sets)"
  shows "\<exists>R'. insert_fragments R fs = Some (replicate (length fs) None, R')
     \<and> (\<forall>i. i \<notin> set ids \<longrightarrow> reconstructed_sets R' i = reconstructed_sets R i)"
proof -
  have dist: "distinct ids" using admissible_ids [OF assms(1)] by simp
  have "set fs \<subseteq> set (concat sets)" "\<not> set (concat sets) \<subseteq> {} \<union> set fs" using assms(4) by auto
  from insert_fragments_incomplete [OF split_linked [OF assms(1,2)] dist assms(3)
      received_start [OF assms(3)] this]
  show ?thesis by (auto simp: received_def)
qed

lemma wire_transparent:
  assumes "admissible c ids m" "split c ids m = Some sets" "f \<in> set (concat sets)"
  shows "recover_fragment R (fragment_into_bytes f) = Inr f"
  using linked_sets_wire_ok [OF split_linked [OF assms(1,2)] _ assms(3)] admissible_ids [OF assms(1)]
  by (simp add: recover_fragment_def fragment_roundtrip)

end

text \<open>The code's own splitting meets the contract.\<close>

definition split_admissible :: "usize \<Rightarrow> i32 list \<Rightarrow> bytes \<Rightarrow> bool" where
  "split_admissible mps ids m \<longleftrightarrow>
     plaintext_ok mps \<and> max_len_ok (length m) \<and> m \<noteq> []
   \<and> total_number_of_sets (length m) mps = Some (length ids)
   \<and> distinct ids \<and> list_all (\<lambda>i. 0 < sint i) ids"

lemma split_admissible_eq:
  assumes "split_admissible mps ids m"
  shows "plaintext_ok mps" "length ids = num_sets (length m) mps" "m \<noteq> []" "distinct ids" "ids_ok ids"
    and "split_with_set_ids ids m mps = Some (split_sets mps ids m)"
proof -
  have ok: "plaintext_ok mps" "max_len_ok (length m)" using assms by (simp_all add: split_admissible_def)
  then show ids: "plaintext_ok mps" "length ids = num_sets (length m) mps" "m \<noteq> []" "distinct ids" "ids_ok ids"
    using assms total_number_of_sets_eq [OF ok] by (auto simp: split_admissible_def intro: ids_okI)
  show "split_with_set_ids ids m mps = Some (split_sets mps ids m)"
    using split_with_set_ids_eq [OF ids(1,5) ok(2) ids(2)] .
qed

interpretation nym_chunker: chunker "\<lambda>mps ids m. split_with_set_ids ids m mps" split_admissible
proof unfold_locales
  fix mps ids m sets
  assume adm: "split_admissible mps ids m"
  note eqs = split_admissible_eq [OF adm]
  show "\<exists>sets. split_with_set_ids ids m mps = Some sets" using eqs(6) by simp
  show "distinct ids \<and> ids_ok ids" using eqs(4,5) by simp
  assume "split_with_set_ids ids m mps = Some sets"
  then have sets: "sets = split_sets mps ids m" using eqs(6) by simp
  show "linked_sets ids sets" unfolding sets by (rule split_linked_sets [OF eqs(1-3)])
  show "concat (map payload (concat sets)) = m" unfolding sets by (rule split_lossless [OF eqs(1,2)])
qed

section \<open>Links that the checks do not survive\<close>

text \<open>
  \<open>check_front_chain\<close> with a bound on the number of calls: \<open>None\<close> when the calls are used up,
  \<open>Some None\<close> for a panic.
\<close>

fun front_chain_steps :: "nat \<Rightarrow> MessageReconstructor \<Rightarrow> i32 \<Rightarrow> bool option option" where
  "front_chain_steps 0 self set_id = None"
| "front_chain_steps (Suc n) self set_id =
     (case previous_linked_set_id self set_id of
        None \<Rightarrow> Some None
      | Some (Some previous_id) \<Rightarrow>
          if is_set_fully_received self previous_id then front_chain_steps n self previous_id
          else Some (Some False)
      | Some None \<Rightarrow> Some (Some True))"

lemma front_chain_steps_sound:
  "front_chain_steps n self i = Some r \<Longrightarrow> check_front_chain self i = r"
proof (induction n arbitrary: i)
  case (Suc n)
  then show ?case
    by (subst check_front_chain.simps) (auto split: option.splits if_splits)
qed simp

lemma front_chain_steps_complete:
  "check_front_chain self i = Some r \<Longrightarrow> \<exists>n. front_chain_steps n self i = Some (Some r)"
proof (rule check_front_chain.raw_induct [where P = "\<lambda>self i r. \<exists>n. front_chain_steps n self i = Some (Some r)"])
  fix f :: "MessageReconstructor \<Rightarrow> i32 \<Rightarrow> bool option" and self j y
  assume IH: "\<And>self j y. f self j = Some y \<Longrightarrow> \<exists>n. front_chain_steps n self j = Some (Some y)"
    and y: "do {
      prev \<leftarrow> previous_linked_set_id self j;
      case prev of
        None \<Rightarrow> Some True
      | Some previous_id \<Rightarrow>
          if is_set_fully_received self previous_id then f self previous_id else Some False
    } = Some y"
  show "\<exists>n. front_chain_steps n self j = Some (Some y)"
  proof (cases "\<exists>p. previous_linked_set_id self j = Some (Some p) \<and> is_set_fully_received self p")
    case True
    then obtain p where p: "previous_linked_set_id self j = Some (Some p)" "is_set_fully_received self p" by blast
    then have "f self p = Some y" using y by simp
    then obtain n where "front_chain_steps n self p = Some (Some y)" using IH by blast
    then have "front_chain_steps (Suc n) self j = Some (Some y)" using p by simp
    then show ?thesis by blast
  next
    case False
    then have "front_chain_steps (Suc 0) self j = Some (Some y)"
      using y by (auto simp: bind_eq_Some_conv split: option.splits if_splits)
    then show ?thesis by blast
  qed
qed

lemma check_front_chain_returns:
  "check_front_chain self i = Some r \<longleftrightarrow> (\<exists>n. front_chain_steps n self i = Some (Some r))"
  using front_chain_steps_sound front_chain_steps_complete by blast

lemma front_chain_steps_cycle:
  assumes "\<And>i. i \<in> S \<Longrightarrow> \<exists>p \<in> S. previous_linked_set_id R i = Some (Some p) \<and> is_set_fully_received R p"
  shows "i \<in> S \<Longrightarrow> front_chain_steps n R i = None"
proof (induction n arbitrary: i)
  case (Suc n)
  from assms [OF Suc.prems] obtain p where "p \<in> S" "previous_linked_set_id R i = Some (Some p)" "is_set_fully_received R p"
    by blast
  with Suc.IH [of p] show ?case by simp
qed simp

text \<open>When inserting into a buffer panics, and the first fragment of a set of several.\<close>

lemma insert_fragment_panics_iff:
  "insert_fragment buf f = None \<longleftrightarrow>
     current_fragment f = 0 \<or> length (rb_fragments buf) < unat (current_fragment f)"
proof (cases "current_fragment f = 0")
  case True
  then show ?thesis by (simp add: insert_fragment_def usize_sub_def)
next
  case False
  then have pos: "1 \<le> unat (current_fragment f)" using unat_gt_0 [of "current_fragment f"] by simp
  then obtain i where i: "usize_sub (unat (current_fragment f)) 1 = Some i" "unat (current_fragment f) = Suc i"
    by (metis Suc_diff_1 less_le_trans usize_sub_def zero_less_one)
  show ?thesis
  proof (cases "i < length (rb_fragments buf)")
    case True
    define fs where "fs = (rb_fragments buf)[i := Some f]"
    have fs: "length fs = length (rb_fragments buf)" by (simp add: fs_def)
    have some: "\<exists>g. fs ! k = Some g" if "None \<notin> set fs" "k < length fs" for k
      using that nth_mem [of k fs] by (cases "fs ! k") auto
    have "insert_fragment buf f \<noteq> None"
      using True i(1) fs some [of 0] some [of 254] by (auto simp: insert_fragment_def index_def is_done_receiving_def Let_def fs_def [symmetric])
    then show ?thesis using True False i(2) by simp
  qed (use False i in \<open>simp add: insert_fragment_def index_def\<close>)
qed

lemma insert_first_of_many:
  assumes "wire_ok (header f)" "1 < total_fragments f" "reconstructed_sets R (frag_id f) = None"
  shows "\<exists>R' buf. insert_new_fragment R f = Some (None, R') \<and> reconstructed_sets R' (frag_id f) = Some buf
    \<and> length (rb_fragments buf) = unat (total_fragments f)"
proof -
  let ?t = "unat (total_fragments f)" and ?c = "unat (current_fragment f)"
  have c: "1 \<le> ?c" "?c \<le> ?t" "1 < ?t"
    using assms(1,2) unat_gt_0 [of "current_fragment f"]
    by (auto simp: wire_ok_def header_ok_def frag_accessor_defs word_le_nat_alt word_less_nat_alt)
  define buf where "buf = (buffer_new (total_fragments f))\<lparr>rb_fragments := (replicate ?t None)[?c - 1 := Some f]\<rparr>"
  have "\<exists>k < ?t. k \<noteq> ?c - 1" using c by (intro exI [of _ "if ?c = 1 then 1 else 0"]) auto
  then obtain k where k: "k < ?t" "k \<noteq> ?c - 1" by blast
  then have "rb_fragments buf ! k = None" by (simp add: buf_def)
  moreover have len: "length (rb_fragments buf) = ?t" by (simp add: buf_def)
  ultimately have "None \<in> set (rb_fragments buf)" using nth_mem [of k "rb_fragments buf"] k(1) by simp
  then have "insert_fragment (buffer_new (total_fragments f)) f = Some buf"
    using c by (simp add: insert_fragment_def usize_sub_def index_def is_done_receiving_def buf_def buffer_new_def)
  moreover have "\<not> rb_is_complete buf" by (simp add: buf_def buffer_new_def)
  ultimately show ?thesis
    using assms(3) len
    by (simp add: insert_new_fragment_def is_message_fully_received_def is_set_fully_received_def Let_def)
qed

definition cyc_fragment :: "i32 \<Rightarrow> i32 \<Rightarrow> bytes \<Rightarrow> Fragment" where
  "cyc_fragment set_id prev data = mk_fragment set_id 1 (Some prev) None 1 data"

definition cyc_buffer :: "i32 \<Rightarrow> i32 \<Rightarrow> bytes \<Rightarrow> ReconstructionBuffer" where
  "cyc_buffer set_id prev data =
     \<lparr>rb_is_complete = True, rb_previous_fragments_set_id = Some prev, rb_next_fragments_set_id = None,
      rb_fragments = [Some (cyc_fragment set_id prev data)]\<rparr>"

lemma cyc_fragment_facts:
  "frag_id (cyc_fragment i p d) = i" "total_fragments (cyc_fragment i p d) = 1"
  "insert_fragment (buffer_new 1) (cyc_fragment i p d) = Some (cyc_buffer i p d)"
  by (simp_all add: insert_fragment_def buffer_new_def cyc_fragment_def mk_fragment_def frag_accessor_defs
      usize_sub_def index_def is_done_receiving_def cyc_buffer_def)

lemma cyc_insert_first:
  assumes "reconstructed_sets R i = None" "reconstructed_sets R j = None" "i \<noteq> j"
  shows "insert_new_fragment R (cyc_fragment i j d)
    = Some (None, R\<lparr>reconstructed_sets := (reconstructed_sets R)(i \<mapsto> cyc_buffer i j d)\<rparr>)"
  using assms
  by (simp add: insert_new_fragment_def cyc_fragment_facts is_message_fully_received_def
      is_set_fully_received_def check_back_chain.simps [of _ i] check_front_chain.simps [of _ i]
      next_linked_set_id_def previous_linked_set_id_def cyc_buffer_def Let_def)

section \<open>Properties\<close>

text \<open>
  C1. A message comes out of its fragments in whatever order they arrive and however often they
  are repeated before the last missing one. Every insertion before that one returns nothing,
  the last one returns the message with its set identifiers, and the reconstructor is left as
  it was before the first fragment, other messages in progress included.
\<close>

theorem reconstruction_any_order:
  assumes "split_admissible mps ids m" "split_with_set_ids ids m mps = Some sets"
    and "\<forall>i \<in> set ids. reconstructed_sets R i = None"
    and "insert f (set fs) = set (concat sets)" "f \<notin> set fs"
  shows "insert_fragments R (fs @ [f]) = Some (replicate (length fs) None @ [Some (m, ids)], R)"
  using assms by (rule nym_chunker.reassembly)

lemma small_split_admissible: "split_admissible 10 [5] [1, 2, 3, 4, 5]"
  by (simp add: split_admissible_def plaintext_ok_def total_number_of_sets_eq num_sets_def)

lemma small_split:
  "split_with_set_ids [5] [1, 2, 3, 4, 5] 10
    = Some [[mk_fragment 5 2 None None 1 [1, 2, 3], mk_fragment 5 2 None None 2 [4, 5]]]"
proof -
  have "[1..<2 + 1] = [1, 2 :: nat]" by (simp add: upt_rec)
  moreover have "seg 3 3 [1, 2, 3, 4, 5] 1 = [1, 2, 3]" "seg 3 3 [1, 2, 3, 4, 5] 2 = [4, 5]"
    by (simp_all add: seg_def bnd_def)
  moreover have "ceil_div (length [1, 2, 3, 4, 5 :: byte]) 3 = 2" by (simp add: ceil_div_def)
  ultimately have "set_at 10 [5] [1, 2, 3, 4, 5] 0
      = [mk_fragment 5 2 None None 1 [1, 2, 3], mk_fragment 5 2 None None 2 [4, 5]]"
    by (simp add: set_at_def set_part_def segment_set_def set_num_def first_len_def set_prev_def
        set_next_def bnd_def del: upt_Suc)
  then show ?thesis using split_admissible_eq(6) [OF small_split_admissible] by simp
qed

theorem reconstruction_any_order_witness:
  "insert_fragments reconstructor_new
     [mk_fragment 5 2 None None 2 [4, 5], mk_fragment 5 2 None None 2 [4, 5], mk_fragment 5 2 None None 1 [1, 2, 3]]
   = Some ([None, None, Some ([1, 2, 3, 4, 5], [5])], reconstructor_new)"
proof -
  have "mk_fragment 5 2 None None 1 [1, 2, 3] \<noteq> mk_fragment 5 2 None None 2 [4, 5]"
    by (simp add: mk_fragment_def)
  then show ?thesis
    using reconstruction_any_order [OF small_split_admissible small_split, of reconstructor_new
        "mk_fragment 5 2 None None 1 [1, 2, 3]"
        "[mk_fragment 5 2 None None 2 [4, 5], mk_fragment 5 2 None None 2 [4, 5]]"]
    by (simp add: reconstructor_new_def numeral_2_eq_2)
qed

text \<open>
  C16. As long as a fragment is missing, no insertion returns a message or panics, and no other
  message in progress is touched.
\<close>

theorem reconstruction_waits:
  assumes "split_admissible mps ids m" "split_with_set_ids ids m mps = Some sets"
    and "\<forall>i \<in> set ids. reconstructed_sets R i = None"
    and "set fs \<subset> set (concat sets)"
  shows "\<exists>R'. insert_fragments R fs = Some (replicate (length fs) None, R')
     \<and> (\<forall>i. i \<notin> set ids \<longrightarrow> reconstructed_sets R' i = reconstructed_sets R i)"
  using assms by (rule nym_chunker.no_early_message)

theorem reconstruction_waits_witness:
  "\<exists>R'. insert_fragments reconstructor_new [mk_fragment 5 2 None None 2 [4, 5]] = Some ([None], R')
     \<and> (\<forall>i. i \<notin> {5} \<longrightarrow> reconstructed_sets R' i = reconstructed_sets reconstructor_new i)"
proof -
  have "mk_fragment 5 2 None None 1 [1, 2, 3] \<noteq> mk_fragment 5 2 None None 2 [4, 5]"
    by (simp add: mk_fragment_def)
  then have "set [mk_fragment 5 2 None None 2 [4, 5]] \<subset> set (concat
      [[mk_fragment 5 2 None None 1 [1, 2, 3], mk_fragment 5 2 None None 2 [4, 5]]])" by auto
  from reconstruction_waits [OF small_split_admissible small_split _ this, of reconstructor_new]
  show ?thesis by (simp add: reconstructor_new_def)
qed

text \<open>
  C36. Two sets of one fragment each that name each other as the previous set, both well-formed,
  make \<open>insert_new_fragment\<close> recurse forever, whatever else is being reconstructed. The first is
  inserted without a result; after the second is in its buffer and the check of the sets that
  follow has returned, the check of the sets that precede neither returns nor panics after any
  number of calls.
\<close>

theorem cyclic_links_never_return:
  assumes "0 < sint i" "0 < sint j" "i \<noteq> j" "reconstructed_sets R i = None" "reconstructed_sets R j = None"
  shows "wire_ok (header (cyc_fragment i j d)) \<and> wire_ok (header (cyc_fragment j i e))
   \<and> (\<exists>R1 R2 buf. insert_new_fragment R (cyc_fragment i j d) = Some (None, R1)
        \<and> insert_fragment (buffer_new 1) (cyc_fragment j i e) = Some buf
        \<and> R2 = R1\<lparr>reconstructed_sets := (reconstructed_sets R1)(j \<mapsto> buf)\<rparr>
        \<and> is_set_fully_received R2 j \<and> check_back_chain R2 j = Some True
        \<and> (\<forall>n. front_chain_steps n R2 j = None)
        \<and> insert_new_fragment R1 (cyc_fragment j i e) = None)"
proof -
  define R1 where "R1 = R\<lparr>reconstructed_sets := (reconstructed_sets R)(i \<mapsto> cyc_buffer i j d)\<rparr>"
  define R2 where "R2 = R1\<lparr>reconstructed_sets := (reconstructed_sets R1)(j \<mapsto> cyc_buffer j i e)\<rparr>"
  note buf = R2_def R1_def cyc_buffer_def
  have one: "insert_new_fragment R (cyc_fragment i j d) = Some (None, R1)"
    unfolding R1_def using assms(3-5) by (intro cyc_insert_first)
  have steps: "front_chain_steps n R2 j = None" for n
    by (rule front_chain_steps_cycle [of "{i, j}"])
       (use assms(3) in \<open>auto simp: buf previous_linked_set_id_def is_set_fully_received_def\<close>)
  then have "check_front_chain R2 j = None" using check_front_chain_returns [of R2 j] by (metis not_Some_eq)
  moreover have bwd: "check_back_chain R2 j = Some True" and full: "is_set_fully_received R2 j"
    by (subst check_back_chain.simps, simp add: buf next_linked_set_id_def)
       (simp add: buf is_set_fully_received_def)
  ultimately have "is_message_fully_received R2 j = None" by (simp add: is_message_fully_received_def)
  then have two: "insert_new_fragment R1 (cyc_fragment j i e) = None"
    using assms(3,5) by (simp add: insert_new_fragment_def cyc_fragment_facts R1_def R2_def Let_def)
  have "wire_ok (header (cyc_fragment i j d))" "wire_ok (header (cyc_fragment j i e))"
    unfolding cyc_fragment_def using assms(1-3) by (auto intro!: mk_fragment_wire_ok simp: set_ids_ok_def)
  moreover note one two steps bwd full cyc_fragment_facts(3) R2_def
  ultimately show ?thesis by blast
qed

theorem cyclic_links_never_return_witness:
  "\<exists>R1. insert_new_fragment reconstructor_new (cyc_fragment 1 2 []) = Some (None, R1)
     \<and> insert_new_fragment R1 (cyc_fragment 2 1 []) = None"
  using cyclic_links_never_return [of 1 2 reconstructor_new "[]" "[]"]
  by (auto simp: reconstructor_new_def)

text \<open>
  C37. The buffer of a set has the size that its first fragment announced. Of two well-formed
  fragments of one set, the first of which announces more than one fragment, the second panics
  exactly when its position is beyond that size.
\<close>

theorem inconsistent_total_panics:
  assumes "wire_ok (header f)" "1 < total_fragments f" "reconstructed_sets R (frag_id f) = None"
    and "wire_ok (header g)" "frag_id g = frag_id f"
  shows "\<exists>R' buf. insert_new_fragment R f = Some (None, R') \<and> reconstructed_sets R' (frag_id f) = Some buf
    \<and> (insert_fragment buf g = None \<longleftrightarrow> total_fragments f < current_fragment g)
    \<and> (total_fragments f < current_fragment g \<longrightarrow> insert_new_fragment R' g = None)"
proof -
  obtain R' buf where R': "insert_new_fragment R f = Some (None, R')" "reconstructed_sets R' (frag_id f) = Some buf"
    "length (rb_fragments buf) = unat (total_fragments f)"
    using insert_first_of_many [OF assms(1-3)] by blast
  have "current_fragment g \<noteq> 0" using assms(4) by (simp add: wire_ok_def header_ok_def frag_accessor_defs)
  then have p: "insert_fragment buf g = None \<longleftrightarrow> total_fragments f < current_fragment g"
    using R'(3) by (simp add: insert_fragment_panics_iff word_less_nat_alt)
  have "insert_fragment buf g = None \<Longrightarrow> insert_new_fragment R' g = None"
    using R'(2) assms(5) by (simp add: insert_new_fragment_def Let_def)
  with R' p show ?thesis by (intro exI [of _ R'] exI [of _ buf]) simp
qed

theorem inconsistent_total_panics_witness:
  "\<exists>R'. insert_new_fragment reconstructor_new (mk_fragment 1 2 None None 1 []) = Some (None, R')
     \<and> insert_new_fragment R' (mk_fragment 1 3 None None 3 []) = None"
proof -
  have "wire_ok (header (mk_fragment 1 2 None None 1 []))" "wire_ok (header (mk_fragment 1 3 None None 3 []))"
    by (rule mk_fragment_wire_ok; simp add: set_ids_ok_def)+
  from inconsistent_total_panics [OF this(1) _ _ this(2), of reconstructor_new] show ?thesis
    by (auto simp: mk_fragment_def frag_accessor_defs reconstructor_new_def)
qed
text \<open>
  C38. The checks look at the links of one side only: when a complete set names as its previous
  set one whose own successor never arrived, the message counts as received and
  \<open>reconstruct_message\<close> panics on the missing set.
\<close>

theorem one_sided_link_panics:
  assumes "reconstructed_sets R a = Some ba" "rb_is_complete ba" "rb_previous_fragments_set_id ba = None"
    and "rb_next_fragments_set_id ba = Some x" "reconstructed_sets R x = None"
    and "reconstructed_sets R b = Some bb" "rb_is_complete bb" "rb_previous_fragments_set_id bb = Some a"
    and "rb_next_fragments_set_id bb = None"
  shows "is_message_fully_received R b = Some True \<and> reconstruct_message R b = None"
proof -
  have sets: "is_set_fully_received R a" "is_set_fully_received R b"
    and links: "previous_linked_set_id R a = Some None" "previous_linked_set_id R b = Some (Some a)"
      "next_linked_set_id R a = Some (Some x)" "next_linked_set_id R b = Some None"
      "next_linked_set_id R x = None"
    using assms by (simp_all add: is_set_fully_received_def previous_linked_set_id_def next_linked_set_id_def)
  have "check_back_chain R b = Some True" "check_front_chain R a = Some True"
    using links by (simp_all add: check_back_chain.simps [of R b] check_front_chain.simps [of R a])
  then have "is_message_fully_received R b = Some True"
    using sets links by (simp add: is_message_fully_received_def check_front_chain.simps [of R b])
  moreover have "find_starting_set_id R b = Some (Some a)"
    using sets links by (simp add: find_starting_set_id.simps [of R b] find_starting_set_id.simps [of R a])
  moreover have "set_id_successors R a = None"
    using links by (simp add: set_id_successors.simps [of R a] set_id_successors.simps [of R x])
  ultimately show ?thesis by (simp add: reconstruct_message_def)
qed

definition one_sided_buffer :: "i32 option \<Rightarrow> i32 option \<Rightarrow> ReconstructionBuffer" where
  "one_sided_buffer prev nxt =
     \<lparr>rb_is_complete = True, rb_previous_fragments_set_id = prev, rb_next_fragments_set_id = nxt,
      rb_fragments = []\<rparr>"

definition one_sided :: MessageReconstructor where
  "one_sided = \<lparr>reconstructed_sets =
     [1 \<mapsto> one_sided_buffer None (Some 3), 2 \<mapsto> one_sided_buffer (Some 1) None]\<rparr>"

theorem one_sided_link_panics_witness:
  "is_message_fully_received one_sided 2 = Some True \<and> reconstruct_message one_sided 2 = None"
  by (rule one_sided_link_panics [of one_sided 1 "one_sided_buffer None (Some 3)" 3 2
        "one_sided_buffer (Some 1) None"])
     (simp_all add: one_sided_def one_sided_buffer_def)

end
