(* ===== verification/Outfox.thy ===== *)
theory Outfox
  imports Codec
begin

text \<open>
  \<open>nym-outfox\<close>: the Outfox mix packet format (\<open>constants.rs\<close>, \<open>lion.rs\<close>, \<open>format.rs\<close>,
  \<open>packet.rs\<close>).

  The cryptographic primitives are not part of the repository (BLAKE3, XChaCha20,
  ChaCha20Poly1305, Curve25519): they are the fields of \<open>outfox_crypto\<close>, an argument of every
  operation that uses them. The functions mutate a buffer in place; here they return the new
  buffer. On an error the packet is dropped by its callers, so the error branch has no buffer.
\<close>

section \<open>Constants\<close>

abbreviation GROUPELEMENTBYTES :: byte where "GROUPELEMENTBYTES \<equiv> 32"
abbreviation TAGBYTES :: byte where "TAGBYTES \<equiv> 16"
abbreviation DEFAULT_HOPS :: usize where "DEFAULT_HOPS \<equiv> 4"
abbreviation MIX_PARAMS_LEN :: usize where "MIX_PARAMS_LEN \<equiv> DEFAULT_HOPS + 2"
abbreviation MIN_MESSAGE_LEN :: usize where "MIN_MESSAGE_LEN \<equiv> 24 * 2"
abbreviation CONTEXT :: string where "CONTEXT \<equiv> ''LIONKEYS''"
abbreviation TAG_LEN :: usize where "TAG_LEN \<equiv> 24"
abbreviation DEFAULT_ROUTING_INFO_SIZE :: byte where "DEFAULT_ROUTING_INFO_SIZE \<equiv> 32"
abbreviation MIN_PACKET_SIZE :: usize where "MIN_PACKET_SIZE \<equiv> 48"
abbreviation MAGIC_SLICE :: bytes where "MAGIC_SLICE \<equiv> [111, 102, 120]"

definition ROUTING_INFORMATION_LENGTH_BY_STAGE :: "byte list" where
  "ROUTING_INFORMATION_LENGTH_BY_STAGE = replicate DEFAULT_HOPS DEFAULT_ROUTING_INFO_SIZE"

definition groupelementbytes :: usize where
  "groupelementbytes = unat GROUPELEMENTBYTES"

definition tagbytes :: usize where
  "tagbytes = unat TAGBYTES"

definition OUTFOX_PACKET_OVERHEAD :: usize where
  "OUTFOX_PACKET_OVERHEAD =
     MIX_PARAMS_LEN + (groupelementbytes + tagbytes + unat DEFAULT_ROUTING_INFO_SIZE) * DEFAULT_HOPS
     + length MAGIC_SLICE"

datatype OutfoxError =
    LenMismatch usize usize
  | ChaCha20InvalidLength
  | ChaCha20Poly1305Error string
  | InvalidKeyLength
  | InvalidMessageLength
  | TryFromSlice
  | InvalidHeaderLength usize
  | InvalidMagicBytes bytes

section \<open>The primitives\<close>

record outfox_crypto =
  derive_key :: "string \<Rightarrow> bytes \<Rightarrow> bytes"
  keystream :: "bytes \<Rightarrow> bytes \<Rightarrow> nat \<Rightarrow> bytes"
  keyed_hash :: "bytes \<Rightarrow> bytes \<Rightarrow> bytes"
  aead_encrypt :: "bytes \<Rightarrow> bytes \<Rightarrow> string + bytes \<times> bytes"
  aead_decrypt :: "bytes \<Rightarrow> bytes \<Rightarrow> bytes \<Rightarrow> string + bytes"
  public_key :: "bytes \<Rightarrow> bytes"
  scalar_mult :: "bytes \<Rightarrow> bytes \<Rightarrow> bytes"

section \<open>The lion transform\<close>

definition xor_bytes :: "bytes \<Rightarrow> bytes \<Rightarrow> bytes" where
  "xor_bytes xs ys = map2 (\<lambda>x y. x XOR y) xs ys"

definition apply_keystream :: "outfox_crypto \<Rightarrow> bytes \<Rightarrow> bytes \<Rightarrow> bytes \<Rightarrow> bytes" where
  "apply_keystream c key nonce data = xor_bytes data (keystream c key nonce (length data))"

definition lion_transform ::
    "outfox_crypto \<Rightarrow> bytes \<Rightarrow> bytes \<Rightarrow> u64 \<times> u64 \<times> u64 \<Rightarrow> OutfoxError + bytes" where
  "lion_transform c message key key_schedule =
     (case key_schedule of (s0, s1, s2) \<Rightarrow>
      if length key \<noteq> 32 then Inl InvalidKeyLength
      else if length message < MIN_MESSAGE_LEN then Inl InvalidMessageLength
      else
        let stage_1_key = derive_key c (CONTEXT @ nat_to_string (unat s0)) key;
            left = take TAG_LEN message;
            right = apply_keystream c stage_1_key left (drop TAG_LEN message);
            stage_2_key = derive_key c (CONTEXT @ nat_to_string (unat s1)) key;
            tag_to_xor = keyed_hash c stage_2_key right;
            left = xor_bytes left (take TAG_LEN tag_to_xor);
            stage_3_key = derive_key c (CONTEXT @ nat_to_string (unat s2)) key;
            right = apply_keystream c stage_3_key left right in
        Inr (left @ right))"

definition lion_transform_encrypt :: "outfox_crypto \<Rightarrow> bytes \<Rightarrow> bytes \<Rightarrow> OutfoxError + bytes" where
  "lion_transform_encrypt c message key = lion_transform c message key (1, 2, 3)"

definition lion_transform_decrypt :: "outfox_crypto \<Rightarrow> bytes \<Rightarrow> bytes \<Rightarrow> OutfoxError + bytes" where
  "lion_transform_decrypt c message key = lion_transform c message key (3, 2, 1)"

section \<open>Packet parameters\<close>

record MixCreationParameters =
  routing_information_length_by_stage :: "byte list"
  mcp_payload_length_bytes :: u16

record MixStageParameters =
  msp_routing_information_length_bytes :: byte
  msp_remaining_header_length_bytes :: u16
  msp_payload_length_bytes :: u16

type_synonym range = "usize \<times> usize"

definition mix_params_try_from :: "bytes \<Rightarrow> OutfoxError + MixCreationParameters" where
  "mix_params_try_from v =
     (if length v \<noteq> MIX_PARAMS_LEN then Inl (InvalidHeaderLength (length v))
      else Inr \<lparr>routing_information_length_by_stage = take DEFAULT_HOPS v,
                mcp_payload_length_bytes = u16_from_le (drop DEFAULT_HOPS v)\<rparr>)"

definition mix_params_to_bytes :: "MixCreationParameters \<Rightarrow> bytes" where
  "mix_params_to_bytes self =
     routing_information_length_by_stage self @ u16_to_le (mcp_payload_length_bytes self)"

definition mix_params_payload_length_bytes :: "MixCreationParameters \<Rightarrow> usize" where
  "mix_params_payload_length_bytes self = unat (mcp_payload_length_bytes self)"

definition mix_params_new :: "u16 \<Rightarrow> MixCreationParameters" where
  "mix_params_new len =
     \<lparr>routing_information_length_by_stage = replicate DEFAULT_HOPS DEFAULT_ROUTING_INFO_SIZE,
      mcp_payload_length_bytes = len\<rparr>"

definition total_packet_length :: "MixCreationParameters \<Rightarrow> usize" where
  "total_packet_length self =
     foldl (\<lambda>len stage_len. len + (unat stage_len + groupelementbytes + tagbytes))
       (mix_params_payload_length_bytes self) ROUTING_INFORMATION_LENGTH_BY_STAGE"

definition outgoing_packet_length :: "MixStageParameters \<Rightarrow> usize" where
  "outgoing_packet_length self =
     unat (msp_routing_information_length_bytes self)
     + unat (msp_remaining_header_length_bytes self) + unat (msp_payload_length_bytes self)"

definition incoming_packet_length :: "MixStageParameters \<Rightarrow> usize" where
  "incoming_packet_length self = groupelementbytes + tagbytes + outgoing_packet_length self"

definition pub_element_range :: "MixStageParameters \<Rightarrow> range" where
  "pub_element_range self = (0, groupelementbytes)"

definition tag_range :: "MixStageParameters \<Rightarrow> range" where
  "tag_range self = (groupelementbytes, groupelementbytes + tagbytes)"

definition routing_data_range :: "MixStageParameters \<Rightarrow> range" where
  "routing_data_range self =
     (groupelementbytes + tagbytes,
      groupelementbytes + tagbytes + unat (msp_routing_information_length_bytes self))"

definition header_range :: "MixStageParameters \<Rightarrow> range" where
  "header_range self =
     (groupelementbytes + tagbytes,
      groupelementbytes + tagbytes + unat (msp_routing_information_length_bytes self)
      + unat (msp_remaining_header_length_bytes self))"

definition payload_range :: "MixStageParameters \<Rightarrow> range" where
  "payload_range self =
     (incoming_packet_length self - unat (msp_payload_length_bytes self), incoming_packet_length self)"

text \<open>The loop of \<open>get_stage_params\<close> over the remaining stages.\<close>

fun stage_params_loop ::
    "MixCreationParameters \<Rightarrow> usize \<Rightarrow> usize \<Rightarrow> byte list \<Rightarrow> u16 \<Rightarrow> (range \<times> MixStageParameters) option" where
  "stage_params_loop self layer_number i [] remaining = None"
| "stage_params_loop self layer_number i (stage_len # stages) remaining =
     (if i = layer_number then
        let params = \<lparr>msp_routing_information_length_bytes = stage_len,
                      msp_remaining_header_length_bytes = remaining,
                      msp_payload_length_bytes = mcp_payload_length_bytes self\<rparr>;
            total_size = total_packet_length self;
            inner_size = incoming_packet_length params in
        do {
          lb \<leftarrow> usize_sub total_size inner_size;
          Some ((lb, total_size), params)
        }
      else
        stage_params_loop self layer_number (i + 1) stages
          (remaining + ucast (stage_len + GROUPELEMENTBYTES + TAGBYTES)))"

definition get_stage_params ::
    "MixCreationParameters \<Rightarrow> usize \<Rightarrow> (range \<times> MixStageParameters) option" where
  "get_stage_params self layer_number =
     (if layer_number < length ROUTING_INFORMATION_LENGTH_BY_STAGE
      then stage_params_loop self layer_number 0 ROUTING_INFORMATION_LENGTH_BY_STAGE 0
      else None)"

section \<open>One layer\<close>

definition encode_mix_layer ::
    "outfox_crypto \<Rightarrow> MixStageParameters \<Rightarrow> bytes \<Rightarrow> bytes \<Rightarrow> bytes \<Rightarrow> bytes
      \<Rightarrow> (OutfoxError + bytes \<times> bytes) option" where
  "encode_mix_layer c self buffer user_secret_key node_pub_key destination =
     (if length node_pub_key \<noteq> 32 then Some (Inl TryFromSlice)
      else if length user_secret_key \<noteq> 32 then Some (Inl TryFromSlice)
      else if length buffer \<noteq> incoming_packet_length self
      then Some (Inl (LenMismatch (length buffer) (incoming_packet_length self)))
      else if length destination \<noteq> unat (msp_routing_information_length_bytes self)
      then Some (Inl (LenMismatch (length destination) (unat (msp_routing_information_length_bytes self))))
      else
        let user_public_key = public_key c user_secret_key;
            shared_key = scalar_mult c user_secret_key node_pub_key in
        pbind (panicking (case routing_data_range self of (lb, ub) \<Rightarrow> copy_from_slice buffer lb ub destination))
          (\<lambda>buffer.
        pbind (panicking (case header_range self of (lb, ub) \<Rightarrow> slice buffer lb ub)) (\<lambda>hdr.
        case aead_encrypt c shared_key hdr of
          Inl e \<Rightarrow> Some (Inl (ChaCha20Poly1305Error e))
        | Inr (ciphertext, tag) \<Rightarrow>
        pbind (panicking (case header_range self of (lb, ub) \<Rightarrow> copy_from_slice buffer lb ub ciphertext))
          (\<lambda>buffer.
        pbind (panicking (case tag_range self of (lb, ub) \<Rightarrow> copy_from_slice buffer lb ub tag)) (\<lambda>buffer.
        pbind (panicking (case pub_element_range self of (lb, ub) \<Rightarrow> copy_from_slice buffer lb ub user_public_key))
          (\<lambda>buffer.
        pbind (panicking (case payload_range self of (lb, ub) \<Rightarrow> slice buffer lb ub)) (\<lambda>msg.
        case lion_transform_encrypt c msg shared_key of
          Inl e \<Rightarrow> Some (Inl e)
        | Inr msg' \<Rightarrow>
        pbind (panicking (case payload_range self of (lb, ub) \<Rightarrow> copy_from_slice buffer lb ub msg'))
          (\<lambda>buffer. Some (Inr (shared_key, buffer))))))))))"

definition decode_mix_layer ::
    "outfox_crypto \<Rightarrow> MixStageParameters \<Rightarrow> bytes \<Rightarrow> bytes \<Rightarrow> (OutfoxError + bytes \<times> bytes) option" where
  "decode_mix_layer c self buffer mix_secret_key =
     (if length mix_secret_key \<noteq> 32 then Some (Inl TryFromSlice)
      else if length buffer \<noteq> incoming_packet_length self
      then Some (Inl (LenMismatch (length buffer) (incoming_packet_length self)))
      else
        pbind (panicking (case pub_element_range self of (lb, ub) \<Rightarrow> slice buffer lb ub)) (\<lambda>user_public_key.
        if length user_public_key \<noteq> 32 then Some (Inl TryFromSlice) else
        let shared_key = scalar_mult c mix_secret_key user_public_key in
        pbind (panicking (case tag_range self of (lb, ub) \<Rightarrow> slice buffer lb ub)) (\<lambda>tag.
        pbind (panicking (case header_range self of (lb, ub) \<Rightarrow> slice buffer lb ub)) (\<lambda>hdr.
        case aead_decrypt c shared_key tag hdr of
          Inl e \<Rightarrow> Some (Inl (ChaCha20Poly1305Error e))
        | Inr plaintext \<Rightarrow>
        pbind (panicking (case header_range self of (lb, ub) \<Rightarrow> copy_from_slice buffer lb ub plaintext))
          (\<lambda>buffer.
        pbind (panicking (case routing_data_range self of (lb, ub) \<Rightarrow> slice buffer lb ub)) (\<lambda>routing_data.
        pbind (panicking (case payload_range self of (lb, ub) \<Rightarrow> slice buffer lb ub)) (\<lambda>msg.
        case lion_transform_decrypt c msg shared_key of
          Inl e \<Rightarrow> Some (Inl e)
        | Inr msg' \<Rightarrow>
        pbind (panicking (case payload_range self of (lb, ub) \<Rightarrow> copy_from_slice buffer lb ub msg'))
          (\<lambda>buffer. Some (Inr (routing_data, buffer))))))))))"

section \<open>Packets\<close>

record OutfoxPacket =
  mix_params :: MixCreationParameters
  op_payload :: bytes

record OutfoxProcessedPacket =
  opp_packet :: OutfoxPacket
  opp_next_address :: bytes

text \<open>\<open>sphinx_packet::route::Node\<close>: a 32-byte address and a 32-byte public key.\<close>

record SphinxNode =
  node_address :: bytes
  node_pub_key :: bytes

text \<open>\<open>split_at\<close> and \<open>Vec::swap_remove\<close>.\<close>

definition split_at :: "'a list \<Rightarrow> usize \<Rightarrow> ('a list \<times> 'a list) option" where
  "split_at xs i = (if i \<le> length xs then Some (take i xs, drop i xs) else None)"

definition swap_remove :: "'a list \<Rightarrow> usize \<Rightarrow> 'a list option" where
  "swap_remove xs i =
     (if i < length xs
      then Some (if i = length xs - 1 then butlast xs else (butlast xs)[i := last xs])
      else None)"

definition outfox_try_from :: "bytes \<Rightarrow> (OutfoxError + OutfoxPacket) option" where
  "outfox_try_from v =
     pbind (panicking (split_at v MIX_PARAMS_LEN)) (\<lambda>(hdr, data).
       Some (sbind (mix_params_try_from hdr) (\<lambda>params.
         Inr \<lparr>mix_params = params, op_payload = data\<rparr>)))"

definition stage_params :: "OutfoxPacket \<Rightarrow> usize \<Rightarrow> (range \<times> MixStageParameters) option" where
  "stage_params self layer_number = get_stage_params (mix_params self) layer_number"

definition outfox_payload_range :: "OutfoxPacket \<Rightarrow> range option" where
  "outfox_payload_range self =
     map_option (\<lambda>(r, params). payload_range params) (stage_params self (DEFAULT_HOPS - 1))"

definition recover_plaintext :: "OutfoxPacket \<Rightarrow> (OutfoxError + bytes) option" where
  "recover_plaintext self =
     do {
       (lb, ub) \<leftarrow> outfox_payload_range self;
       region \<leftarrow> slice (op_payload self) lb ub;
       let plaintext = dropWhile (\<lambda>x. x = 0) region;
       (magic, data) \<leftarrow> split_at plaintext (length MAGIC_SLICE);
       Some (if magic \<noteq> MAGIC_SLICE then Inl (InvalidMagicBytes magic) else Inr data)
     }"

definition outfox_len :: "OutfoxPacket \<Rightarrow> usize" where
  "outfox_len self = total_packet_length (mix_params self) + MIX_PARAMS_LEN"

definition outfox_to_bytes :: "OutfoxPacket \<Rightarrow> OutfoxError + bytes" where
  "outfox_to_bytes self = Inr (mix_params_to_bytes (mix_params self) @ op_payload self)"

text \<open>Encrypting one layer of the buffer in place.\<close>

definition build_layer ::
    "outfox_crypto \<Rightarrow> MixCreationParameters \<Rightarrow> bytes \<Rightarrow> usize \<Rightarrow> bytes \<Rightarrow> bytes \<Rightarrow> bytes
      \<Rightarrow> (OutfoxError + bytes) option" where
  "build_layer c params secret_key layer pub_key address buffer =
     pbind (panicking (get_stage_params params layer)) (\<lambda>((lb, ub), stage).
     pbind (panicking (slice buffer lb ub)) (\<lambda>part.
     pbind (encode_mix_layer c stage part secret_key pub_key address) (\<lambda>(_, part').
     panicking (copy_from_slice buffer lb ub part'))))"

text \<open>The loop over the pairs of the reversed route.\<close>

fun build_layers ::
    "outfox_crypto \<Rightarrow> MixCreationParameters \<Rightarrow> bytes \<Rightarrow> usize \<Rightarrow> SphinxNode list \<Rightarrow> bytes
      \<Rightarrow> (OutfoxError + bytes) option" where
  "build_layers c params secret_key idx (destination_node # processing_node # nodes) buffer =
     pbind (build_layer c params secret_key (idx + 1) (node_pub_key processing_node)
              (node_address destination_node) buffer)
       (\<lambda>buffer. build_layers c params secret_key (idx + 1) (processing_node # nodes) buffer)"
| "build_layers c params secret_key idx nodes buffer = Some (Inr buffer)"

text \<open>
  \<open>OutfoxPacket::build\<close>; the secret key drawn from the system's generator and
  \<open>sphinx_packet\<close>'s \<open>DEFAULT_PAYLOAD_SIZE\<close> are arguments.
\<close>

definition outfox_build ::
    "outfox_crypto \<Rightarrow> bytes \<Rightarrow> usize \<Rightarrow> bytes \<Rightarrow> SphinxNode list \<Rightarrow> bytes \<Rightarrow> usize option
      \<Rightarrow> (OutfoxError + OutfoxPacket) option" where
  "outfox_build c secret_key default_payload_size data route destination_address packet_size =
     (let packet_size = (case packet_size of Some n \<Rightarrow> n | None \<Rightarrow> default_payload_size) in
      pbind (panicking (usize_add (if packet_size < MIN_PACKET_SIZE then MIN_PACKET_SIZE else packet_size)
                         (length MAGIC_SLICE))) (\<lambda>packet_size.
      let params = mix_params_new (of_nat packet_size) in
      pbind (panicking (usize_sub (total_packet_length params) (length data))) (\<lambda>n.
      pbind (panicking (usize_sub n (length MAGIC_SLICE))) (\<lambda>padding.
      let buffer = replicate padding 0 @ MAGIC_SLICE @ data in
      pbind (build_layer c params secret_key 0 (node_pub_key (last route)) destination_address buffer)
        (\<lambda>buffer.
      pbind (build_layers c params secret_key 0 (rev route) buffer) (\<lambda>buffer.
      Some (Inr \<lparr>mix_params = params, op_payload = buffer\<rparr>)))))))"

definition outfox_decode_mix_layer ::
    "outfox_crypto \<Rightarrow> OutfoxPacket \<Rightarrow> usize \<Rightarrow> bytes \<Rightarrow> (OutfoxError + bytes \<times> OutfoxPacket) option" where
  "outfox_decode_mix_layer c self layer mix_secret_key =
     pbind (panicking (stage_params self layer)) (\<lambda>((lb, ub), params).
     pbind (panicking (slice (op_payload self) lb ub)) (\<lambda>part.
     pbind (decode_mix_layer c params part mix_secret_key) (\<lambda>(routing_data, part').
     pbind (panicking (copy_from_slice (op_payload self) lb ub part')) (\<lambda>buffer.
     Some (Inr (routing_data, self\<lparr>op_payload := buffer\<rparr>))))))"

definition update_routing_information :: "OutfoxPacket \<Rightarrow> usize \<Rightarrow> (OutfoxError + OutfoxPacket) option" where
  "update_routing_information self layer =
     pbind (panicking (swap_remove (routing_information_length_by_stage (mix_params self) @ [0]) layer))
       (\<lambda>routing_info.
       if length routing_info \<noteq> DEFAULT_HOPS then Some (Inl TryFromSlice)
       else Some (Inr (self\<lparr>mix_params := (mix_params self)
                              \<lparr>routing_information_length_by_stage := routing_info\<rparr>\<rparr>)))"

definition is_final_hop :: "OutfoxPacket \<Rightarrow> bool" where
  "is_final_hop self \<longleftrightarrow> list_all (\<lambda>x. x = 0) (routing_information_length_by_stage (mix_params self))"

text \<open>The search for the outermost layer that is still encrypted.\<close>

fun next_layer_loop :: "usize \<Rightarrow> byte list \<Rightarrow> usize" where
  "next_layer_loop i [] = DEFAULT_HOPS - 1"
| "next_layer_loop i (len # lens) =
     (if len = 32 then DEFAULT_HOPS - 1 - i else next_layer_loop (i + 1) lens)"

definition next_layer :: "OutfoxPacket \<Rightarrow> usize" where
  "next_layer self = next_layer_loop 0 (rev (routing_information_length_by_stage (mix_params self)))"

definition decode_next_layer ::
    "outfox_crypto \<Rightarrow> OutfoxPacket \<Rightarrow> bytes \<Rightarrow> (OutfoxError + bytes \<times> OutfoxPacket) option" where
  "decode_next_layer c self mix_secret_key =
     (let layer = next_layer self in
      pbind (outfox_decode_mix_layer c self layer mix_secret_key) (\<lambda>(_, self).
      pbind (update_routing_information self layer) (\<lambda>self.
      pbind (panicking (get_stage_params (mix_params self) layer)) (\<lambda>((lb, ub), params).
      pbind (panicking (slice (op_payload self) lb ub)) (\<lambda>part.
      pbind (panicking (case routing_data_range params of (rl, ru) \<Rightarrow> slice part rl ru)) (\<lambda>routing_bytes.
      if length routing_bytes \<noteq> 32 then Some (Inl TryFromSlice)
      else Some (Inr (routing_bytes, self))))))))"

section \<open>What the primitives promise\<close>

text \<open>
  The lengths of the primitives' outputs, that the stream cipher and the hash have an output for
  every input, that decryption undoes encryption, and that Diffie-Hellman commutes.
\<close>

definition aead_ok :: "outfox_crypto \<Rightarrow> bool" where
  "aead_ok c \<longleftrightarrow> (\<forall>k p. length k = 32 \<longrightarrow> (\<exists>ct tag. aead_encrypt c k p = Inr (ct, tag)
     \<and> length ct = length p \<and> length tag = 16 \<and> aead_decrypt c k tag ct = Inr p))"

definition dh_ok :: "outfox_crypto \<Rightarrow> bool" where
  "dh_ok c \<longleftrightarrow>
     (\<forall>s. length s = 32 \<longrightarrow> length (public_key c s) = 32)
   \<and> (\<forall>s p. length s = 32 \<longrightarrow> length p = 32 \<longrightarrow> length (scalar_mult c s p) = 32)
   \<and> (\<forall>s t. length s = 32 \<longrightarrow> length t = 32 \<longrightarrow>
        scalar_mult c s (public_key c t) = scalar_mult c t (public_key c s))"

definition stream_ok :: "outfox_crypto \<Rightarrow> bool" where
  "stream_ok c \<longleftrightarrow>
     (\<forall>k n l. length (keystream c k n l) = l) \<and> (\<forall>k m. length (keyed_hash c k m) = 32)"

section \<open>The lion transform is a permutation\<close>

lemma length_xor_bytes [simp]: "length (xor_bytes xs ys) = min (length xs) (length ys)"
  by (simp add: xor_bytes_def)

lemma xor_bytes_cancel: "length xs \<le> length ys \<Longrightarrow> xor_bytes (xor_bytes xs ys) ys = xs"
  by (induction xs ys rule: list_induct2') (auto simp: xor_bytes_def xor.assoc)

lemma apply_keystream_cancel:
  "stream_ok c \<Longrightarrow> apply_keystream c k n (apply_keystream c k n xs) = xs"
  by (simp add: apply_keystream_def stream_ok_def xor_bytes_cancel)

lemma length_apply_keystream [simp]: "stream_ok c \<Longrightarrow> length (apply_keystream c k n xs) = length xs"
  by (simp add: apply_keystream_def stream_ok_def)

lemma length_lion:
  assumes "stream_ok c" "lion_transform c m k ks = Inr m'"
  shows "length m' = length m"
  using assms
  by (auto simp: lion_transform_def Let_def stream_ok_def split: if_splits prod.splits)

lemma lion_transform_ok:
  "length k = 32 \<Longrightarrow> 48 \<le> length m \<Longrightarrow> \<exists>m'. lion_transform c m k ks = Inr m'"
  by (simp add: lion_transform_def Let_def split: prod.splits)

lemma lion_transform_inverse:
  assumes ok: "stream_ok c" and m: "lion_transform c m k (s0, s1, s2) = Inr m'"
  shows "lion_transform c m' k (s2, s1, s0) = Inr m"
proof -
  define k0 k1 k2 where "k0 = derive_key c (CONTEXT @ nat_to_string (unat s0)) k"
    and "k1 = derive_key c (CONTEXT @ nat_to_string (unat s1)) k"
    and "k2 = derive_key c (CONTEXT @ nat_to_string (unat s2)) k"
  define L R where "L = take 24 m" and "R = drop 24 m"
  define R1 where "R1 = apply_keystream c k0 L R"
  define L1 where "L1 = xor_bytes L (take 24 (keyed_hash c k1 R1))"
  define R2 where "R2 = apply_keystream c k2 L1 R1"
  from m have k: "length k = 32" and len: "48 \<le> length m" and m': "m' = L1 @ R2"
    by (auto simp: lion_transform_def Let_def L_def R_def R1_def L1_def R2_def k0_def k1_def k2_def split: if_splits)
  have hash: "length (keyed_hash c key msg) = 32" for key msg using ok by (simp add: stream_ok_def)
  have lens: "length L = 24" "length L1 = 24" "length R2 = length m - 24"
    using len ok hash by (simp_all add: L_def L1_def R2_def R1_def R_def)
  have R1: "apply_keystream c k2 L1 R2 = R1" unfolding R2_def by (rule apply_keystream_cancel [OF ok])
  have L: "xor_bytes L1 (take 24 (keyed_hash c k1 R1)) = L"
    unfolding L1_def using lens hash by (intro xor_bytes_cancel) simp
  have R: "apply_keystream c k0 L R1 = R" unfolding R1_def by (rule apply_keystream_cancel [OF ok])
  have "lion_transform c m' k (s2, s1, s0) = Inr (L @ R)"
    unfolding lion_transform_def prod.case k0_def [symmetric] k1_def [symmetric] k2_def [symmetric] m' Let_def
    using k len lens R1 L R by simp
  then show ?thesis by (simp add: L_def R_def)
qed

lemma lion_decrypt_encrypt:
  "stream_ok c \<Longrightarrow> lion_transform_encrypt c m k = Inr m' \<Longrightarrow> lion_transform_decrypt c m' k = Inr m"
  unfolding lion_transform_encrypt_def lion_transform_decrypt_def by (rule lion_transform_inverse)

section \<open>The stages\<close>

definition stage :: "u16 \<Rightarrow> nat \<Rightarrow> MixStageParameters" where
  "stage len k = \<lparr>msp_routing_information_length_bytes = 32,
     msp_remaining_header_length_bytes = of_nat (80 * k), msp_payload_length_bytes = len\<rparr>"

lemma stages_Cons: "ROUTING_INFORMATION_LENGTH_BY_STAGE = [32, 32, 32, 32]"
  by (simp add: ROUTING_INFORMATION_LENGTH_BY_STAGE_def replicate_numeral)

lemma total_packet_length_eq: "total_packet_length p = unat (mcp_payload_length_bytes p) + 320"
  by (simp add: total_packet_length_def stages_Cons
      mix_params_payload_length_bytes_def groupelementbytes_def tagbytes_def)

lemma stage_fields:
  assumes "k < 4"
  shows "unat (msp_routing_information_length_bytes (stage len k)) = 32"
    and "unat (msp_remaining_header_length_bytes (stage len k)) = 80 * k"
    and "unat (msp_payload_length_bytes (stage len k)) = unat len"
proof -
  have "unat (of_nat (80 * k) :: u16) = 80 * k" using assms by (subst unat_of_nat) simp
  then show "unat (msp_remaining_header_length_bytes (stage len k)) = 80 * k" by (simp only: stage_def MixStageParameters.select_convs)
qed (simp_all add: stage_def)

lemma incoming_stage: "k < 4 \<Longrightarrow> incoming_packet_length (stage len k) = 80 * (k + 1) + unat len"
  by (simp add: incoming_packet_length_def outgoing_packet_length_def stage_fields groupelementbytes_def tagbytes_def)

lemma stage_ranges:
  assumes "k < 4"
  shows "pub_element_range (stage len k) = (0, 32)" "tag_range (stage len k) = (32, 48)"
    "routing_data_range (stage len k) = (48, 80)" "header_range (stage len k) = (48, 80 + 80 * k)"
    "payload_range (stage len k) = (80 + 80 * k, 80 + 80 * k + unat len)"
  using assms
  by (simp_all add: pub_element_range_def tag_range_def routing_data_range_def header_range_def
      payload_range_def incoming_stage stage_fields groupelementbytes_def tagbytes_def)

lemma get_stage_params_eq:
  assumes "k < 4"
  shows "get_stage_params p k
    = Some ((80 * (3 - k), unat (mcp_payload_length_bytes p) + 320), stage (mcp_payload_length_bytes p) k)"
proof -
  have "k = 0 \<or> k = 1 \<or> k = 2 \<or> k = 3" using assms by linarith
  then show ?thesis
    using incoming_stage [of k "mcp_payload_length_bytes p"] assms
    by (auto simp: get_stage_params_def stages_Cons Let_def total_packet_length_eq usize_sub_def stage_def)
qed

section \<open>One layer on a structured buffer\<close>

lemma slice_mid: "length a = lb \<Longrightarrow> length b = ub - lb \<Longrightarrow> lb \<le> ub \<Longrightarrow> slice (a @ b @ r) lb ub = Some b"
  by (simp add: slice_def)

lemma copy_mid:
  "length a = lb \<Longrightarrow> length b = ub - lb \<Longrightarrow> length b' = ub - lb \<Longrightarrow> lb \<le> ub \<Longrightarrow>
   copy_from_slice (a @ b @ r) lb ub b' = Some (a @ b' @ r)"
  by (simp add: copy_from_slice_def)

lemma split_80:
  assumes "length (x :: bytes) = 80"
  obtains x1 x2 x3 where "x = x1 @ x2 @ x3" "length x1 = 32" "length x2 = 16" "length x3 = 32"
proof
  show "x = take 32 x @ take 16 (drop 32 x) @ drop 48 x"
    using append_take_drop_id [of 16 "drop 32 x"] append_take_drop_id [of 32 x] by simp
qed (use assms in simp_all)

text \<open>The header and payload of a layer, from those of the layer inside it.\<close>

definition sealed ::
    "outfox_crypto \<Rightarrow> bytes \<Rightarrow> bytes \<Rightarrow> bytes \<Rightarrow> bytes \<times> bytes \<Rightarrow> bytes \<times> bytes \<Rightarrow> bool" where
  "sealed c key pub dest inner outer \<longleftrightarrow>
     (\<exists>ct tag msg'. aead_encrypt c key (dest @ fst inner) = Inr (ct, tag)
        \<and> lion_transform_encrypt c (snd inner) key = Inr msg'
        \<and> outer = (pub @ tag @ ct, msg'))"

lemma sealed_exists:
  assumes "aead_ok c" "length key = 32" "48 \<le> length (snd inner)"
  shows "\<exists>outer. sealed c key pub dest inner outer"
  using assms lion_transform_ok [of key "snd inner" c]
  by (fastforce simp: sealed_def aead_ok_def lion_transform_encrypt_def)

lemma aead_okD:
  assumes "aead_ok c" "length k = 32" "aead_encrypt c k p = Inr (ct, tag)"
  shows "length ct = length p" "length tag = 16" "aead_decrypt c k tag ct = Inr p"
proof -
  obtain ct' tag' where "aead_encrypt c k p = Inr (ct', tag')" "length ct' = length p" "length tag' = 16"
    "aead_decrypt c k tag' ct' = Inr p"
    using assms(1,2) unfolding aead_ok_def by blast
  then show "length ct = length p" "length tag = 16" "aead_decrypt c k tag ct = Inr p"
    using assms(3) by simp_all
qed

lemma length_lion_encrypt:
  "stream_ok c \<Longrightarrow> lion_transform_encrypt c m k = Inr m' \<Longrightarrow> length m' = length m"
  unfolding lion_transform_encrypt_def by (rule length_lion)

lemma sealed_lengths:
  assumes "aead_ok c" "stream_ok c" "sealed c key pub dest inner outer" "length key = 32"
    and "length pub = 32" "length dest = 32"
  shows "length (fst outer) = 80 + length (fst inner)" "length (snd outer) = length (snd inner)"
proof -
  obtain ct tag msg' where s: "aead_encrypt c key (dest @ fst inner) = Inr (ct, tag)"
    "lion_transform_encrypt c (snd inner) key = Inr msg'" "outer = (pub @ tag @ ct, msg')"
    using assms(3) by (auto simp: sealed_def)
  show "length (fst outer) = 80 + length (fst inner)" "length (snd outer) = length (snd inner)"
    using s(3) assms(5,6) aead_okD [OF assms(1,4) s(1)] length_lion_encrypt [OF assms(2) s(2)] by auto
qed

lemma encode_mix_layer_eq:
  assumes ok: "aead_ok c" "stream_ok c" "dh_ok c" and k: "k < 4"
    and x: "length x = 80" and inner: "length hdr = 80 * k" "length msg = unat len"
    and keys: "length sk = 32" "length pk = 32" "length dest = 32"
    and s: "sealed c (scalar_mult c sk pk) (public_key c sk) dest (hdr, msg) (hdr', msg')"
  shows "encode_mix_layer c (stage len k) (x @ hdr @ msg) sk pk dest
    = Some (Inr (scalar_mult c sk pk, hdr' @ msg'))"
proof -
  define K where "K = scalar_mult c sk pk"
  obtain ct tag where ct: "aead_encrypt c K (dest @ hdr) = Inr (ct, tag)"
    and lion: "lion_transform_encrypt c msg K = Inr msg'" and hdr': "hdr' = public_key c sk @ tag @ ct"
    using s by (auto simp: sealed_def K_def)
  have K: "length K = 32" and pub: "length (public_key c sk) = 32"
    using ok(3) keys by (simp_all add: dh_ok_def K_def)
  have lens: "length ct = 32 + 80 * k" "length tag = 16" "length msg' = unat len"
    using aead_okD [OF ok(1) K ct] inner keys(3) length_lion_encrypt [OF ok(2) lion] by simp_all
  obtain x1 x2 x3 where xs: "x = x1 @ x2 @ x3" "length x1 = 32" "length x2 = 16" "length x3 = 32"
    using split_80 [OF x] by blast
  note simps = stage_ranges [OF k] stage_fields [OF k] incoming_stage [OF k] Let_def
  have c1: "copy_from_slice (x1 @ x2 @ x3 @ hdr @ msg) 48 80 dest = Some (x1 @ x2 @ dest @ hdr @ msg)"
    using copy_mid [of "x1 @ x2" 48 x3 80 dest "hdr @ msg"] xs keys by simp
  have s1: "slice (x1 @ x2 @ dest @ hdr @ msg) 48 (80 + 80 * k) = Some (dest @ hdr)"
    using slice_mid [of "x1 @ x2" 48 "dest @ hdr" "80 + 80 * k" msg] xs keys inner by simp
  have c2: "copy_from_slice (x1 @ x2 @ dest @ hdr @ msg) 48 (80 + 80 * k) ct = Some (x1 @ x2 @ ct @ msg)"
    using copy_mid [of "x1 @ x2" 48 "dest @ hdr" "80 + 80 * k" ct msg] xs keys inner lens by simp
  have c3: "copy_from_slice (x1 @ x2 @ ct @ msg) 32 48 tag = Some (x1 @ tag @ ct @ msg)"
    using copy_mid [of x1 32 x2 48 tag "ct @ msg"] xs lens by simp
  have c4: "copy_from_slice (x1 @ tag @ ct @ msg) 0 32 (public_key c sk) = Some (public_key c sk @ tag @ ct @ msg)"
    using copy_mid [of "[]" 0 x1 32 "public_key c sk" "tag @ ct @ msg"] xs pub by simp
  have s2: "slice (public_key c sk @ tag @ ct @ msg) (80 + 80 * k) (80 + 80 * k + unat len) = Some msg"
    using slice_mid [of "public_key c sk @ tag @ ct" "80 + 80 * k" msg "80 + 80 * k + unat len" "[]"] pub lens inner by simp
  have c5: "copy_from_slice (public_key c sk @ tag @ ct @ msg) (80 + 80 * k) (80 + 80 * k + unat len) msg'
      = Some (public_key c sk @ tag @ ct @ msg')"
    using copy_mid [of "public_key c sk @ tag @ ct" "80 + 80 * k" msg "80 + 80 * k + unat len" msg' "[]"] pub lens inner by simp
  show ?thesis
    unfolding encode_mix_layer_def xs(1) simps prod.case K_def [symmetric] append_assoc
    using keys inner xs K ct lion by (simp add: c1 s1 c2 c3 c4 s2 c5 hdr')
qed

lemma decode_mix_layer_eq:
  assumes ok: "aead_ok c" "stream_ok c" and k: "k < 4"
    and inner: "length hdr = 80 * k" "length msg = unat len"
    and keys: "length msk = 32" "length pub = 32" "length dest = 32" "scalar_mult c msk pub = K" "length K = 32"
    and s: "sealed c K pub dest (hdr, msg) (hdr', msg')"
  shows "\<exists>x. length x = 48 \<and> decode_mix_layer c (stage len k) (hdr' @ msg') msk
    = Some (Inr (dest, x @ dest @ hdr @ msg))"
proof -
  obtain ct tag where ct: "aead_encrypt c K (dest @ hdr) = Inr (ct, tag)"
    and lion: "lion_transform_encrypt c msg K = Inr msg'" and hdr': "hdr' = pub @ tag @ ct"
    using s by (auto simp: sealed_def)
  have lens: "length ct = 32 + 80 * k" "length tag = 16" "length msg' = unat len"
    using aead_okD [OF ok(1) keys(5) ct] inner keys(3) length_lion_encrypt [OF ok(2) lion] by simp_all
  note dec = aead_okD(3) [OF ok(1) keys(5) ct]
  have unlion: "lion_transform_decrypt c msg' K = Inr msg" by (rule lion_decrypt_encrypt [OF ok(2) lion])
  note simps = stage_ranges [OF k] stage_fields [OF k] incoming_stage [OF k] Let_def
  have s0: "slice (pub @ tag @ ct @ msg') 0 32 = Some pub"
    using slice_mid [of "[]" 0 pub 32 "tag @ ct @ msg'"] keys by simp
  have s1: "slice (pub @ tag @ ct @ msg') 32 48 = Some tag"
    using slice_mid [of pub 32 tag 48 "ct @ msg'"] keys lens by simp
  have s2: "slice (pub @ tag @ ct @ msg') 48 (80 + 80 * k) = Some ct"
    using slice_mid [of "pub @ tag" 48 ct "80 + 80 * k" msg'] keys lens by simp
  have c1: "copy_from_slice (pub @ tag @ ct @ msg') 48 (80 + 80 * k) (dest @ hdr) = Some (pub @ tag @ dest @ hdr @ msg')"
    using copy_mid [of "pub @ tag" 48 ct "80 + 80 * k" "dest @ hdr" msg'] keys lens inner by simp
  have s3: "slice (pub @ tag @ dest @ hdr @ msg') 48 80 = Some dest"
    using slice_mid [of "pub @ tag" 48 dest 80 "hdr @ msg'"] keys lens by simp
  have s4: "slice (pub @ tag @ dest @ hdr @ msg') (80 + 80 * k) (80 + 80 * k + unat len) = Some msg'"
    using slice_mid [of "pub @ tag @ dest @ hdr" "80 + 80 * k" msg' "80 + 80 * k + unat len" "[]"] keys lens inner by simp
  have c2: "copy_from_slice (pub @ tag @ dest @ hdr @ msg') (80 + 80 * k) (80 + 80 * k + unat len) msg
      = Some (pub @ tag @ dest @ hdr @ msg)"
    using copy_mid [of "pub @ tag @ dest @ hdr" "80 + 80 * k" msg' "80 + 80 * k + unat len" msg "[]"] keys lens inner by simp
  have "decode_mix_layer c (stage len k) (hdr' @ msg') msk = Some (Inr (dest, (pub @ tag) @ dest @ hdr @ msg))"
    unfolding decode_mix_layer_def hdr' simps prod.case append_assoc
    using keys lens dec unlion by (simp add: s0 s1 s2 c1 s3 s4 c2)
  moreover have "length (pub @ tag) = 48" using keys lens by simp
  ultimately show ?thesis by blast
qed

section \<open>The onion\<close>

text \<open>A packet with \<open>k\<close> layers left: \<open>pre\<close> is what the layers already removed leave behind.\<close>

definition onion_packet :: "u16 \<Rightarrow> nat \<Rightarrow> bytes \<Rightarrow> bytes \<Rightarrow> bytes \<Rightarrow> OutfoxPacket" where
  "onion_packet len k pre hdr msg =
     \<lparr>mix_params = \<lparr>routing_information_length_by_stage = replicate k 32 @ replicate (4 - k) 0,
                   mcp_payload_length_bytes = len\<rparr>,
      op_payload = pre @ hdr @ msg\<rparr>"

lemma slice_tail: "length a = lb \<Longrightarrow> ub = lb + length b \<Longrightarrow> slice (a @ b) lb ub = Some b"
  by (simp add: slice_def)

lemma copy_tail:
  "length a = lb \<Longrightarrow> ub = lb + length b \<Longrightarrow> length b' = length b \<Longrightarrow>
   copy_from_slice (a @ b) lb ub b' = Some (a @ b')"
  by (simp add: copy_from_slice_def)

lemma build_layer_eq:
  assumes ok: "aead_ok c" "stream_ok c" "dh_ok c" and k: "k < 4" and len: "len = mcp_payload_length_bytes params"
    and pre: "length pre = 80 * (3 - k)" and x: "length x = 80"
    and inner: "length hdr = 80 * k" "length msg = unat len"
    and keys: "length sk = 32" "length pk = 32" "length dest = 32"
    and s: "sealed c (scalar_mult c sk pk) (public_key c sk) dest (hdr, msg) (hdr', msg')"
  shows "build_layer c params sk k pk dest (pre @ x @ hdr @ msg) = Some (Inr (pre @ hdr' @ msg'))"
proof -
  have K: "length (scalar_mult c sk pk) = 32" "length (public_key c sk) = 32"
    using ok(3) keys by (simp_all add: dh_ok_def)
  have lens: "length hdr' = 80 + 80 * k" "length msg' = unat len"
    using sealed_lengths [OF ok(1,2) s K keys(3)] inner by simp_all
  have total: "unat len + 320 = 80 * (3 - k) + (80 + 80 * k + unat len)" using k by simp
  have sl: "slice (pre @ x @ hdr @ msg) (80 * (3 - k)) (unat len + 320) = Some (x @ hdr @ msg)"
    by (rule slice_tail [OF pre], unfold total) (use x lens inner keys in simp)
  have cp: "copy_from_slice (pre @ x @ hdr @ msg) (80 * (3 - k)) (unat len + 320) (hdr' @ msg')
      = Some (pre @ hdr' @ msg')"
    by (rule copy_tail [OF pre], unfold total) (use x lens inner keys in simp_all)
  show ?thesis
    using sl cp encode_mix_layer_eq [OF ok k x inner keys s]
    by (simp add: build_layer_def get_stage_params_eq [OF k] flip: len)
qed

lemma next_layer_onion:
  assumes "k < 4"
  shows "next_layer (onion_packet len (Suc k) pre hdr msg) = k"
proof -
  have "k = 0 \<or> k = 1 \<or> k = 2 \<or> k = 3" using assms by linarith
  then show ?thesis
    by (auto simp: next_layer_def onion_packet_def replicate_numeral)
qed

lemma swap_remove_routing:
  assumes "k < 4"
  shows "swap_remove ((replicate (Suc k) 32 @ replicate (3 - k) 0) @ [0 :: byte]) k
    = Some (replicate k 32 @ replicate (4 - k) 0)"
proof -
  have "k = 0 \<or> k = 1 \<or> k = 2 \<or> k = 3" using assms by linarith
  then show ?thesis
    by (auto simp: swap_remove_def replicate_numeral)
qed

lemma decode_next_layer_onion:
  assumes ok: "aead_ok c" "stream_ok c" and k: "k < 4"
    and pre: "length pre = 80 * (3 - k)" and inner: "length hdr = 80 * k" "length msg = unat len"
    and keys: "length msk = 32" "length pub = 32" "length dest = 32" "scalar_mult c msk pub = K" "length K = 32"
    and s: "sealed c K pub dest (hdr, msg) (hdr', msg')"
  shows "\<exists>pre'. length pre' = 80 * (4 - k)
     \<and> decode_next_layer c (onion_packet len (Suc k) pre hdr' msg') msk
         = Some (Inr (dest, onion_packet len k pre' hdr msg))"
proof -
  let ?p = "onion_packet len (Suc k) pre hdr' msg'"
  have lens: "length hdr' = 80 + 80 * k" "length msg' = unat len"
    using sealed_lengths [OF ok s keys(5,2,3)] inner by simp_all
  obtain x where x: "length x = 48"
    and dec: "decode_mix_layer c (stage len k) (hdr' @ msg') msk = Some (Inr (dest, x @ dest @ hdr @ msg))"
    using decode_mix_layer_eq [OF ok k inner keys s] by blast
  have total: "unat len + 320 = 80 * (3 - k) + (80 + 80 * k + unat len)" using k by simp
  have sl: "slice (pre @ hdr' @ msg') (80 * (3 - k)) (unat len + 320) = Some (hdr' @ msg')"
    by (rule slice_tail [OF pre], unfold total) (use x lens inner keys in simp)
  have cp: "copy_from_slice (pre @ hdr' @ msg') (80 * (3 - k)) (unat len + 320) (x @ dest @ hdr @ msg)
      = Some (pre @ x @ dest @ hdr @ msg)"
    by (rule copy_tail [OF pre], unfold total) (use x lens inner keys in simp_all)
  have sl2: "slice (pre @ x @ dest @ hdr @ msg) (80 * (3 - k)) (unat len + 320) = Some (x @ dest @ hdr @ msg)"
    by (rule slice_tail [OF pre], unfold total) (use x lens inner keys in simp)
  have rt: "slice (x @ dest @ hdr @ msg) 48 80 = Some dest"
    using slice_mid [of x 48 dest 80 "hdr @ msg"] x keys(3) by simp
  have params: "mcp_payload_length_bytes (mix_params ?p) = len" "op_payload ?p = pre @ hdr' @ msg'"
    "routing_information_length_by_stage (mix_params ?p) = replicate (Suc k) 32 @ replicate (3 - k) 0"
    by (simp_all add: onion_packet_def)
  define p1 where "p1 = ?p\<lparr>op_payload := pre @ x @ dest @ hdr @ msg\<rparr>"
  have d1: "outfox_decode_mix_layer c ?p k msk = Some (Inr (dest, p1))"
    using sl cp dec
    by (simp add: outfox_decode_mix_layer_def stage_params_def get_stage_params_eq [OF k] params p1_def)
  have "length (replicate k (32 :: byte) @ replicate (4 - k) 0) = 4" using k by simp
  then have d2: "update_routing_information p1 k = Some (Inr (onion_packet len k (pre @ x @ dest) hdr msg))"
    using swap_remove_routing [OF k]
    by (simp add: update_routing_information_def p1_def onion_packet_def)
  have "decode_next_layer c ?p msk = Some (Inr (dest, onion_packet len k (pre @ x @ dest) hdr msg))"
    unfolding decode_next_layer_def Let_def next_layer_onion [OF k] d1 pbind_simps prod.case d2
    using sl2 rt keys(3)
    by (simp add: get_stage_params_eq [OF k] onion_packet_def stage_ranges [OF k])
  moreover have "length (pre @ x @ dest) = 80 * (4 - k)" using pre x keys(3) k by simp
  ultimately show ?thesis by blast
qed

section \<open>A packet for a route\<close>

text \<open>
  The nested layers of a packet, outermost first: each is the shared secret of its node and the
  address the node learns.
\<close>

primrec layered :: "outfox_crypto \<Rightarrow> bytes \<Rightarrow> bytes \<Rightarrow> (bytes \<times> bytes) list \<Rightarrow> bytes \<times> bytes \<Rightarrow> bool" where
  "layered c pub region [] outer \<longleftrightarrow> outer = ([], region)"
| "layered c pub region (l # ls) outer \<longleftrightarrow>
     (\<exists>inner. layered c pub region ls inner \<and> sealed c (fst l) pub (snd l) inner outer)"

definition layers_ok :: "(bytes \<times> bytes) list \<Rightarrow> bool" where
  "layers_ok ls \<longleftrightarrow> (\<forall>(k, d) \<in> set ls. length k = 32 \<and> length d = 32)"

lemma layered_lengths:
  assumes "aead_ok c" "stream_ok c" "length pub = 32" "layers_ok ls" "layered c pub region ls outer"
  shows "length (fst outer) = 80 * length ls" "length (snd outer) = length region"
  using assms(4,5)
proof (induction ls arbitrary: outer)
  case (Cons l ls)
  { case 1
    then obtain inner where "layered c pub region ls inner" "sealed c (fst l) pub (snd l) inner outer" by auto
    moreover have "length (fst l) = 32" "length (snd l) = 32" "layers_ok ls" using 1 by (auto simp: layers_ok_def)
    ultimately show ?case using Cons.IH(1) sealed_lengths(1) [OF assms(1,2)] assms(3) by fastforce
  next
    case 2
    then obtain inner where "layered c pub region ls inner" "sealed c (fst l) pub (snd l) inner outer" by auto
    moreover have "length (fst l) = 32" "length (snd l) = 32" "layers_ok ls" using 2 by (auto simp: layers_ok_def)
    ultimately show ?case using Cons.IH(2) sealed_lengths(2) [OF assms(1,2)] assms(3) by fastforce }
qed simp_all

definition crypto_ok :: "outfox_crypto \<Rightarrow> bool" where
  "crypto_ok c \<longleftrightarrow> aead_ok c \<and> stream_ok c \<and> dh_ok c"

lemma build_layer_layered:
  assumes ok: "crypto_ok c" and k: "length ls = k" "k < 4"
    and P: "unat (mcp_payload_length_bytes params) = length region" "48 \<le> length region"
    and keys: "length sk = 32" "length pk = 32" "length dest = 32"
    and ls: "layers_ok ls" "layered c (public_key c sk) region ls inner"
  shows "\<exists>outer. build_layer c params sk k pk dest (replicate (80 * (4 - k)) 0 @ fst inner @ snd inner)
      = Some (Inr (replicate (80 * (3 - k)) 0 @ fst outer @ snd outer))
    \<and> layered c (public_key c sk) region ((scalar_mult c sk pk, dest) # ls) outer
    \<and> layers_ok ((scalar_mult c sk pk, dest) # ls)"
proof -
  have ok': "aead_ok c" "stream_ok c" "dh_ok c" using ok by (simp_all add: crypto_ok_def)
  have K: "length (scalar_mult c sk pk) = 32" "length (public_key c sk) = 32"
    using ok'(3) keys by (simp_all add: dh_ok_def)
  have lens: "length (fst inner) = 80 * k" "length (snd inner) = length region"
    using layered_lengths [OF ok'(1,2) K(2) ls] k by simp_all
  obtain outer where s: "sealed c (scalar_mult c sk pk) (public_key c sk) dest inner outer"
    using sealed_exists [OF ok'(1) K(1), of inner "public_key c sk" dest] lens P by auto
  have "80 * (4 - k) = 80 * (3 - k) + 80" using k(2) by linarith
  then have z: "replicate (80 * (4 - k)) (0 :: byte) = replicate (80 * (3 - k)) 0 @ replicate 80 0"
    by (simp only: replicate_add)
  have "build_layer c params sk k pk dest (replicate (80 * (3 - k)) 0 @ replicate 80 0 @ fst inner @ snd inner)
      = Some (Inr (replicate (80 * (3 - k)) 0 @ fst outer @ snd outer))"
    by (rule build_layer_eq [OF ok' k(2) refl _ _ lens(1) _ keys]) (use s lens P in simp_all)
  then show ?thesis using s ls K keys unfolding z
    by (intro exI [of _ outer] conjI) (auto simp: layers_ok_def simp del: split_paired_Ex)
qed

lemma build_layers_layered:
  assumes ok: "crypto_ok c" and idx: "idx + length nodes < 4"
    and P: "unat (mcp_payload_length_bytes params) = length region" "48 \<le> length region"
    and keys: "length sk = 32" "\<forall>n \<in> set (n # nodes). length (node_pub_key n) = 32 \<and> length (node_address n) = 32"
    and ls: "length ls = idx + 1" "layers_ok ls" "layered c (public_key c sk) region ls inner"
  shows "\<exists>outer. build_layers c params sk idx (n # nodes) (replicate (80 * (3 - idx)) 0 @ fst inner @ snd inner)
      = Some (Inr (replicate (80 * (3 - (idx + length nodes))) 0 @ fst outer @ snd outer))
    \<and> layered c (public_key c sk) region
         (rev (zip (map (\<lambda>n. scalar_mult c sk (node_pub_key n)) nodes) (map node_address (n # nodes))) @ ls) outer"
  using idx keys(2) ls
proof (induction nodes arbitrary: n idx ls inner)
  case (Cons m nodes)
  have k: "idx + 1 < 4" using Cons.prems(1) by simp
  have "\<exists>outer. build_layer c params sk (idx + 1) (node_pub_key m) (node_address n)
        (replicate (80 * (4 - (idx + 1))) 0 @ fst inner @ snd inner)
      = Some (Inr (replicate (80 * (3 - (idx + 1))) 0 @ fst outer @ snd outer))
    \<and> layered c (public_key c sk) region ((scalar_mult c sk (node_pub_key m), node_address n) # ls) outer
    \<and> layers_ok ((scalar_mult c sk (node_pub_key m), node_address n) # ls)"
    by (rule build_layer_layered [OF ok Cons.prems(3) k P keys(1) _ _ Cons.prems(4,5)]) (use Cons.prems(2) in simp_all)
  moreover have "4 - (idx + 1) = 3 - idx" by simp
  ultimately obtain outer where o: "build_layer c params sk (idx + 1) (node_pub_key m) (node_address n)
        (replicate (80 * (3 - idx)) 0 @ fst inner @ snd inner)
      = Some (Inr (replicate (80 * (3 - (idx + 1))) 0 @ fst outer @ snd outer))"
    "layered c (public_key c sk) region ((scalar_mult c sk (node_pub_key m), node_address n) # ls) outer"
    "layers_ok ((scalar_mult c sk (node_pub_key m), node_address n) # ls)" by metis
  have "\<exists>outer'. build_layers c params sk (idx + 1) (m # nodes) (replicate (80 * (3 - (idx + 1))) 0 @ fst outer @ snd outer)
      = Some (Inr (replicate (80 * (3 - (idx + 1 + length nodes))) 0 @ fst outer' @ snd outer'))
    \<and> layered c (public_key c sk) region
         (rev (zip (map (\<lambda>n. scalar_mult c sk (node_pub_key n)) nodes) (map node_address (m # nodes)))
           @ (scalar_mult c sk (node_pub_key m), node_address n) # ls) outer'"
    by (rule Cons.IH [OF _ _ _ o(3,2)]) (use Cons.prems in simp_all)
  then show ?case using o(1) by (simp add: pbind_simps del: split_paired_Ex)
qed (auto simp del: split_paired_Ex)

section \<open>The path of a packet\<close>

text \<open>The nodes of the route process the packet one after the other.\<close>

primrec traverse ::
    "outfox_crypto \<Rightarrow> bytes list \<Rightarrow> OutfoxPacket \<Rightarrow> (OutfoxError + bytes list \<times> OutfoxPacket) option" where
  "traverse c [] p = Some (Inr ([], p))"
| "traverse c (sk # sks) p =
     pbind (decode_next_layer c p sk) (\<lambda>(address, p).
     pbind (traverse c sks p) (\<lambda>(addresses, p). Some (Inr (address # addresses, p))))"

lemma traverse_layered:
  assumes ok: "crypto_ok c" and pub: "length pub = 32" and P: "unat len = length region"
    and ls: "length ls \<le> 4" "layers_ok ls" "layered c pub region ls outer"
    and sks: "list_all2 (\<lambda>sk l. length sk = 32 \<and> scalar_mult c sk pub = fst l) sks ls"
    and pre: "length pre = 80 * (4 - length ls)"
  shows "\<exists>pre'. length pre' = 320 \<and> traverse c sks (onion_packet len (length ls) pre (fst outer) (snd outer))
    = Some (Inr (map snd ls, onion_packet len 0 pre' [] region))"
  using sks ls pre
proof (induction sks ls arbitrary: outer pre rule: list_all2_induct)
  case (Cons sk sks l ls)
  have ok': "aead_ok c" "stream_ok c" using ok by (simp_all add: crypto_ok_def)
  obtain inner where inner: "layered c pub region ls inner" "sealed c (fst l) pub (snd l) inner outer"
    using Cons.prems(3) by auto
  have l: "length (fst l) = 32" "length (snd l) = 32" "layers_ok ls" using Cons.prems(2) by (auto simp: layers_ok_def)
  note lens = layered_lengths [OF ok' pub l(3) inner(1)]
  have k: "length ls < 4" using Cons.prems(1) by simp
  have "\<exists>pre'. length pre' = 80 * (4 - length ls)
     \<and> decode_next_layer c (onion_packet len (Suc (length ls)) pre (fst outer) (snd outer)) sk
         = Some (Inr (snd l, onion_packet len (length ls) pre' (fst inner) (snd inner)))"
    by (rule decode_next_layer_onion [where K = "fst l" and pub = pub, OF ok' k _ lens(1)])
      (use Cons inner l lens P pub in simp_all)
  then obtain pre' where p: "length pre' = 80 * (4 - length ls)"
    "decode_next_layer c (onion_packet len (Suc (length ls)) pre (fst outer) (snd outer)) sk
         = Some (Inr (snd l, onion_packet len (length ls) pre' (fst inner) (snd inner)))" by blast
  show ?case using Cons.IH [OF _ l(3) inner(1) p(1)] k p(2) by auto
qed auto

lemma recover_plaintext_region:
  assumes P: "unat len = length (replicate n 0 @ MAGIC_SLICE @ data)" and pre: "length pre = 320"
  shows "recover_plaintext (onion_packet len 0 pre [] (replicate n 0 @ MAGIC_SLICE @ data)) = Some (Inr data)"
proof -
  have sp: "stage_params (onion_packet len 0 pre [] (replicate n 0 @ MAGIC_SLICE @ data)) 3
    = Some ((0, unat len + 320), stage len 3)"
    using get_stage_params_eq [of 3] by (simp add: stage_params_def onion_packet_def)
  have dw: "dropWhile (\<lambda>x. x = 0) (replicate n 0 @ MAGIC_SLICE @ data) = MAGIC_SLICE @ data"
    by (simp add: dropWhile_append)
  have sl: "slice (pre @ replicate n 0 @ MAGIC_SLICE @ data) 320 (320 + unat len)
     = Some (replicate n 0 @ MAGIC_SLICE @ data)"
    by (rule slice_tail [OF pre]) (simp add: P)
  have r: "outfox_payload_range (onion_packet len 0 pre [] (replicate n 0 @ MAGIC_SLICE @ data)) = Some (320, 320 + unat len)"
    using sp stage_ranges(5) [of 3 len] by (simp add: outfox_payload_range_def)
  show ?thesis
    unfolding recover_plaintext_def r using sl dw by (simp add: onion_packet_def split_at_def)
qed

section \<open>Properties\<close>

definition packet_payload_size :: "usize \<Rightarrow> usize" where
  "packet_payload_size n = (if n < MIN_PACKET_SIZE then MIN_PACKET_SIZE else n)"

definition region_of :: "usize \<Rightarrow> bytes \<Rightarrow> bytes" where
  "region_of n data = replicate (packet_payload_size n - length data) 0 @ MAGIC_SLICE @ data"

lemma of_nat_u16: "n < 65536 \<Longrightarrow> unat (of_nat n :: u16) = n"
  by (subst unat_of_nat) simp

lemma outfox_build_layered:
  assumes ok: "crypto_ok c" and sk: "length sk = 32"
    and route: "route = [n1, n2, n3, g]"
    and nodes: "\<forall>n \<in> set route. length (node_pub_key n) = 32 \<and> length (node_address n) = 32"
    and dest: "length dest = 32"
    and size: "length data \<le> packet_payload_size n" "packet_payload_size n + 3 < 65536"
  shows "\<exists>outer. outfox_build c sk d data route dest (Some n)
      = Some (Inr (onion_packet (of_nat (packet_payload_size n + 3)) 4 [] (fst outer) (snd outer)))
    \<and> layered c (public_key c sk) (region_of n data)
        (zip (map (\<lambda>n. scalar_mult c sk (node_pub_key n)) route) (map node_address (tl route) @ [dest])) outer"
proof -
  define P where "P = packet_payload_size n"
  define params where "params = mix_params_new (of_nat (P + 3))"
  define region where "region = region_of n data"
  have P: "48 \<le> P" "P + 3 < 65536" "length data \<le> P"
    using size by (simp_all add: P_def packet_payload_size_def)
  have regdef: "region = replicate (P - length data) 0 @ MAGIC_SLICE @ data" by (simp add: region_def region_of_def P_def)
  have reg: "length region = P + 3" using P by (simp add: regdef)
  have len: "mcp_payload_length_bytes params = of_nat (P + 3)"
    by (simp only: params_def mix_params_new_def MixCreationParameters.select_convs)
  have ulen: "unat (mcp_payload_length_bytes params) = length region" "48 \<le> length region"
    unfolding len reg using P by (simp_all only: of_nat_u16)
  have padding: "P + 323 - length data - 3 = 320 + (P - length data)" using P by linarith
  have buf: "replicate (P + 323 - length data - 3) 0 @ MAGIC_SLICE @ data = replicate 320 0 @ region"
    unfolding padding replicate_add regdef append_assoc ..
  obtain o0 where o0: "build_layer c params sk 0 (node_pub_key g) dest (replicate 320 0 @ region)
      = Some (Inr (replicate 240 0 @ fst o0 @ snd o0))"
    "layered c (public_key c sk) region [(scalar_mult c sk (node_pub_key g), dest)] o0"
    "layers_ok [(scalar_mult c sk (node_pub_key g), dest)]"
    using build_layer_layered [OF ok, of "[]" 0 params region sk "node_pub_key g" dest "([], region)"] ulen sk dest nodes
    unfolding route by (auto simp: layers_ok_def simp del: split_paired_Ex layered.simps(2))
  obtain o1 where o1: "build_layers c params sk 0 [g, n3, n2, n1] (replicate 240 0 @ fst o0 @ snd o0)
      = Some (Inr (fst o1 @ snd o1))"
    "layered c (public_key c sk) region
       (zip (map (\<lambda>n. scalar_mult c sk (node_pub_key n)) route) (map node_address (tl route) @ [dest])) o1"
    using build_layers_layered [OF ok, of 0 "[n3, n2, n1]" params region sk g
        "[(scalar_mult c sk (node_pub_key g), dest)]" o0] ulen sk nodes o0(2,3)
    unfolding route by (auto simp del: split_paired_Ex layered.simps(2) build_layers.simps)
  have "outfox_build c sk d data route dest (Some n)
      = Some (Inr \<lparr>mix_params = params, op_payload = fst o1 @ snd o1\<rparr>)"
  proof -
    have a: "usize_add (if n < MIN_PACKET_SIZE then MIN_PACKET_SIZE else n) (length MAGIC_SLICE) = Some (P + 3)"
      using P(2) unfolding P_def packet_payload_size_def by (simp add: usize_add_def)
    have t: "total_packet_length params = P + 323"
      unfolding total_packet_length_eq ulen(1) reg by simp
    have b: "usize_sub (P + 323) (length data) = Some (P + 323 - length data)"
      "usize_sub (P + 323 - length data) (length MAGIC_SLICE) = Some (P + 323 - length data - 3)"
      using P by (simp_all add: usize_sub_def)
    have r: "last route = g" "rev route = [g, n3, n2, n1]" by (simp_all add: route)
    show ?thesis
      unfolding outfox_build_def Let_def option.case a panicking_simps pbind_simps params_def [symmetric] t b buf r
        o0(1) o1(1) by simp
  qed
  moreover have "params = \<lparr>routing_information_length_by_stage = replicate 4 32 @ replicate (4 - 4) 0,
      mcp_payload_length_bytes = of_nat (P + 3)\<rparr>"
    by (simp add: params_def mix_params_new_def)
  ultimately show ?thesis
    using o1(2) unfolding onion_packet_def region_def P_def by (intro exI [of _ o1]) simp
qed

lemma layers_ok_route:
  assumes "crypto_ok c" "length sk = 32" "\<forall>n \<in> set route. length (node_pub_key n) = 32 \<and> length (node_address n) = 32"
    and "length dest = 32"
  shows "layers_ok (zip (map (\<lambda>n. scalar_mult c sk (node_pub_key n)) route) (map node_address (tl route) @ [dest]))"
proof -
  have "length (scalar_mult c sk (node_pub_key n)) = 32" if "n \<in> set route" for n
    using assms that by (simp add: crypto_ok_def dh_ok_def)
  moreover have "length a = 32" if a: "a \<in> set (map node_address (tl route) @ [dest])" for a
  proof (cases "a = dest")
    case False
    then obtain n where "n \<in> set (tl route)" "a = node_address n" using a by auto
    then show ?thesis using assms(3) by (cases route) auto
  qed (simp add: assms(4))
  ultimately show ?thesis
    unfolding layers_ok_def by (auto simp del: set_append elim!: in_set_zipE)
qed

lemma length_region_of: "length data \<le> packet_payload_size n \<Longrightarrow> length (region_of n data) = packet_payload_size n + 3"
  by (simp add: region_of_def)

text \<open>
  C3. A built Outfox packet travels its whole route. With primitives that keep their promises, for
  every route of four nodes, every destination and every message that fits the payload,
  \<open>build\<close> succeeds; the four nodes, each with its own secret key, remove one layer each and learn
  the address of their successor, the last one that of the destination; the packet is then at its
  final hop, not before, and its plaintext is the message.
\<close>

theorem outfox_onion:
  assumes "crypto_ok c" "length sk = 32" "length sks = 4" "\<forall>k \<in> set sks. length k = 32"
    and "map node_pub_key route = map (public_key c) sks"
    and "\<forall>n \<in> set route. length (node_address n) = 32" "length destination = 32"
    and "length data \<le> packet_payload_size n" "packet_payload_size n + 3 < 65536"
  shows "\<exists>p p'. outfox_build c sk d data route destination (Some n) = Some (Inr p)
    \<and> \<not> is_final_hop p
    \<and> traverse c sks p = Some (Inr (map node_address (tl route) @ [destination], p'))
    \<and> is_final_hop p' \<and> recover_plaintext p' = Some (Inr data)"
proof -
  let ?ls = "zip (map (\<lambda>n. scalar_mult c sk (node_pub_key n)) route) (map node_address (tl route) @ [destination])"
  have "length route = 4" using map_eq_imp_length_eq [OF assms(5)] assms(3) by simp
  then obtain n1 n2 n3 g where route: "route = [n1, n2, n3, g]"
    by (auto simp: length_Suc_conv numeral_eq_Suc)
  obtain k1 k2 k3 k4 where sks: "sks = [k1, k2, k3, k4]"
    using assms(3) by (auto simp: length_Suc_conv numeral_eq_Suc)
  have pubs: "node_pub_key n1 = public_key c k1" "node_pub_key n2 = public_key c k2"
    "node_pub_key n3 = public_key c k3" "node_pub_key g = public_key c k4"
    using assms(5) by (simp_all add: route sks)
  have dh: "length (public_key c k) = 32" "scalar_mult c k (public_key c sk) = scalar_mult c sk (public_key c k)"
    if "length k = 32" for k
    using assms(1,2) that by (auto simp: crypto_ok_def dh_ok_def)
  have nodes: "\<forall>n \<in> set route. length (node_pub_key n) = 32 \<and> length (node_address n) = 32"
    using assms(4,6) dh(1) by (simp add: route sks pubs)
  define len :: u16 where "len = of_nat (packet_payload_size n + 3)"
  obtain outer where o: "outfox_build c sk d data route destination (Some n)
      = Some (Inr (onion_packet len 4 [] (fst outer) (snd outer)))"
    "layered c (public_key c sk) (region_of n data) ?ls outer"
    using outfox_build_layered [OF assms(1,2) route nodes assms(7-9)] unfolding len_def by blast
  have len: "unat len = length (region_of n data)"
    unfolding len_def length_region_of [OF assms(8)] by (rule of_nat_u16) (rule assms(9))
  have "list_all2 (\<lambda>sk' l. length sk' = 32 \<and> scalar_mult c sk' (public_key c sk) = fst l) sks ?ls"
    using assms(4) dh(2) by (simp add: route sks pubs)
  then obtain pre' where p: "length pre' = 320"
    "traverse c sks (onion_packet len (length ?ls) [] (fst outer) (snd outer))
      = Some (Inr (map snd ?ls, onion_packet len 0 pre' [] (region_of n data)))"
    using traverse_layered [OF assms(1) dh(1) [OF assms(2)] len _ layers_ok_route [OF assms(1,2) nodes assms(7)] o(2), of sks "[]"]
    by (auto simp: route)
  have "recover_plaintext (onion_packet len 0 pre' [] (region_of n data)) = Some (Inr data)"
    using recover_plaintext_region [OF _ p(1), of len _ data] len unfolding region_of_def by blast
  moreover have "map snd ?ls = map node_address (tl route) @ [destination]" "length ?ls = 4"
    by (simp_all add: route)
  ultimately show ?thesis
    using o(1) p(2)
    by (auto simp: is_final_hop_def onion_packet_def replicate_numeral)
qed

text \<open>Primitives that satisfy the hypotheses.\<close>

definition plain_crypto :: outfox_crypto where
  "plain_crypto = \<lparr>derive_key = (\<lambda>ctx k. k), keystream = (\<lambda>k n l. replicate l 0),
     keyed_hash = (\<lambda>k m. replicate 32 0),
     aead_encrypt = (\<lambda>k p. Inr (p, replicate 16 7)),
     aead_decrypt = (\<lambda>k tag ct. if tag = replicate 16 7 then Inr ct else Inl ''aead''),
     public_key = (\<lambda>s. s), scalar_mult = (\<lambda>s p. xor_bytes s p)\<rparr>"

lemma crypto_ok_plain: "crypto_ok plain_crypto"
proof -
  have "xor_bytes s t = xor_bytes t s" for s t :: bytes
    by (induction s t rule: list_induct2') (simp_all add: xor_bytes_def xor.commute)
  then show ?thesis
    by (auto simp: crypto_ok_def plain_crypto_def aead_ok_def dh_ok_def stream_ok_def)
qed

lemma plain_public_key: "public_key plain_crypto s = s"
  by (simp add: plain_crypto_def)

definition example_route :: "SphinxNode list" where
  "example_route = map (\<lambda>k. \<lparr>node_address = replicate 32 (k + 100), node_pub_key = replicate 32 k\<rparr>) [1, 2, 3, 4]"

theorem outfox_onion_witness:
  "\<exists>p p'. outfox_build plain_crypto (replicate 32 9) 1024 [0, 104, 105] example_route (replicate 32 77) (Some 10) = Some (Inr p)
    \<and> \<not> is_final_hop p
    \<and> traverse plain_crypto [replicate 32 1, replicate 32 2, replicate 32 3, replicate 32 4] p
        = Some (Inr (map node_address (tl example_route) @ [replicate 32 77], p'))
    \<and> is_final_hop p' \<and> recover_plaintext p' = Some (Inr [0, 104, 105])"
  by (rule outfox_onion [OF crypto_ok_plain])
    (simp_all add: packet_payload_size_def plain_public_key example_route_def)

text \<open>
  C32. The lion transform used on the payload is a length-preserving permutation: for a 32-byte key
  and a message of at least 48 bytes encryption succeeds, keeps the length, and is undone by
  decryption; conversely decryption is undone by encryption. The key schedules 1, 2, 3 and 3, 2, 1
  are what makes the two inverse to each other.
\<close>

theorem lion_permutation:
  assumes "stream_ok c" "length k = 32" "MIN_MESSAGE_LEN \<le> length m"
  shows "(\<exists>m'. lion_transform_encrypt c m k = Inr m' \<and> length m' = length m \<and> lion_transform_decrypt c m' k = Inr m)
    \<and> (\<exists>m'. lion_transform_decrypt c m k = Inr m' \<and> length m' = length m \<and> lion_transform_encrypt c m' k = Inr m)"
proof -
  have "\<exists>m'. lion_transform c m k (a, b, d) = Inr m' \<and> length m' = length m \<and> lion_transform c m' k (d, b, a) = Inr m"
    for a b d
  proof -
    obtain m' where m': "lion_transform c m k (a, b, d) = Inr m'"
      using lion_transform_ok [OF assms(2), of m c "(a, b, d)"] assms(3) by auto
    show ?thesis using m' length_lion [OF assms(1) m'] lion_transform_inverse [OF assms(1) m'] by blast
  qed
  then show ?thesis unfolding lion_transform_encrypt_def lion_transform_decrypt_def by blast
qed

theorem lion_permutation_witness:
  "(\<exists>m'. lion_transform_encrypt plain_crypto (replicate 48 5) (replicate 32 1) = Inr m' \<and> length m' = 48
     \<and> lion_transform_decrypt plain_crypto m' (replicate 32 1) = Inr (replicate 48 5))
   \<and> (\<exists>m'. lion_transform_decrypt plain_crypto (replicate 48 5) (replicate 32 1) = Inr m' \<and> length m' = 48
     \<and> lion_transform_encrypt plain_crypto m' (replicate 32 1) = Inr (replicate 48 5))"
  using lion_permutation [of plain_crypto "replicate 32 1" "replicate 48 5"] crypto_ok_plain by (simp add: crypto_ok_def)

section \<open>The wire format\<close>

definition mix_params_ok :: "MixCreationParameters \<Rightarrow> bool" where
  "mix_params_ok p \<longleftrightarrow> length (routing_information_length_by_stage p) = DEFAULT_HOPS"

interpretation mix_params_wire: fixed_codec mix_params_to_bytes mix_params_try_from mix_params_ok MIX_PARAMS_LEN
  by unfold_locales
    (auto simp: mix_params_to_bytes_def mix_params_try_from_def mix_params_ok_def u16_from_le_inverse split: if_splits)

text \<open>
  C33. A byte string is accepted as an Outfox packet exactly if it is the printed form of that
  packet; one too short for the parameters makes the parser panic instead of giving an error.
\<close>

theorem outfox_packet_codec:
  "(outfox_try_from b = Some (Inr p) \<longleftrightarrow> mix_params_ok (mix_params p) \<and> outfox_to_bytes p = Inr b)
   \<and> (outfox_try_from b = None \<longleftrightarrow> length b < MIX_PARAMS_LEN)"
proof (intro conjI iffI)
  assume "outfox_try_from b = Some (Inr p)"
  then have d: "mix_params_try_from (take 6 b) = Inr (mix_params p)" and pl: "op_payload p = drop 6 b"
    by (auto simp: outfox_try_from_def split_at_def pbind_eq_Inr panicking_eq_Inr sbind_eq_Inr split: if_splits)
  show "mix_params_ok (mix_params p)" "outfox_to_bytes p = Inr b"
    using mix_params_wire.dec_sound [OF d] append_take_drop_id [of 6 b] by (auto simp: outfox_to_bytes_def pl)
next
  assume a: "mix_params_ok (mix_params p) \<and> outfox_to_bytes p = Inr b"
  then have "b = mix_params_to_bytes (mix_params p) @ op_payload p" by (simp add: outfox_to_bytes_def)
  then show "outfox_try_from b = Some (Inr p)"
    using a mix_params_wire.length_enc mix_params_wire.dec_enc
    by (simp add: outfox_try_from_def split_at_def)
qed (auto simp: outfox_try_from_def split_at_def split: if_splits)

text \<open>
  C34. A packet whose payload, once decrypted, is all zeros makes \<open>recover_plaintext\<close> panic: the
  padding is stripped first and \<open>split_off\<close> is then called beyond the end of what is left.
\<close>

theorem recover_plaintext_panics:
  assumes "outfox_payload_range p = Some (lb, ub)" "slice (op_payload p) lb ub = Some (replicate n 0)"
  shows "recover_plaintext p = None"
  using assms by (simp add: recover_plaintext_def split_at_def)

theorem recover_plaintext_panics_witness:
  "recover_plaintext \<lparr>mix_params = \<lparr>routing_information_length_by_stage = [0, 0, 0, 0],
       mcp_payload_length_bytes = 48\<rparr>, op_payload = replicate 368 0\<rparr> = None"
  by (rule recover_plaintext_panics [of _ 320 368 48])
    (simp_all add: outfox_payload_range_def stage_params_def get_stage_params_eq stage_ranges slice_def)

section \<open>Which packets panic\<close>

definition decrypt_ok :: "outfox_crypto \<Rightarrow> bool" where
  "decrypt_ok c \<longleftrightarrow> (\<forall>k tag ct p. aead_decrypt c k tag ct = Inr p \<longrightarrow> length p = length ct)"

lemma next_layer_bound: "next_layer p < 4"
proof -
  have "next_layer_loop i xs < 4" for i xs
    by (induction i xs rule: next_layer_loop.induct) auto
  then show ?thesis by (simp add: next_layer_def)
qed

lemma slice_ok: "lb \<le> ub \<Longrightarrow> ub \<le> length xs \<Longrightarrow> \<exists>ys. slice xs lb ub = Some ys \<and> length ys = ub - lb"
  by (simp add: slice_def)

lemma copy_ok:
  "lb \<le> ub \<Longrightarrow> ub \<le> length xs \<Longrightarrow> length ys = ub - lb \<Longrightarrow>
   \<exists>zs. copy_from_slice xs lb ub ys = Some zs \<and> length zs = length xs"
  by (simp add: copy_from_slice_def)

lemma decode_mix_layer_total:
  assumes ok: "stream_ok c" "decrypt_ok c" and k: "k < 4"
    and b: "length b = 80 * (k + 1) + unat len"
  shows "\<exists>r. decode_mix_layer c (stage len k) b msk = Some r \<and> (\<forall>d b'. r = Inr (d, b') \<longrightarrow> length b' = length b)"
proof -
  note simps = stage_ranges [OF k] stage_fields [OF k] incoming_stage [OF k] Let_def
  obtain pk where pk: "slice b 0 32 = Some pk" "length pk = 32" using slice_ok [of 0 32 b] b by auto
  obtain tag where tag: "slice b 32 48 = Some tag" using slice_ok [of 32 48 b] b by auto
  obtain hdr where hdr: "slice b 48 (80 + 80 * k) = Some hdr" "length hdr = 80 + 80 * k - 48"
    using slice_ok [of 48 "80 + 80 * k" b] b by auto
  show ?thesis
  proof (cases "aead_decrypt c (scalar_mult c msk pk) tag hdr")
    case (Inl e)
    then show ?thesis
      unfolding decode_mix_layer_def simps prod.case using b pk tag hdr by simp
  next
    case (Inr pt)
    then have "length pt = length hdr" using ok(2) by (auto simp: decrypt_ok_def)
    then obtain b1 where b1: "copy_from_slice b 48 (80 + 80 * k) pt = Some b1" "length b1 = length b"
      using copy_ok [of 48 "80 + 80 * k" b pt] b hdr by auto
    obtain rd where rd: "slice b1 48 80 = Some rd" using slice_ok [of 48 80 b1] b b1 by auto
    obtain m where m: "slice b1 (80 + 80 * k) (80 + 80 * k + unat len) = Some m" "length m = unat len"
      using slice_ok [of "80 + 80 * k" "80 + 80 * k + unat len" b1] b b1 by auto
    show ?thesis
    proof (cases "lion_transform_decrypt c m (scalar_mult c msk pk)")
      case (Inl e)
      then show ?thesis
        unfolding decode_mix_layer_def simps prod.case using b pk tag hdr Inr b1 rd m by simp
    next
      case l: (Inr m')
      have "length m' = unat len"
        using length_lion [OF ok(1) l [unfolded lion_transform_decrypt_def]] m by simp
      then obtain b2 where b2: "copy_from_slice b1 (80 + 80 * k) (80 + 80 * k + unat len) m' = Some b2" "length b2 = length b1"
        using copy_ok [of "80 + 80 * k" "80 + 80 * k + unat len" b1 m'] b b1 by auto
      then show ?thesis
        unfolding decode_mix_layer_def simps prod.case using b pk tag hdr Inr b1 rd m l by simp
    qed
  qed
qed

lemma swap_remove_ok: "i < length xs \<Longrightarrow> \<exists>ys. swap_remove xs i = Some ys \<and> length ys = length xs - 1"
  by (simp add: swap_remove_def)

lemma decode_next_layer_total:
  assumes ok: "stream_ok c" "decrypt_ok c" and p: "mix_params_ok (mix_params p)"
    and len: "total_packet_length (mix_params p) \<le> length (op_payload p)"
  shows "decode_next_layer c p msk \<noteq> None"
proof -
  define k where "k = next_layer p"
  define l where "l = mcp_payload_length_bytes (mix_params p)"
  have k: "k < 4" unfolding k_def by (rule next_layer_bound)
  have len': "unat l + 320 \<le> length (op_payload p)" using len by (simp add: total_packet_length_eq l_def)
  have r: "80 * (3 - k) \<le> unat l + 320" "unat l + 320 - 80 * (3 - k) = 80 * (k + 1) + unat l" using k by auto
  obtain part where part: "slice (op_payload p) (80 * (3 - k)) (unat l + 320) = Some part" "length part = 80 * (k + 1) + unat l"
    using slice_ok [OF r(1) len'] r(2) by auto
  obtain res where res: "decode_mix_layer c (stage l k) part msk = Some res"
    "\<forall>d b'. res = Inr (d, b') \<longrightarrow> length b' = length part"
    using decode_mix_layer_total [OF ok k part(2)] by blast
  show ?thesis
  proof (cases res)
    case (Inl e)
    then show ?thesis
      using part res
      by (simp add: decode_next_layer_def outfox_decode_mix_layer_def stage_params_def get_stage_params_eq
          k l_def flip: k_def)
  next
    case (Inr db)
    then obtain d b' where db: "res = Inr (d, b')" "length b' = length part" using res(2) by (cases db) auto
    obtain buf where buf: "copy_from_slice (op_payload p) (80 * (3 - k)) (unat l + 320) b' = Some buf"
      "length buf = length (op_payload p)"
      using copy_ok [OF r(1) len', of b'] db part r(2) by auto
    obtain ri where ri: "swap_remove (routing_information_length_by_stage (mix_params p) @ [0]) k = Some ri" "length ri = 4"
      using swap_remove_ok [of k "routing_information_length_by_stage (mix_params p) @ [0]"] k p
      by (auto simp: mix_params_ok_def)
    obtain part2 where part2: "slice buf (80 * (3 - k)) (unat l + 320) = Some part2" "length part2 = 80 * (k + 1) + unat l"
      using slice_ok [OF r(1), of buf] buf len' r(2) by auto
    obtain rt where rt: "slice part2 48 80 = Some rt" using slice_ok [of 48 80 part2] part2 by auto
    show ?thesis
      using part res(1) db buf ri part2 rt
      by (simp add: decode_next_layer_def outfox_decode_mix_layer_def update_routing_information_def stage_params_def
          get_stage_params_eq stage_ranges k l_def flip: k_def)
  qed
qed

text \<open>
  C18. Which packets bring a node down. With a decryption that keeps lengths, processing a parsed
  packet panics exactly if its payload is shorter than the length announced in its parameters;
  the parser checks neither, so such a packet can be sent to any node.
\<close>

theorem decode_next_layer_panics_iff:
  assumes "stream_ok c" "decrypt_ok c" "mix_params_ok (mix_params p)"
  shows "decode_next_layer c p msk = None \<longleftrightarrow> length (op_payload p) < total_packet_length (mix_params p)"
proof
  assume "decode_next_layer c p msk = None"
  then show "length (op_payload p) < total_packet_length (mix_params p)"
    using decode_next_layer_total [OF assms] by (meson not_le)
next
  assume "length (op_payload p) < total_packet_length (mix_params p)"
  then have "slice (op_payload p) lb (unat (mcp_payload_length_bytes (mix_params p)) + 320) = None" for lb
    by (simp add: slice_def total_packet_length_eq)
  then show "decode_next_layer c p msk = None"
    using next_layer_bound [of p]
    by (simp add: decode_next_layer_def outfox_decode_mix_layer_def stage_params_def get_stage_params_eq)
qed

theorem decode_next_layer_panics_iff_witness:
  "\<exists>p. outfox_try_from [32, 32, 32, 32, 48, 0] = Some (Inr p) \<and> decode_next_layer plain_crypto p (replicate 32 1) = None"
proof -
  have "decrypt_ok plain_crypto" by (auto simp: decrypt_ok_def plain_crypto_def split: if_splits)
  moreover have "stream_ok plain_crypto" using crypto_ok_plain by (simp add: crypto_ok_def)
  ultimately show ?thesis
    using decode_next_layer_panics_iff [of plain_crypto
        "\<lparr>mix_params = \<lparr>routing_information_length_by_stage = [32, 32, 32, 32],
           mcp_payload_length_bytes = u16_from_le [48, 0]\<rparr>, op_payload = []\<rparr>" "replicate 32 1"]
    by (simp add: outfox_try_from_def split_at_def mix_params_try_from_def mix_params_ok_def total_packet_length_eq)
qed

end
