(* ===== verification/Packet_Params.thy ===== *)
theory Packet_Params
  imports Outfox
begin

text \<open>
  \<open>common/nymsphinx/params\<close>: packet sizes, packet types and packet versions, with their tags,
  names and the recovery of a size from a length. The crate is modelled as its users enable it,
  with both the \<open>sphinx\<close> and the \<open>outfox\<close> feature. The two constants of the \<open>sphinx_packet\<close>
  crate are fields of a record argument.
\<close>

section \<open>Constants\<close>

record sphinx_consts =
  HEADER_SIZE :: usize
  PAYLOAD_OVERHEAD_SIZE :: usize

definition SPHINX_PACKET_OVERHEAD :: "'a sphinx_consts_scheme \<Rightarrow> usize" where
  "SPHINX_PACKET_OVERHEAD k = HEADER_SIZE k + PAYLOAD_OVERHEAD_SIZE k"

abbreviation DEFAULT_NUM_MIX_HOPS :: byte where "DEFAULT_NUM_MIX_HOPS \<equiv> 3"
abbreviation FRAG_ID_LEN :: usize where "FRAG_ID_LEN \<equiv> 5"
abbreviation CURRENT_PACKET_VERSION_NUMBER :: byte where "CURRENT_PACKET_VERSION_NUMBER \<equiv> 7"
abbreviation ACK_IV_SIZE :: usize where "ACK_IV_SIZE \<equiv> 16"

definition ACK_PACKET_SIZE :: "'a sphinx_consts_scheme \<Rightarrow> usize" where
  "ACK_PACKET_SIZE k = ACK_IV_SIZE + FRAG_ID_LEN + SPHINX_PACKET_OVERHEAD k"

definition REGULAR_PACKET_SIZE :: "'a sphinx_consts_scheme \<Rightarrow> usize" where
  "REGULAR_PACKET_SIZE k = 2 * 1024 + SPHINX_PACKET_OVERHEAD k"

definition EXTENDED_PACKET_SIZE_8 :: "'a sphinx_consts_scheme \<Rightarrow> usize" where
  "EXTENDED_PACKET_SIZE_8 k = 8 * 1024 + SPHINX_PACKET_OVERHEAD k"

definition EXTENDED_PACKET_SIZE_16 :: "'a sphinx_consts_scheme \<Rightarrow> usize" where
  "EXTENDED_PACKET_SIZE_16 k = 16 * 1024 + SPHINX_PACKET_OVERHEAD k"

definition EXTENDED_PACKET_SIZE_32 :: "'a sphinx_consts_scheme \<Rightarrow> usize" where
  "EXTENDED_PACKET_SIZE_32 k = 32 * 1024 + SPHINX_PACKET_OVERHEAD k"

definition OUTFOX_ACK_PACKET_SIZE :: usize where
  "OUTFOX_ACK_PACKET_SIZE = MIN_PACKET_SIZE + OUTFOX_PACKET_OVERHEAD"

definition OUTFOX_REGULAR_PACKET_SIZE :: usize where
  "OUTFOX_REGULAR_PACKET_SIZE = 2 * 1024 + OUTFOX_PACKET_OVERHEAD"

section \<open>Packet types\<close>

datatype InvalidPacketType = InvalidPacketType byte

datatype PacketType = Mix | Vpn | OutfoxType

fun packet_type_as_u8 :: "PacketType \<Rightarrow> byte" where
  "packet_type_as_u8 Mix = 0"
| "packet_type_as_u8 Vpn = 1"
| "packet_type_as_u8 OutfoxType = 2"

fun packet_type_fmt :: "PacketType \<Rightarrow> string" where
  "packet_type_fmt Mix = ''Mix''"
| "packet_type_fmt Vpn = ''Vpn''"
| "packet_type_fmt OutfoxType = ''Outfox''"

definition is_mix :: "PacketType \<Rightarrow> bool" where
  "is_mix self \<longleftrightarrow> self = Mix"

definition is_outfox :: "PacketType \<Rightarrow> bool" where
  "is_outfox self \<longleftrightarrow> self = OutfoxType"

definition packet_type_try_from :: "byte \<Rightarrow> InvalidPacketType + PacketType" where
  "packet_type_try_from v =
     (if v = packet_type_as_u8 Mix then Inr Mix
      else if v = packet_type_as_u8 OutfoxType then Inr OutfoxType
      else Inl (InvalidPacketType v))"

section \<open>Packet sizes\<close>

datatype InvalidPacketSize =
    UnknownPacketTag byte
  | UnknownExtendedPacketVariant string
  | UnknownPacketSize usize

datatype PacketSize =
    RegularPacket
  | AckPacket
  | ExtendedPacket32
  | ExtendedPacket8
  | ExtendedPacket16
  | OutfoxRegularPacket
  | OutfoxAckPacket

fun packet_size_as_u8 :: "PacketSize \<Rightarrow> byte" where
  "packet_size_as_u8 RegularPacket = 1"
| "packet_size_as_u8 AckPacket = 2"
| "packet_size_as_u8 ExtendedPacket32 = 3"
| "packet_size_as_u8 ExtendedPacket8 = 4"
| "packet_size_as_u8 ExtendedPacket16 = 5"
| "packet_size_as_u8 OutfoxRegularPacket = 6"
| "packet_size_as_u8 OutfoxAckPacket = 7"

definition packet_size_from_str :: "string \<Rightarrow> InvalidPacketSize + PacketSize" where
  "packet_size_from_str s =
     (if s = ''regular'' then Inr RegularPacket
      else if s = ''ack'' then Inr AckPacket
      else if s = ''extended8'' then Inr ExtendedPacket8
      else if s = ''extended16'' then Inr ExtendedPacket16
      else if s = ''extended32'' then Inr ExtendedPacket32
      else if s = ''outfox_regular'' then Inr OutfoxRegularPacket
      else if s = ''outfox_ack'' then Inr OutfoxAckPacket
      else Inl (UnknownExtendedPacketVariant s))"

fun packet_size_fmt :: "PacketSize \<Rightarrow> string" where
  "packet_size_fmt RegularPacket = ''regular''"
| "packet_size_fmt AckPacket = ''ack''"
| "packet_size_fmt ExtendedPacket32 = ''extended32''"
| "packet_size_fmt ExtendedPacket8 = ''extended8''"
| "packet_size_fmt ExtendedPacket16 = ''extended16''"
| "packet_size_fmt OutfoxRegularPacket = ''outfox_regular''"
| "packet_size_fmt OutfoxAckPacket = ''outfox_ack''"

definition packet_size_try_from :: "byte \<Rightarrow> InvalidPacketSize + PacketSize" where
  "packet_size_try_from v =
     (if v = packet_size_as_u8 RegularPacket then Inr RegularPacket
      else if v = packet_size_as_u8 AckPacket then Inr AckPacket
      else if v = packet_size_as_u8 ExtendedPacket8 then Inr ExtendedPacket8
      else if v = packet_size_as_u8 ExtendedPacket16 then Inr ExtendedPacket16
      else if v = packet_size_as_u8 ExtendedPacket32 then Inr ExtendedPacket32
      else if v = packet_size_as_u8 OutfoxRegularPacket then Inr OutfoxRegularPacket
      else if v = packet_size_as_u8 OutfoxAckPacket then Inr OutfoxAckPacket
      else Inl (UnknownPacketTag v))"

fun packet_size_size :: "'a sphinx_consts_scheme \<Rightarrow> PacketSize \<Rightarrow> usize" where
  "packet_size_size k RegularPacket = REGULAR_PACKET_SIZE k"
| "packet_size_size k AckPacket = ACK_PACKET_SIZE k"
| "packet_size_size k ExtendedPacket8 = EXTENDED_PACKET_SIZE_8 k"
| "packet_size_size k ExtendedPacket16 = EXTENDED_PACKET_SIZE_16 k"
| "packet_size_size k ExtendedPacket32 = EXTENDED_PACKET_SIZE_32 k"
| "packet_size_size k OutfoxRegularPacket = OUTFOX_REGULAR_PACKET_SIZE"
| "packet_size_size k OutfoxAckPacket = OUTFOX_ACK_PACKET_SIZE"

fun header_size :: "'a sphinx_consts_scheme \<Rightarrow> PacketSize \<Rightarrow> usize" where
  "header_size k OutfoxRegularPacket = MIX_PARAMS_LEN"
| "header_size k OutfoxAckPacket = MIX_PARAMS_LEN"
| "header_size k _ = HEADER_SIZE k"

fun payload_overhead :: "'a sphinx_consts_scheme \<Rightarrow> PacketSize \<Rightarrow> usize" where
  "payload_overhead k OutfoxRegularPacket = OUTFOX_PACKET_OVERHEAD - MIX_PARAMS_LEN"
| "payload_overhead k OutfoxAckPacket = OUTFOX_PACKET_OVERHEAD - MIX_PARAMS_LEN"
| "payload_overhead k _ = PAYLOAD_OVERHEAD_SIZE k"

definition plaintext_size :: "'a sphinx_consts_scheme \<Rightarrow> PacketSize \<Rightarrow> usize option" where
  "plaintext_size k self =
     do {
       n \<leftarrow> usize_sub (packet_size_size k self) (header_size k self);
       usize_sub n (payload_overhead k self)
     }"

definition packet_payload_bytes :: "'a sphinx_consts_scheme \<Rightarrow> PacketSize \<Rightarrow> usize option" where
  "packet_payload_bytes k self = usize_sub (packet_size_size k self) (header_size k self)"

text \<open>The order of the sizes, \<open>Ord::cmp\<close>.\<close>

datatype Ordering = Less | Equal | Greater

definition packet_size_cmp :: "'a sphinx_consts_scheme \<Rightarrow> PacketSize \<Rightarrow> PacketSize \<Rightarrow> Ordering" where
  "packet_size_cmp k self other =
     (if packet_size_size k self < packet_size_size k other then Less
      else if packet_size_size k self = packet_size_size k other then Equal
      else Greater)"

definition get_type :: "'a sphinx_consts_scheme \<Rightarrow> usize \<Rightarrow> (InvalidPacketSize + PacketSize) option" where
  "get_type k s =
     (if packet_size_size k RegularPacket = s then Some (Inr RegularPacket)
      else if packet_size_size k AckPacket = s then Some (Inr AckPacket)
      else if packet_size_size k ExtendedPacket8 = s then Some (Inr ExtendedPacket8)
      else if packet_size_size k ExtendedPacket16 = s then Some (Inr ExtendedPacket16)
      else if packet_size_size k ExtendedPacket32 = s then Some (Inr ExtendedPacket32)
      else if packet_size_size k OutfoxRegularPacket = s then Some (Inr OutfoxRegularPacket)
      else pbind (panicking (usize_add s 6)) (\<lambda>s6.
        if packet_size_size k OutfoxRegularPacket = s6 then Some (Inr OutfoxRegularPacket)
        else if packet_size_size k OutfoxAckPacket = s then Some (Inr OutfoxAckPacket)
        else Some (Inl (UnknownPacketSize s))))"

fun is_extended_size :: "PacketSize \<Rightarrow> bool" where
  "is_extended_size RegularPacket = False"
| "is_extended_size AckPacket = False"
| "is_extended_size OutfoxAckPacket = False"
| "is_extended_size OutfoxRegularPacket = False"
| "is_extended_size ExtendedPacket8 = True"
| "is_extended_size ExtendedPacket16 = True"
| "is_extended_size ExtendedPacket32 = True"

definition as_extended_size :: "PacketSize \<Rightarrow> PacketSize option" where
  "as_extended_size self = (if is_extended_size self then Some self else None)"

definition get_type_from_plaintext ::
    "'a sphinx_consts_scheme \<Rightarrow> usize \<Rightarrow> PacketType \<Rightarrow> (InvalidPacketSize + PacketSize) option" where
  "get_type_from_plaintext k n packet_type =
     (let overhead = (case packet_type of
            Mix \<Rightarrow> SPHINX_PACKET_OVERHEAD k
          | Vpn \<Rightarrow> SPHINX_PACKET_OVERHEAD k
          | OutfoxType \<Rightarrow> OUTFOX_PACKET_OVERHEAD) in
      pbind (panicking (usize_add n overhead)) (get_type k))"

fun packet_type_from_size :: "PacketSize \<Rightarrow> PacketType" where
  "packet_type_from_size RegularPacket = Mix"
| "packet_type_from_size AckPacket = Mix"
| "packet_type_from_size ExtendedPacket32 = Mix"
| "packet_type_from_size ExtendedPacket8 = Mix"
| "packet_type_from_size ExtendedPacket16 = Mix"
| "packet_type_from_size OutfoxRegularPacket = OutfoxType"
| "packet_type_from_size OutfoxAckPacket = OutfoxType"

definition packet_size_debug :: "'a sphinx_consts_scheme \<Rightarrow> PacketSize \<Rightarrow> string option" where
  "packet_size_debug k self =
     map_option (\<lambda>plaintext.
       packet_size_fmt self @ '' ('' @ nat_to_string (packet_size_size k self) @ '' bytes / ''
         @ nat_to_string plaintext @ '' plaintext)'')
       (plaintext_size k self)"

section \<open>Packet versions\<close>

datatype PacketVersion = Legacy | Versioned byte

definition new_legacy :: PacketVersion where
  "new_legacy = Legacy"

definition new_versioned :: "byte \<Rightarrow> PacketVersion" where
  "new_versioned version = Versioned version"

definition packet_version_new :: "bool \<Rightarrow> PacketVersion" where
  "packet_version_new use_legacy =
     (if use_legacy then new_legacy else new_versioned CURRENT_PACKET_VERSION_NUMBER)"

fun is_legacy :: "PacketVersion \<Rightarrow> bool" where
  "is_legacy Legacy = True"
| "is_legacy (Versioned _) = False"

fun packet_version_as_u8 :: "PacketVersion \<Rightarrow> byte option" where
  "packet_version_as_u8 Legacy = None"
| "packet_version_as_u8 (Versioned version) = Some version"

definition packet_version_from :: "byte \<Rightarrow> PacketVersion" where
  "packet_version_from n =
     (if n = packet_size_as_u8 RegularPacket then Legacy
      else if n = packet_size_as_u8 AckPacket then Legacy
      else if n = packet_size_as_u8 ExtendedPacket8 then Legacy
      else if n = packet_size_as_u8 ExtendedPacket16 then Legacy
      else if n = packet_size_as_u8 ExtendedPacket32 then Legacy
      else Versioned n)"

definition packet_version_default :: PacketVersion where
  "packet_version_default = Versioned CURRENT_PACKET_VERSION_NUMBER"

section \<open>Sizes in numbers\<close>

lemma outfox_sizes:
  "OUTFOX_PACKET_OVERHEAD = 329" "OUTFOX_REGULAR_PACKET_SIZE = 2377" "OUTFOX_ACK_PACKET_SIZE = 377"
  by (simp_all add: OUTFOX_PACKET_OVERHEAD_def OUTFOX_REGULAR_PACKET_SIZE_def OUTFOX_ACK_PACKET_SIZE_def
      groupelementbytes_def tagbytes_def)

lemmas sphinx_sizes = REGULAR_PACKET_SIZE_def ACK_PACKET_SIZE_def EXTENDED_PACKET_SIZE_8_def
  EXTENDED_PACKET_SIZE_16_def EXTENDED_PACKET_SIZE_32_def

lemma packet_size_try_from_iff: "packet_size_try_from v = Inr s \<longleftrightarrow> v = packet_size_as_u8 s"
  by (cases s) (auto simp: packet_size_try_from_def)

lemma packet_type_try_from_iff: "packet_type_try_from v = Inr t \<longleftrightarrow> t \<noteq> Vpn \<and> v = packet_type_as_u8 t"
  by (cases t) (auto simp: packet_type_try_from_def)

lemma packet_version_from_iff:
  "packet_version_from n = Legacy \<longleftrightarrow> n \<in> {1, 2, 3, 4, 5}"
  "packet_version_from n = Versioned v \<longleftrightarrow> n = v \<and> n \<notin> {1, 2, 3, 4, 5}"
  by (auto simp: packet_version_from_def)

lemma plaintext_size_eq: "plaintext_size k s = Some (packet_size_size k s - header_size k s - payload_overhead k s)"
  by (cases s) (simp_all add: plaintext_size_def usize_sub_def outfox_sizes sphinx_sizes SPHINX_PACKET_OVERHEAD_def)

lemma sum_rejects:
  assumes "\<And>s. d = Inr s \<longleftrightarrow> v = f s" "\<And>e'. d = Inl e' \<Longrightarrow> e' = E"
  shows "d = Inl e \<longleftrightarrow> e = E \<and> v \<notin> f ` UNIV"
proof (cases d)
  case (Inl e')
  then have "v \<noteq> f s" for s using assms(1) [of s] by simp
  then show ?thesis using Inl assms(2) [OF Inl] by auto
next
  case (Inr s)
  then show ?thesis using assms(1) [of s] by simp
qed

section \<open>Properties\<close>

text \<open>
  C26. The tags and the names of the packet sizes identify them exactly: a byte is accepted as a
  packet size only if it is that size's tag, and a string only if it is that size's printed name;
  everything else is rejected with the value that was received.
\<close>

theorem packet_size_tags_exact:
  "(packet_size_try_from v = Inr s \<longleftrightarrow> v = packet_size_as_u8 s)
   \<and> (packet_size_from_str n = Inr s \<longleftrightarrow> n = packet_size_fmt s)
   \<and> (packet_size_try_from v = Inl e \<longleftrightarrow> e = UnknownPacketTag v \<and> v \<notin> packet_size_as_u8 ` UNIV)
   \<and> (packet_size_from_str n = Inl e \<longleftrightarrow> e = UnknownExtendedPacketVariant n \<and> n \<notin> packet_size_fmt ` UNIV)"
proof (intro conjI)
  show str: "packet_size_from_str n = Inr s \<longleftrightarrow> n = packet_size_fmt s" for s
    by (cases s) (auto simp: packet_size_from_str_def)
  have e: "packet_size_try_from v = Inl e' \<Longrightarrow> e' = UnknownPacketTag v"
    "packet_size_from_str n = Inl e' \<Longrightarrow> e' = UnknownExtendedPacketVariant n" for e'
    by (simp_all add: packet_size_try_from_def packet_size_from_str_def split: if_splits)
  show "packet_size_try_from v = Inl e \<longleftrightarrow> e = UnknownPacketTag v \<and> v \<notin> packet_size_as_u8 ` UNIV"
    by (rule sum_rejects) (simp_all only: packet_size_try_from_iff e)
  show "packet_size_from_str n = Inl e \<longleftrightarrow> e = UnknownExtendedPacketVariant n \<and> n \<notin> packet_size_fmt ` UNIV"
    by (rule sum_rejects) (simp_all only: str e)
qed (rule packet_size_try_from_iff)

text \<open>
  C25. When lengths determine sizes: \<open>get_type\<close> recovers every packet size from its length exactly
  if the overhead of a Sphinx packet is none of 329, 356 and 2356, the three values at which a
  Sphinx size coincides with an Outfox one. The plaintext length together with the packet type
  determines what the length determines.
\<close>

theorem get_type_recovers_size:
  assumes "SPHINX_PACKET_OVERHEAD k + 40000 \<le> usize_max"
  shows "((\<forall>s. get_type k (packet_size_size k s) = Some (Inr s))
      \<longleftrightarrow> SPHINX_PACKET_OVERHEAD k \<notin> {329, 356, 2356})
    \<and> (\<exists>n. plaintext_size k s = Some n
        \<and> get_type_from_plaintext k n (packet_type_from_size s) = get_type k (packet_size_size k s))"
proof (intro conjI iffI)
  assume "\<forall>s. get_type k (packet_size_size k s) = Some (Inr s)"
  then have "get_type k 2377 = Some (Inr OutfoxRegularPacket)" "get_type k 377 = Some (Inr OutfoxAckPacket)"
    using outfox_sizes by (metis packet_size_size.simps(6,7))+
  then show "SPHINX_PACKET_OVERHEAD k \<notin> {329, 356, 2356}"
    by (auto simp: get_type_def sphinx_sizes)
next
  assume o: "SPHINX_PACKET_OVERHEAD k \<notin> {329, 356, 2356}"
  have "get_type k (packet_size_size k s) = Some (Inr s)" for s
    using assms o by (cases s) (auto simp: get_type_def sphinx_sizes outfox_sizes usize_add_def)
  then show "\<forall>s. get_type k (packet_size_size k s) = Some (Inr s)" by blast
next
  have "packet_size_size k s - header_size k s - payload_overhead k s
      + (if packet_type_from_size s = Mix then SPHINX_PACKET_OVERHEAD k else OUTFOX_PACKET_OVERHEAD)
    = packet_size_size k s"
    by (cases s) (simp_all add: sphinx_sizes outfox_sizes SPHINX_PACKET_OVERHEAD_def)
  moreover have "packet_size_size k s \<le> usize_max"
    using assms by (cases s) (simp_all add: sphinx_sizes outfox_sizes)
  ultimately show "\<exists>n. plaintext_size k s = Some n
        \<and> get_type_from_plaintext k n (packet_type_from_size s) = get_type k (packet_size_size k s)"
    unfolding plaintext_size_eq get_type_from_plaintext_def
    by (cases s) (simp_all add: usize_add_def)
qed

text \<open>Constants at which every size is recovered.\<close>

definition example_consts :: sphinx_consts where
  "example_consts = \<lparr>HEADER_SIZE = 348, PAYLOAD_OVERHEAD_SIZE = 17\<rparr>"

theorem get_type_recovers_size_witness:
  "(\<forall>s. get_type example_consts (packet_size_size example_consts s) = Some (Inr s))
   \<and> (\<exists>n. plaintext_size example_consts AckPacket = Some n
        \<and> get_type_from_plaintext example_consts n Mix = get_type example_consts 386)"
  using get_type_recovers_size [of example_consts AckPacket]
  by (simp add: example_consts_def SPHINX_PACKET_OVERHEAD_def sphinx_sizes)

end
