(* ===== verification/Addressing.thy ===== *)
theory Addressing
  imports Packet_Params
begin

text \<open>
  \<open>common/nymsphinx/addressing\<close> (\<open>nodes.rs\<close>, \<open>clients.rs\<close>) and the public keys of
  \<open>common/crypto\<close> it is made of: addresses of nodes inside packets, addresses of clients as
  bytes and as text. The curve and base58 libraries are fields of a record argument.
\<close>

section \<open>Node addresses\<close>

text \<open>\<open>std::net::SocketAddr\<close>; the two words of a V6 address are its flow label and scope.\<close>

datatype SocketAddr = V4 bytes u16 | V6 bytes u16 u32 u32

abbreviation NODE_ADDRESS_LENGTH :: usize where "NODE_ADDRESS_LENGTH \<equiv> 32"
abbreviation MAX_NODE_ADDRESS_UNPADDED_LEN :: usize where "MAX_NODE_ADDRESS_UNPADDED_LEN \<equiv> 19"

datatype NymNodeRoutingAddressError =
    NoBytesProvided
  | TooFewBytesProvided byte usize usize
  | InvalidIpVersion byte
  | TooSmallBytesRepresentation usize

datatype NymNodeRoutingAddress = NymNodeRoutingAddress SocketAddr

fun bytes_min_len :: "NymNodeRoutingAddress \<Rightarrow> usize" where
  "bytes_min_len (NymNodeRoutingAddress (V4 _ _)) = 7"
| "bytes_min_len (NymNodeRoutingAddress (V6 _ _ _ _)) = 19"

fun addr_type_as_u8 :: "NymNodeRoutingAddress \<Rightarrow> byte" where
  "addr_type_as_u8 (NymNodeRoutingAddress (V4 _ _)) = 4"
| "addr_type_as_u8 (NymNodeRoutingAddress (V6 _ _ _ _)) = 6"

fun socket_addr_port :: "SocketAddr \<Rightarrow> u16" where
  "socket_addr_port (V4 _ port) = port"
| "socket_addr_port (V6 _ port _ _) = port"

fun socket_addr_octets :: "SocketAddr \<Rightarrow> bytes" where
  "socket_addr_octets (V4 octets _) = octets"
| "socket_addr_octets (V6 octets _ _ _) = octets"

fun node_address_as_bytes :: "NymNodeRoutingAddress \<Rightarrow> bytes" where
  "node_address_as_bytes (NymNodeRoutingAddress a) =
     [addr_type_as_u8 (NymNodeRoutingAddress a)] @ u16_to_be (socket_addr_port a) @ socket_addr_octets a"

definition as_zero_padded_bytes :: "NymNodeRoutingAddress \<Rightarrow> usize \<Rightarrow> bytes" where
  "as_zero_padded_bytes self expected_len =
     (let self_bytes = node_address_as_bytes self in
      if expected_len \<le> length self_bytes then self_bytes
      else take expected_len (self_bytes @ replicate expected_len 0))"

definition node_address_try_from_bytes :: "bytes \<Rightarrow> NymNodeRoutingAddressError + NymNodeRoutingAddress" where
  "node_address_try_from_bytes b =
     (if b = [] then Inl NoBytesProvided
      else let ip_version = b ! 0; port = u16_from_be [b ! 1, b ! 2] in
        if ip_version = 4 then
          (if length b < 7 then Inl (TooFewBytesProvided 4 (length b) 7)
           else Inr (NymNodeRoutingAddress (V4 [b ! 3, b ! 4, b ! 5, b ! 6] port)))
        else if ip_version = 6 then
          (if length b < 19 then Inl (TooFewBytesProvided 6 (length b) 19)
           else Inr (NymNodeRoutingAddress (V6 (take 16 (drop 3 b)) port 0 0)))
        else Inl (InvalidIpVersion ip_version))"

text \<open>Conversion to and from the address field of a packet header.\<close>

definition node_address_try_into ::
    "NymNodeRoutingAddress \<Rightarrow> (NymNodeRoutingAddressError + bytes) option" where
  "node_address_try_into self =
     (if NODE_ADDRESS_LENGTH < bytes_min_len self
      then Some (Inl (TooSmallBytesRepresentation (bytes_min_len self)))
      else
        let padded_address = as_zero_padded_bytes self NODE_ADDRESS_LENGTH in
        if length padded_address = 32 then Some (Inr padded_address) else None)"

definition node_address_try_from :: "bytes \<Rightarrow> NymNodeRoutingAddressError + NymNodeRoutingAddress" where
  "node_address_try_from v = node_address_try_from_bytes v"

section \<open>Keys\<close>

text \<open>
  \<open>ed25519_dalek::PublicKey\<close> and \<open>bs58\<close>. An \<open>x25519_dalek::PublicKey\<close> is the array of its bytes.
\<close>

record 'i key_lib =
  ed25519_to_bytes :: "'i \<Rightarrow> bytes"
  ed25519_from_bytes :: "bytes \<Rightarrow> string + 'i"
  bs58_encode :: "bytes \<Rightarrow> string"
  bs58_decode :: "string \<Rightarrow> string + bytes"

abbreviation PUBLIC_KEY_LENGTH :: usize where "PUBLIC_KEY_LENGTH \<equiv> 32"
abbreviation PUBLIC_KEY_SIZE :: usize where "PUBLIC_KEY_SIZE \<equiv> 32"

datatype Ed25519RecoveryError =
    MalformedBytes string
  | MalformedPublicKeyString string
  | MalformedPrivateKeyString string
  | MalformedSignatureString string

datatype KeyRecoveryError =
    InvalidSizePublicKey usize usize
  | InvalidSizePrivateKey usize usize
  | MalformedEncryptionPublicKeyString string
  | MalformedEncryptionPrivateKeyString string

definition identity_from_bytes :: "'i key_lib \<Rightarrow> bytes \<Rightarrow> Ed25519RecoveryError + 'i" where
  "identity_from_bytes L b = map_sum MalformedBytes (\<lambda>k. k) (ed25519_from_bytes L b)"

definition identity_to_base58_string :: "'i key_lib \<Rightarrow> 'i \<Rightarrow> string" where
  "identity_to_base58_string L k = bs58_encode L (ed25519_to_bytes L k)"

definition identity_from_base58_string :: "'i key_lib \<Rightarrow> string \<Rightarrow> Ed25519RecoveryError + 'i" where
  "identity_from_base58_string L val =
     sbind (map_sum MalformedPublicKeyString (\<lambda>b. b) (bs58_decode L val)) (identity_from_bytes L)"

definition encryption_from_bytes :: "bytes \<Rightarrow> KeyRecoveryError + bytes" where
  "encryption_from_bytes b =
     (if length b \<noteq> PUBLIC_KEY_SIZE then Inl (InvalidSizePublicKey (length b) PUBLIC_KEY_SIZE)
      else Inr (take PUBLIC_KEY_SIZE b))"

definition encryption_to_base58_string :: "'i key_lib \<Rightarrow> bytes \<Rightarrow> string" where
  "encryption_to_base58_string L k = bs58_encode L k"

definition encryption_from_base58_string :: "'i key_lib \<Rightarrow> string \<Rightarrow> KeyRecoveryError + bytes" where
  "encryption_from_base58_string L val =
     sbind (map_sum MalformedEncryptionPublicKeyString (\<lambda>b. b) (bs58_decode L val)) encryption_from_bytes"

text \<open>The length of a destination address is a constant of \<open>sphinx_packet\<close>.\<close>

definition derive_destination_address :: "'i key_lib \<Rightarrow> usize \<Rightarrow> 'i \<Rightarrow> bytes option" where
  "derive_destination_address L destination_address_length self =
     (if destination_address_length = PUBLIC_KEY_LENGTH
      then copy_from_slice (replicate destination_address_length 0) 0 destination_address_length (ed25519_to_bytes L self)
      else None)"

section \<open>Recipients\<close>

abbreviation CLIENT_IDENTITY_SIZE :: usize where "CLIENT_IDENTITY_SIZE \<equiv> PUBLIC_KEY_LENGTH"
abbreviation CLIENT_ENCRYPTION_KEY_SIZE :: usize where "CLIENT_ENCRYPTION_KEY_SIZE \<equiv> PUBLIC_KEY_SIZE"
abbreviation NODE_IDENTITY_SIZE :: usize where "NODE_IDENTITY_SIZE \<equiv> PUBLIC_KEY_LENGTH"

abbreviation RECIPIENT_LEN :: usize where
  "RECIPIENT_LEN \<equiv> CLIENT_IDENTITY_SIZE + CLIENT_ENCRYPTION_KEY_SIZE + NODE_IDENTITY_SIZE"

datatype RecipientFormattingError =
    MalformedRecipientError string
  | MalformedIdentityError Ed25519RecoveryError
  | MalformedEncryptionKeyError KeyRecoveryError
  | MalformedGatewayError Ed25519RecoveryError

record 'i Recipient =
  client_identity :: 'i
  client_encryption_key :: bytes
  gateway :: 'i

definition recipient_new :: "'i \<Rightarrow> bytes \<Rightarrow> 'i \<Rightarrow> 'i Recipient" where
  "recipient_new i e g = \<lparr>client_identity = i, client_encryption_key = e, gateway = g\<rparr>"

text \<open>The destination of a packet: the address and the default identifier, an argument.\<close>

definition as_sphinx_destination ::
    "'i key_lib \<Rightarrow> usize \<Rightarrow> bytes \<Rightarrow> 'i Recipient \<Rightarrow> (bytes \<times> bytes) option" where
  "as_sphinx_destination L destination_address_length default_identifier self =
     map_option (\<lambda>a. (a, default_identifier))
       (derive_destination_address L destination_address_length (client_identity self))"

definition recipient_to_bytes :: "'i key_lib \<Rightarrow> 'i Recipient \<Rightarrow> bytes" where
  "recipient_to_bytes L self =
     ed25519_to_bytes L (client_identity self) @ client_encryption_key self @ ed25519_to_bytes L (gateway self)"

definition recipient_try_from_bytes :: "'i key_lib \<Rightarrow> bytes \<Rightarrow> RecipientFormattingError + 'i Recipient" where
  "recipient_try_from_bytes L b =
     (let identity_bytes = take CLIENT_IDENTITY_SIZE b;
          enc_key_bytes = take CLIENT_ENCRYPTION_KEY_SIZE (drop CLIENT_IDENTITY_SIZE b);
          gateway_bytes = drop (CLIENT_IDENTITY_SIZE + CLIENT_ENCRYPTION_KEY_SIZE) b in
      sbind (map_sum MalformedIdentityError (\<lambda>k. k) (identity_from_bytes L identity_bytes)) (\<lambda>i.
      sbind (map_sum MalformedEncryptionKeyError (\<lambda>k. k) (encryption_from_bytes enc_key_bytes)) (\<lambda>e.
      sbind (map_sum MalformedGatewayError (\<lambda>k. k) (identity_from_bytes L gateway_bytes)) (\<lambda>g.
      Inr \<lparr>client_identity = i, client_encryption_key = e, gateway = g\<rparr>))))"

datatype SerdeError = InvalidLength usize | InvalidValue string

definition recipient_visit_bytes :: "'i key_lib \<Rightarrow> bytes \<Rightarrow> SerdeError + 'i Recipient" where
  "recipient_visit_bytes L b =
     (if length b \<noteq> RECIPIENT_LEN then Inl (InvalidLength (length b))
      else map_sum (\<lambda>_. InvalidValue ''At least one of the curve points was malformed'') (\<lambda>r. r)
             (recipient_try_from_bytes L b))"

text \<open>\<open>str::split\<close> at a character.\<close>

fun split_char :: "char \<Rightarrow> string \<Rightarrow> string list" where
  "split_char c [] = [[]]"
| "split_char c (x # xs) =
     (if x = c then [] # split_char c xs
      else case split_char c xs of [] \<Rightarrow> [[x]] | p # ps \<Rightarrow> (x # p) # ps)"

definition try_from_base58_string :: "'i key_lib \<Rightarrow> string \<Rightarrow> RecipientFormattingError + 'i Recipient" where
  "try_from_base58_string L full_address =
     (case split_char CHR ''@'' full_address of
        [client_half, gateway_half] \<Rightarrow>
          (case split_char CHR ''.'' client_half of
             [id_part, enc_part] \<Rightarrow>
               sbind (map_sum MalformedIdentityError (\<lambda>k. k) (identity_from_base58_string L id_part)) (\<lambda>i.
               sbind (map_sum MalformedEncryptionKeyError (\<lambda>k. k) (encryption_from_base58_string L enc_part)) (\<lambda>e.
               sbind (map_sum MalformedGatewayError (\<lambda>k. k) (identity_from_base58_string L gateway_half)) (\<lambda>g.
               Inr \<lparr>client_identity = i, client_encryption_key = e, gateway = g\<rparr>)))
           | _ \<Rightarrow> Inl (MalformedRecipientError
                ''the string address does not contain exactly a single '.' character''))
      | _ \<Rightarrow> Inl (MalformedRecipientError
           ''the string address does not contain exactly a single '@' character''))"

definition recipient_fmt :: "'i key_lib \<Rightarrow> 'i Recipient \<Rightarrow> string" where
  "recipient_fmt L self =
     identity_to_base58_string L (client_identity self) @ ''.''
     @ encryption_to_base58_string L (client_encryption_key self) @ ''@''
     @ identity_to_base58_string L (gateway self)"

definition recipient_from_str :: "'i key_lib \<Rightarrow> string \<Rightarrow> RecipientFormattingError + 'i Recipient" where
  "recipient_from_str L s = try_from_base58_string L s"

section \<open>Addresses of nodes\<close>

fun node_address_ok :: "NymNodeRoutingAddress \<Rightarrow> bool" where
  "node_address_ok (NymNodeRoutingAddress (V4 octets _)) \<longleftrightarrow> length octets = 4"
| "node_address_ok (NymNodeRoutingAddress (V6 octets _ flowinfo scope_id)) \<longleftrightarrow>
     length octets = 16 \<and> flowinfo = 0 \<and> scope_id = 0"

lemma length_node_address: "node_address_ok a \<Longrightarrow> length (node_address_as_bytes a) = bytes_min_len a"
  by (cases a rule: node_address_ok.cases) (simp_all add: codec_simps)

lemma u16_to_be_Cons: "\<exists>x y. u16_to_be p = [x, y]"
proof -
  have "length (u16_to_be p) = Suc (Suc 0)" by (simp add: codec_simps)
  then show ?thesis by (simp only: length_Suc_conv length_0_conv) blast
qed

lemma node_address_dec_enc:
  assumes "node_address_ok a"
  shows "node_address_try_from_bytes (node_address_as_bytes a @ r) = Inr a"
proof (cases a rule: node_address_ok.cases)
  case (1 oc p)
  then obtain a b c d where oc: "oc = [a, b, c, d]" using assms by (auto simp: length_Suc_conv numeral_eq_Suc)
  obtain x y where xy: "u16_to_be p = [x, y]" using u16_to_be_Cons by blast
  then have "u16_from_be [x, y] = p" using u16_roundtrip [of p] by simp
  then show ?thesis using 1 oc xy by (simp add: node_address_try_from_bytes_def)
next
  case (2 oc p f s)
  obtain x y where xy: "u16_to_be p = [x, y]" using u16_to_be_Cons by blast
  then have "u16_from_be [x, y] = p" using u16_roundtrip [of p] by simp
  then show ?thesis using 2 assms xy by (simp add: node_address_try_from_bytes_def)
qed

lemma node_address_dec_sound:
  assumes "node_address_try_from_bytes b = Inr a"
  shows "node_address_ok a \<and> (\<exists>r. b = node_address_as_bytes a @ r)"
proof (cases "b ! 0 = 4")
  case True
  then have l: "7 \<le> length b" and a: "a = NymNodeRoutingAddress (V4 [b ! 3, b ! 4, b ! 5, b ! 6] (u16_from_be [b ! 1, b ! 2]))"
    using assms by (auto simp: node_address_try_from_bytes_def Let_def split: if_splits)
  have "take 7 b = [b ! 0, b ! 1, b ! 2, b ! 3, b ! 4, b ! 5, b ! 6]"
    using l by (auto simp: Suc_le_length_iff numeral_eq_Suc)
  then have "b = node_address_as_bytes a @ drop 7 b"
    using append_take_drop_id [of 7 b] a True by (simp add: u16_from_be_inverse)
  then show ?thesis using a by auto
next
  case False
  then have six: "b ! 0 = 6" and l: "19 \<le> length b"
    and a: "a = NymNodeRoutingAddress (V6 (take 16 (drop 3 b)) (u16_from_be [b ! 1, b ! 2]) 0 0)"
    using assms by (auto simp: node_address_try_from_bytes_def Let_def split: if_splits)
  have "take 3 b = [b ! 0, b ! 1, b ! 2]"
    using l by (auto simp: Suc_le_length_iff numeral_eq_Suc)
  moreover have "b = take 3 b @ take 16 (drop 3 b) @ drop 19 b"
    using append_take_drop_id [of 16 "drop 3 b"] by simp
  ultimately have "b = node_address_as_bytes a @ drop 19 b"
    using a six by (simp add: u16_from_be_inverse)
  then show ?thesis using a l by auto
qed

interpretation node_address_wire: prefix_codec node_address_as_bytes node_address_try_from_bytes node_address_ok
  by unfold_locales (simp_all add: node_address_dec_enc node_address_dec_sound)

lemma node_address_field_eq:
  assumes "node_address_ok a"
  shows "node_address_try_into a
    = Some (Inr (node_address_as_bytes a @ replicate (32 - bytes_min_len a) 0))"
proof -
  have "bytes_min_len a \<le> 19" by (cases a rule: bytes_min_len.cases) simp_all
  moreover have "as_zero_padded_bytes a 32 = node_address_as_bytes a @ replicate (32 - bytes_min_len a) 0"
    using calculation length_node_address [OF assms] by (simp add: as_zero_padded_bytes_def)
  ultimately show ?thesis
    using length_node_address [OF assms] by (simp add: node_address_try_into_def)
qed

section \<open>Addresses of clients\<close>

text \<open>
  What the libraries promise: keys survive conversion to bytes and back, 32 bytes each, a key
  keeps the bytes it was read from; base58 text decodes to what was encoded and consists of
  letters and digits.
\<close>

definition key_lib_ok :: "'i key_lib \<Rightarrow> bool" where
  "key_lib_ok L \<longleftrightarrow>
     (\<forall>k. length (ed25519_to_bytes L k) = 32 \<and> ed25519_from_bytes L (ed25519_to_bytes L k) = Inr k)
   \<and> (\<forall>b k. ed25519_from_bytes L b = Inr k \<longrightarrow> ed25519_to_bytes L k = b)
   \<and> (\<forall>b. bs58_decode L (bs58_encode L b) = Inr b)
   \<and> (\<forall>b. CHR ''.'' \<notin> set (bs58_encode L b) \<and> CHR ''@'' \<notin> set (bs58_encode L b))"

definition recipient_ok :: "'i Recipient \<Rightarrow> bool" where
  "recipient_ok r \<longleftrightarrow> length (client_encryption_key r) = 32"

lemma recipient_wire:
  assumes L: "key_lib_ok (L :: 'i key_lib)"
  shows "fixed_codec (recipient_to_bytes L) (recipient_try_from_bytes L) recipient_ok RECIPIENT_LEN"
proof
  fix r :: "'i Recipient"
  assume r: "recipient_ok r"
  then show "recipient_try_from_bytes L (recipient_to_bytes L r) = Inr r"
    using L by (simp add: key_lib_ok_def recipient_try_from_bytes_def recipient_to_bytes_def recipient_ok_def
        identity_from_bytes_def encryption_from_bytes_def)
  show "length (recipient_to_bytes L r) = RECIPIENT_LEN"
    using L r by (simp add: key_lib_ok_def recipient_to_bytes_def recipient_ok_def)
next
  fix b :: bytes and r
  assume "recipient_try_from_bytes L b = Inr r"
  then obtain i e g where p: "ed25519_from_bytes L (take 32 b) = Inr i" "length (take 32 (drop 32 b)) = 32"
    "e = take 32 (drop 32 b)" "ed25519_from_bytes L (drop 64 b) = Inr g"
    "r = \<lparr>client_identity = i, client_encryption_key = e, gateway = g\<rparr>"
    by (auto simp: recipient_try_from_bytes_def Let_def sbind_eq_Inr map_sum_eq_Inr identity_from_bytes_def
        encryption_from_bytes_def split: if_splits)
  then have "take 32 b = ed25519_to_bytes L i" "drop 64 b = ed25519_to_bytes L g"
    using L by (auto simp: key_lib_ok_def)
  moreover have "b = take 32 b @ take 32 (drop 32 b) @ drop 64 b"
    using append_take_drop_id [of 32 "drop 32 b"] by simp
  ultimately show "recipient_ok r \<and> b = recipient_to_bytes L r"
    using p by (simp add: recipient_ok_def recipient_to_bytes_def)
qed

lemma split_char_no: "c \<notin> set s \<Longrightarrow> split_char c s = [s]"
  by (induction s) auto

lemma split_char_append: "c \<notin> set s \<Longrightarrow> split_char c (s @ c # t) = s # split_char c t"
  by (induction s) auto

lemma length_split_char: "length (split_char c s) = count_list s c + 1"
  by (induction s) (auto split: list.splits)

section \<open>Properties\<close>

text \<open>
  C29. A node address survives the address field of a packet: every IPv4 address, and every IPv6
  address without flow label and scope, is put into a field of exactly 32 bytes, never panicking,
  and read back unchanged. What is read from bytes is an address whose encoding the bytes start
  with; addresses are never confused with one another whatever follows them.
\<close>

theorem node_address_field:
  "(node_address_try_from_bytes b = Inr a \<longleftrightarrow> node_address_ok a \<and> (\<exists>r. b = node_address_as_bytes a @ r))
   \<and> (node_address_ok a \<longrightarrow> (\<exists>field. node_address_try_into a = Some (Inr field)
        \<and> length field = NODE_ADDRESS_LENGTH \<and> node_address_try_from field = Inr a))"
proof (intro conjI impI)
  show "node_address_try_from_bytes b = Inr a \<longleftrightarrow> node_address_ok a \<and> (\<exists>r. b = node_address_as_bytes a @ r)"
    by (rule node_address_wire.dec_prefix_iff)
  assume a: "node_address_ok a"
  have "bytes_min_len a \<le> 19" by (cases a rule: bytes_min_len.cases) simp_all
  then show "\<exists>field. node_address_try_into a = Some (Inr field)
        \<and> length field = NODE_ADDRESS_LENGTH \<and> node_address_try_from field = Inr a"
    using length_node_address [OF a] node_address_wire.dec_padding [OF a]
    by (simp add: node_address_field_eq [OF a] node_address_try_from_def)
qed

theorem node_address_field_witness:
  "\<exists>field. node_address_try_into (NymNodeRoutingAddress (V4 [1, 2, 3, 4] 42)) = Some (Inr field)
     \<and> length field = 32 \<and> node_address_try_from field = Inr (NymNodeRoutingAddress (V4 [1, 2, 3, 4] 42))"
  using node_address_field [of "[]" "NymNodeRoutingAddress (V4 [1, 2, 3, 4] 42)"] by simp

text \<open>
  C28. The bytes of a recipient identify it: with key libraries that keep their promises, a byte
  string of any length is accepted exactly if it is the encoding of that recipient, which is
  always 96 bytes long.
\<close>

theorem recipient_bytes_exact:
  assumes "key_lib_ok L"
  shows "(recipient_try_from_bytes L b = Inr r \<longleftrightarrow> recipient_ok r \<and> b = recipient_to_bytes L r)
    \<and> (recipient_visit_bytes L b = Inr r \<longleftrightarrow> recipient_try_from_bytes L b = Inr r)
    \<and> (recipient_ok r \<longrightarrow> length (recipient_to_bytes L r) = RECIPIENT_LEN)"
proof (intro conjI impI)
  note c = recipient_wire [OF assms]
  note w = fixed_codec.axioms(1) [OF c]
  show "recipient_try_from_bytes L b = Inr r \<longleftrightarrow> recipient_ok r \<and> b = recipient_to_bytes L r"
    by (rule wire_codec.dec_iff [OF w])
  show "recipient_ok r \<Longrightarrow> length (recipient_to_bytes L r) = RECIPIENT_LEN"
    by (rule fixed_codec.length_enc [OF c])
  show "recipient_visit_bytes L b = Inr r \<longleftrightarrow> recipient_try_from_bytes L b = Inr r"
    using fixed_codec.dec_length [OF c, of b r] by (auto simp: recipient_visit_bytes_def map_sum_eq_Inr)
qed

text \<open>A library that satisfies the hypotheses: keys are bytes, text is hexadecimal.\<close>

definition hex_digit :: "nat \<Rightarrow> char" where
  "hex_digit n = ''0123456789abcdef'' ! n"

definition hex_value :: "char \<Rightarrow> nat" where
  "hex_value c = length (takeWhile (\<lambda>x. x \<noteq> c) ''0123456789abcdef'')"

fun hex_encode :: "bytes \<Rightarrow> string" where
  "hex_encode [] = []"
| "hex_encode (b # bs) = hex_digit (unat b div 16) # hex_digit (unat b mod 16) # hex_encode bs"

fun hex_decode :: "string \<Rightarrow> string + bytes" where
  "hex_decode [] = Inr []"
| "hex_decode [c] = Inl ''odd length''"
| "hex_decode (c # d # s) = map_sum (\<lambda>e. e) (\<lambda>bs. of_nat (hex_value c * 16 + hex_value d) # bs) (hex_decode s)"

typedef key32 = "{b :: bytes. length b = 32}"
  by (rule exI [of _ "replicate 32 0"]) simp

definition example_keys :: "key32 key_lib" where
  "example_keys = \<lparr>ed25519_to_bytes = Rep_key32,
     ed25519_from_bytes = (\<lambda>b. if length b = 32 then Inr (Abs_key32 b) else Inl ''length''),
     bs58_encode = hex_encode, bs58_decode = hex_decode\<rparr>"

lemma hex_value_digit: "n < 16 \<Longrightarrow> hex_value (hex_digit n) = n"
  unfolding hex_value_def hex_digit_def
  by (auto simp: less_Suc_eq numeral_eq_Suc)

lemma hex_digit_set: "n < 16 \<Longrightarrow> hex_digit n \<in> set ''0123456789abcdef''"
  unfolding hex_digit_def by (rule nth_mem) simp

lemma unat_byte_nibbles: "unat (b :: byte) div 16 < 16" "unat b mod 16 < 16"
proof -
  have "unat b < 256" using unsigned_less [of b] by simp
  then show "unat b div 16 < 16" "unat b mod 16 < 16" by simp_all
qed

lemma hex_roundtrip: "hex_decode (hex_encode b) = Inr b"
  by (induction b) (simp_all add: hex_value_digit unat_byte_nibbles)

lemma hex_clean: "set (hex_encode b) \<subseteq> set ''0123456789abcdef''"
  by (induction b) (use hex_digit_set unat_byte_nibbles in auto)

lemma key_lib_ok_example: "key_lib_ok example_keys"
  using Rep_key32 hex_clean
  by (fastforce simp: key_lib_ok_def example_keys_def hex_roundtrip Rep_key32_inverse Abs_key32_inverse split: if_splits)

theorem recipient_bytes_exact_witness:
  "recipient_try_from_bytes example_keys
     (recipient_to_bytes example_keys (recipient_new (Abs_key32 (replicate 32 1)) (replicate 32 2) (Abs_key32 (replicate 32 3))))
   = Inr (recipient_new (Abs_key32 (replicate 32 1)) (replicate 32 2) (Abs_key32 (replicate 32 3)))"
  using recipient_bytes_exact [OF key_lib_ok_example, of _
      "recipient_new (Abs_key32 (replicate 32 1)) (replicate 32 2) (Abs_key32 (replicate 32 3))"]
  by (simp add: recipient_ok_def recipient_new_def)

text \<open>
  C27. The printed form of a recipient is read back as the same recipient, and a text without
  exactly one \<open>@\<close>, or without exactly one dot before it, is rejected as malformed.
\<close>

theorem recipient_text_roundtrip:
  assumes "key_lib_ok L"
  shows "(recipient_ok r \<longrightarrow> recipient_from_str L (recipient_fmt L r) = Inr r)
    \<and> (count_list s CHR ''@'' \<noteq> 1 \<longrightarrow> (\<exists>e. recipient_from_str L s = Inl (MalformedRecipientError e)))
    \<and> (count_list s CHR ''@'' = 1 \<and> count_list (takeWhile (\<lambda>c. c \<noteq> CHR ''@'') s) CHR ''.'' \<noteq> 1
        \<longrightarrow> (\<exists>e. recipient_from_str L s = Inl (MalformedRecipientError e)))"
proof (intro conjI impI)
  note clean = assms [unfolded key_lib_ok_def]
  assume r: "recipient_ok r"
  define i e g where "i = identity_to_base58_string L (client_identity r)"
    and "e = encryption_to_base58_string L (client_encryption_key r)"
    and "g = identity_to_base58_string L (gateway r)"
  have n: "CHR ''@'' \<notin> set (i @ ''.'' @ e)" "CHR ''@'' \<notin> set g" "CHR ''.'' \<notin> set i" "CHR ''.'' \<notin> set e"
    using clean by (auto simp: i_def e_def g_def identity_to_base58_string_def encryption_to_base58_string_def)
  have "split_char CHR ''@'' (recipient_fmt L r) = [i @ ''.'' @ e, g]"
    using split_char_append [OF n(1), of g] split_char_no [OF n(2)]
    by (simp add: recipient_fmt_def i_def e_def g_def)
  moreover have "split_char CHR ''.'' (i @ ''.'' @ e) = [i, e]"
    using split_char_append [OF n(3), of e] split_char_no [OF n(4)] by simp
  ultimately show "recipient_from_str L (recipient_fmt L r) = Inr r"
    using clean r
    by (simp add: recipient_from_str_def try_from_base58_string_def i_def e_def g_def identity_to_base58_string_def
        encryption_to_base58_string_def identity_from_base58_string_def encryption_from_base58_string_def
        identity_from_bytes_def encryption_from_bytes_def recipient_ok_def)
next
  assume "count_list s CHR ''@'' \<noteq> 1"
  then have "length (split_char CHR ''@'' s) \<noteq> 2" by (simp add: length_split_char)
  then show "\<exists>e. recipient_from_str L s = Inl (MalformedRecipientError e)"
    by (auto simp: recipient_from_str_def try_from_base58_string_def split: list.splits)
next
  assume s: "count_list s CHR ''@'' = 1 \<and> count_list (takeWhile (\<lambda>c. c \<noteq> CHR ''@'') s) CHR ''.'' \<noteq> 1"
  then obtain t u where tu: "s = t @ CHR ''@'' # u" "CHR ''@'' \<notin> set t"
    by (metis One_nat_def count_notin split_list_first zero_neq_one)
  then have "CHR ''@'' \<notin> set u" using s by (simp add: count_list_0_iff)
  then have "split_char CHR ''@'' s = [t, u]" using tu by (simp add: split_char_append split_char_no)
  moreover have "takeWhile (\<lambda>c. c \<noteq> CHR ''@'') s = t" using tu by (auto simp: takeWhile_append)
  then have "length (split_char CHR ''.'' t) \<noteq> 2" using s by (simp add: length_split_char)
  ultimately show "\<exists>e. recipient_from_str L s = Inl (MalformedRecipientError e)"
    by (auto simp: recipient_from_str_def try_from_base58_string_def split: list.splits)
qed

theorem recipient_text_roundtrip_witness:
  "recipient_from_str example_keys
     (recipient_fmt example_keys (recipient_new (Abs_key32 (replicate 32 1)) (replicate 32 2) (Abs_key32 (replicate 32 3))))
   = Inr (recipient_new (Abs_key32 (replicate 32 1)) (replicate 32 2) (Abs_key32 (replicate 32 3)))
   \<and> (\<exists>e. recipient_from_str example_keys ''abc'' = Inl (MalformedRecipientError e))
   \<and> (\<exists>e. recipient_from_str example_keys ''a.b.c@d'' = Inl (MalformedRecipientError e))"
  using recipient_text_roundtrip [OF key_lib_ok_example,
      of "recipient_new (Abs_key32 (replicate 32 1)) (replicate 32 2) (Abs_key32 (replicate 32 3))" "''abc''"]
    recipient_text_roundtrip [OF key_lib_ok_example, of _ "''a.b.c@d''"]
  by (simp add: recipient_ok_def recipient_new_def)

end
