(* ===== verification/Framing.thy ===== *)
theory Framing
  imports Addressing
begin

text \<open>
  \<open>common/nymsphinx/types\<close> (a packet of either format), \<open>common/nymsphinx/framing\<close> (packets on
  the connections between nodes) and \<open>common/nymsphinx/forwarding\<close> (packets handed to a gateway
  with the address of their first hop).

  \<open>SphinxPacket\<close> belongs to the crate \<open>sphinx_packet\<close>: its type is a parameter and its operations
  are fields of a record argument, next to the crate's constants. The codec changes its buffer;
  here a step returns the buffer it leaves. The capacity reserved for the buffer is not modelled.
\<close>

section \<open>Packets of either format\<close>

record ('s, 'p) sphinx_api = sphinx_consts +
  sphinx_len :: "'s \<Rightarrow> usize"
  sphinx_to_bytes :: "'s \<Rightarrow> bytes"
  sphinx_packet_from_bytes :: "bytes \<Rightarrow> string + 's"
  sphinx_packet_process :: "'s \<Rightarrow> bytes \<Rightarrow> string + 'p"
  sphinx_build_packet :: "usize \<Rightarrow> bytes \<Rightarrow> SphinxNode list \<Rightarrow> bytes \<Rightarrow> nat list \<Rightarrow> string + 's"

datatype NymPacketError = SphinxError string | OutfoxErr OutfoxError | FromSlice

datatype 's NymPacket = Sphinx 's | Outfox OutfoxPacket

datatype 'p NymProcessedPacket = SphinxProcessed 'p | OutfoxProcessed OutfoxProcessedPacket

definition sphinx_build ::
    "('s, 'p) sphinx_api \<Rightarrow> usize \<Rightarrow> bytes \<Rightarrow> SphinxNode list \<Rightarrow> bytes \<Rightarrow> nat list \<Rightarrow> NymPacketError + 's NymPacket" where
  "sphinx_build S n message route destination delays =
     map_sum SphinxError Sphinx (sphinx_build_packet S n message route destination delays)"

definition sphinx_from_bytes :: "('s, 'p) sphinx_api \<Rightarrow> bytes \<Rightarrow> NymPacketError + 's NymPacket" where
  "sphinx_from_bytes S b = map_sum SphinxError Sphinx (sphinx_packet_from_bytes S b)"

definition nym_outfox_build ::
    "outfox_crypto \<Rightarrow> bytes \<Rightarrow> usize \<Rightarrow> bytes \<Rightarrow> SphinxNode list \<Rightarrow> bytes \<Rightarrow> usize option
      \<Rightarrow> (NymPacketError + 's NymPacket) option" where
  "nym_outfox_build c secret_key default_payload_size payload route destination n =
     (if length route \<noteq> 4 then Some (Inl FromSlice)
      else map_option (map_sum OutfoxErr Outfox)
             (outfox_build c secret_key default_payload_size payload route destination n))"

definition outfox_from_bytes :: "bytes \<Rightarrow> (NymPacketError + 's NymPacket) option" where
  "outfox_from_bytes b = map_option (map_sum OutfoxErr Outfox) (outfox_try_from b)"

fun nym_packet_len :: "('s, 'p) sphinx_api \<Rightarrow> 's NymPacket \<Rightarrow> usize" where
  "nym_packet_len S (Sphinx p) = sphinx_len S p"
| "nym_packet_len S (Outfox p) = outfox_len p"

definition nym_packet_is_empty :: "('s, 'p) sphinx_api \<Rightarrow> 's NymPacket \<Rightarrow> bool" where
  "nym_packet_is_empty S self \<longleftrightarrow> nym_packet_len S self = 0"

fun nym_packet_to_bytes :: "('s, 'p) sphinx_api \<Rightarrow> 's NymPacket \<Rightarrow> NymPacketError + bytes" where
  "nym_packet_to_bytes S (Sphinx p) = Inr (sphinx_to_bytes S p)"
| "nym_packet_to_bytes S (Outfox p) = map_sum OutfoxErr (\<lambda>b. b) (outfox_to_bytes p)"

fun nym_packet_process ::
    "('s, 'p) sphinx_api \<Rightarrow> outfox_crypto \<Rightarrow> 's NymPacket \<Rightarrow> bytes \<Rightarrow> (NymPacketError + 'p NymProcessedPacket) option" where
  "nym_packet_process S c (Sphinx p) node_secret_key =
     Some (map_sum SphinxError SphinxProcessed (sphinx_packet_process S p node_secret_key))"
| "nym_packet_process S c (Outfox p) node_secret_key =
     map_option (map_sum OutfoxErr
       (\<lambda>(next_address, p). OutfoxProcessed \<lparr>opp_packet = p, opp_next_address = next_address\<rparr>))
       (decode_next_layer c p node_secret_key)"

section \<open>Frames\<close>

record Header =
  h_packet_version :: PacketVersion
  h_packet_size :: PacketSize
  h_packet_type :: PacketType

record 's FramedNymPacket =
  f_header :: Header
  f_packet :: "'s NymPacket"

datatype NymCodecError =
    CodecInvalidPacketSize InvalidPacketSize
  | CodecInvalidPacketType InvalidPacketType
  | CodecIoError string
  | CodecNymPacket NymPacketError
  | ToBytes
  | FromBytes

text \<open>\<open>unwrap\<close> of an unknown size is the panic.\<close>

definition framed_new ::
    "('s, 'p) sphinx_api \<Rightarrow> 's NymPacket \<Rightarrow> PacketType \<Rightarrow> bool \<Rightarrow> 's FramedNymPacket option" where
  "framed_new S packet packet_type use_legacy_version =
     (case get_type S (nym_packet_len S packet) of
        Some (Inr packet_size) \<Rightarrow>
          let use_legacy = (if packet_type = OutfoxType then False else use_legacy_version) in
          Some \<lparr>f_header = \<lparr>h_packet_version = packet_version_new use_legacy,
                           h_packet_size = packet_size,
                           h_packet_type = packet_type\<rparr>,
                f_packet = packet\<rparr>
      | _ \<Rightarrow> None)"

abbreviation LEGACY_SIZE :: usize where "LEGACY_SIZE \<equiv> 2"
abbreviation VERSIONED_SIZE :: usize where "VERSIONED_SIZE \<equiv> 3"

definition header_outfox :: Header where
  "header_outfox = \<lparr>h_packet_version = packet_version_default,
     h_packet_size = OutfoxRegularPacket, h_packet_type = OutfoxType\<rparr>"

definition frame_header_size :: "Header \<Rightarrow> usize" where
  "frame_header_size self = (if is_legacy (h_packet_version self) then LEGACY_SIZE else VERSIONED_SIZE)"

definition header_encode :: "Header \<Rightarrow> bytes \<Rightarrow> bytes" where
  "header_encode self dst =
     (let dst = (case packet_version_as_u8 (h_packet_version self) of
            Some version \<Rightarrow> dst @ [version]
          | None \<Rightarrow> dst) in
      dst @ [packet_size_as_u8 (h_packet_size self)] @ [packet_type_as_u8 (h_packet_type self)])"

definition header_decode :: "bytes \<Rightarrow> NymCodecError + Header option" where
  "header_decode src =
     (if length src < LEGACY_SIZE then Inr None
      else
        let packet_version = packet_version_from (src ! 0) in
        if is_legacy packet_version then
          sbind (map_sum CodecInvalidPacketSize (\<lambda>s. s) (packet_size_try_from (src ! 0))) (\<lambda>packet_size.
          sbind (map_sum CodecInvalidPacketType (\<lambda>t. t) (packet_type_try_from (src ! 1))) (\<lambda>packet_type.
          Inr (Some \<lparr>h_packet_version = packet_version, h_packet_size = packet_size, h_packet_type = packet_type\<rparr>)))
        else if length src < VERSIONED_SIZE then Inr None
        else
          sbind (map_sum CodecInvalidPacketSize (\<lambda>s. s) (packet_size_try_from (src ! 1))) (\<lambda>packet_size.
          sbind (map_sum CodecInvalidPacketType (\<lambda>t. t) (packet_type_try_from (src ! 2))) (\<lambda>packet_type.
          Inr (Some \<lparr>h_packet_version = packet_version, h_packet_size = packet_size, h_packet_type = packet_type\<rparr>))))"

definition codec_encode :: "('s, 'p) sphinx_api \<Rightarrow> 's FramedNymPacket \<Rightarrow> bytes \<Rightarrow> NymCodecError + bytes" where
  "codec_encode S item dst =
     sbind (map_sum CodecNymPacket (\<lambda>b. b) (nym_packet_to_bytes S (f_packet item))) (\<lambda>packet_bytes.
     Inr (header_encode (f_header item) dst @ packet_bytes))"

definition packet_from_bytes ::
    "('s, 'p) sphinx_api \<Rightarrow> PacketType \<Rightarrow> bytes \<Rightarrow> (NymPacketError + 's NymPacket) option" where
  "packet_from_bytes S packet_type b =
     (case packet_type of
        OutfoxType \<Rightarrow> outfox_from_bytes b
      | Mix \<Rightarrow> Some (sphinx_from_bytes S b)
      | Vpn \<Rightarrow> Some (sphinx_from_bytes S b))"

text \<open>The decoder; a malformed packet is taken off the buffer, a malformed header is not.\<close>

definition codec_decode :: "('s, 'p) sphinx_api \<Rightarrow> ('s FramedNymPacket, NymCodecError) stream_step" where
  "codec_decode S src =
     (if src = [] then Some (Inr None, src)
      else case header_decode src of
        Inl e \<Rightarrow> Some (Inl e, src)
      | Inr None \<Rightarrow> Some (Inr None, src)
      | Inr (Some hdr) \<Rightarrow>
          let packet_size = packet_size_size S (h_packet_size hdr);
              frame_len = frame_header_size hdr + packet_size in
          if length src < frame_len then Some (Inr None, src)
          else
            let src = drop (frame_header_size hdr) src;
                packet_bytes = take packet_size src;
                src = drop packet_size src in
            case packet_from_bytes S (h_packet_type hdr) packet_bytes of
              None \<Rightarrow> None
            | Some (Inl e) \<Rightarrow> Some (Inl (CodecNymPacket e), src)
            | Some (Inr packet) \<Rightarrow> Some (Inr (Some \<lparr>f_header = hdr, f_packet = packet\<rparr>), src))"

section \<open>Packets for a gateway\<close>

datatype MixPacketFormattingError =
    TooFewBytes
  | MixInvalidPacketType
  | MixInvalidPacketSize usize
  | InvalidAddress
  | MalformedSphinxPacket
  | MixPacketErr NymPacketError

record 's MixPacket =
  next_hop :: NymNodeRoutingAddress
  mp_packet :: "'s NymPacket"
  mp_packet_type :: PacketType

definition mix_packet_try_from_bytes ::
    "('s, 'p) sphinx_api \<Rightarrow> bytes \<Rightarrow> (MixPacketFormattingError + 's MixPacket) option" where
  "mix_packet_try_from_bytes S b =
     pbind (panicking (index b 0)) (\<lambda>b0.
     case packet_type_try_from b0 of
       Inl _ \<Rightarrow> Some (Inl MixInvalidPacketType)
     | Inr packet_type \<Rightarrow>
     pbind (panicking (slice_from b 1)) (\<lambda>b1.
     case node_address_try_from_bytes b1 of
       Inl _ \<Rightarrow> Some (Inl InvalidAddress)
     | Inr hop \<Rightarrow>
     pbind (panicking (slice_from b (bytes_min_len hop + 1))) (\<lambda>packet_data.
     pbind (case get_type S (length packet_data) of
              None \<Rightarrow> None
            | Some (Inl _) \<Rightarrow> Some (Inl (MixInvalidPacketSize (length packet_data)))
            | Some (Inr _) \<Rightarrow> Some (Inr ())) (\<lambda>_.
     pbind (map_option (map_sum MixPacketErr (\<lambda>p. p))
             (case packet_type of
                OutfoxType \<Rightarrow> outfox_from_bytes packet_data
              | _ \<Rightarrow> Some (sphinx_from_bytes S packet_data))) (\<lambda>packet.
     Some (Inr \<lparr>next_hop = hop, mp_packet = packet, mp_packet_type = packet_type\<rparr>))))))"

definition mix_packet_into_bytes :: "('s, 'p) sphinx_api \<Rightarrow> 's MixPacket \<Rightarrow> MixPacketFormattingError + bytes" where
  "mix_packet_into_bytes S self =
     sbind (map_sum MixPacketErr (\<lambda>b. b) (nym_packet_to_bytes S (mp_packet self))) (\<lambda>packet_bytes.
     Inr ([packet_type_as_u8 (mp_packet_type self)] @ node_address_as_bytes (next_hop self) @ packet_bytes))"

section \<open>Headers\<close>

definition header_ok :: "Header \<Rightarrow> bool" where
  "header_ok h \<longleftrightarrow> h_packet_type h \<noteq> Vpn
     \<and> (case h_packet_version h of
          Legacy \<Rightarrow> packet_size_as_u8 (h_packet_size h) \<in> {1, 2, 3, 4, 5}
        | Versioned v \<Rightarrow> v \<notin> {1, 2, 3, 4, 5})"

abbreviation header_bytes :: "Header \<Rightarrow> bytes" where
  "header_bytes h \<equiv> header_encode h []"

lemma header_encode_append: "header_encode h dst = dst @ header_bytes h"
  by (simp add: header_encode_def split: option.splits)

lemma length_header_bytes [simp]: "length (header_bytes h) = frame_header_size h"
  by (cases "h_packet_version h") (simp_all add: header_encode_def frame_header_size_def)

lemma header_roundtrip_frame:
  assumes "header_ok h"
  shows "header_decode (header_bytes h @ r) = Inr (Some h)"
proof (cases "h_packet_version h")
  case Legacy
  have "packet_version_from (packet_size_as_u8 (h_packet_size h)) = Legacy"
    using assms Legacy unfolding packet_version_from_iff by (simp add: header_ok_def)
  moreover have "packet_size_try_from (packet_size_as_u8 (h_packet_size h)) = Inr (h_packet_size h)"
    "packet_type_try_from (packet_type_as_u8 (h_packet_type h)) = Inr (h_packet_type h)"
    using assms by (simp_all add: packet_size_try_from_iff packet_type_try_from_iff header_ok_def)
  ultimately show ?thesis using Legacy by (cases h) (simp add: header_decode_def header_encode_def)
next
  case (Versioned v)
  have "packet_version_from v = Versioned v"
    using assms Versioned unfolding packet_version_from_iff by (simp add: header_ok_def)
  moreover have "packet_size_try_from (packet_size_as_u8 (h_packet_size h)) = Inr (h_packet_size h)"
    "packet_type_try_from (packet_type_as_u8 (h_packet_type h)) = Inr (h_packet_type h)"
    using assms by (simp_all add: packet_size_try_from_iff packet_type_try_from_iff header_ok_def)
  ultimately show ?thesis using Versioned by (cases h) (simp add: header_decode_def header_encode_def)
qed

lemma header_partial:
  assumes "header_ok h" "header_bytes h = b @ c" "c \<noteq> []"
  shows "header_decode b = Inr None"
proof (cases "length b < LEGACY_SIZE")
  case False
  have len: "length b < length (header_bytes h)" using assms(2,3) by simp
  then obtain v where v: "h_packet_version h = Versioned v"
    using False by (cases "h_packet_version h") (simp_all add: frame_header_size_def)
  then have b: "length b = 2" "b ! 0 = v"
    using False len assms(2) by (auto simp: frame_header_size_def header_encode_def Cons_eq_append_conv)
  have "packet_version_from v = Versioned v"
    using assms(1) v unfolding packet_version_from_iff by (simp add: header_ok_def)
  then show ?thesis using b by (simp add: header_decode_def)
qed (simp add: header_decode_def)

section \<open>Frames\<close>

text \<open>What \<open>sphinx_packet\<close> promises: a packet survives its bytes, which have its length.\<close>

definition sphinx_ok :: "('s, 'p) sphinx_api \<Rightarrow> bool" where
  "sphinx_ok S \<longleftrightarrow> (\<forall>p. sphinx_packet_from_bytes S (sphinx_to_bytes S p) = Inr p
     \<and> length (sphinx_to_bytes S p) = sphinx_len S p)"

fun packet_bytes :: "('s, 'p) sphinx_api \<Rightarrow> 's NymPacket \<Rightarrow> bytes" where
  "packet_bytes S (Sphinx p) = sphinx_to_bytes S p"
| "packet_bytes S (Outfox p) = mix_params_to_bytes (mix_params p) @ op_payload p"

lemma nym_packet_to_bytes_eq: "nym_packet_to_bytes S p = Inr (packet_bytes S p)"
  by (cases p) (simp_all add: outfox_to_bytes_def)

text \<open>The type that a packet is announced with.\<close>

fun packet_kind_ok :: "PacketType \<Rightarrow> 's NymPacket \<Rightarrow> bool" where
  "packet_kind_ok t (Sphinx _) \<longleftrightarrow> t = Mix"
| "packet_kind_ok t (Outfox p) \<longleftrightarrow> t = OutfoxType \<and> mix_params_ok (mix_params p)"

lemma outfox_from_packet_bytes:
  assumes "mix_params_ok (mix_params p)"
  shows "outfox_from_bytes (mix_params_to_bytes (mix_params p) @ op_payload p) = Some (Inr (Outfox p))"
  using mix_params_wire.length_enc [OF assms] mix_params_wire.dec_enc [OF assms]
  by (simp add: outfox_from_bytes_def outfox_try_from_def split_at_def)

lemma packet_from_packet_bytes:
  assumes "sphinx_ok S" "packet_kind_ok t p"
  shows "packet_from_bytes S t (packet_bytes S p) = Some (Inr p)"
  using assms
  by (cases p) (simp_all add: packet_from_bytes_def sphinx_from_bytes_def sphinx_ok_def outfox_from_packet_bytes)

definition framed_ok :: "('s, 'p) sphinx_api \<Rightarrow> 's FramedNymPacket \<Rightarrow> bool" where
  "framed_ok S f \<longleftrightarrow> header_ok (f_header f) \<and> packet_kind_ok (h_packet_type (f_header f)) (f_packet f)
     \<and> length (packet_bytes S (f_packet f)) = packet_size_size S (h_packet_size (f_header f))"

definition frame_bytes :: "('s, 'p) sphinx_api \<Rightarrow> 's FramedNymPacket \<Rightarrow> bytes" where
  "frame_bytes S f = header_bytes (f_header f) @ packet_bytes S (f_packet f)"

lemma codec_encode_eq: "codec_encode S f dst = Inr (dst @ frame_bytes S f)"
  unfolding codec_encode_def nym_packet_to_bytes_eq
  by (simp add: header_encode_append [of _ dst] frame_bytes_def)

lemma codec_decode_frame:
  assumes "sphinx_ok S" "framed_ok S f"
  shows "codec_decode S (frame_bytes S f @ r) = Some (Inr (Some f), r)"
proof -
  have h: "header_decode (frame_bytes S f @ r) = Inr (Some (f_header f))"
    using header_roundtrip_frame assms(2) by (simp add: frame_bytes_def framed_ok_def)
  have l: "length (packet_bytes S (f_packet f)) = packet_size_size S (h_packet_size (f_header f))"
    using assms(2) by (simp add: framed_ok_def)
  have ne: "frame_bytes S f @ r \<noteq> []"
    by (auto simp: frame_bytes_def header_encode_def split: option.splits)
  have parts: "drop (frame_header_size (f_header f)) (frame_bytes S f @ r) = packet_bytes S (f_packet f) @ r"
    by (simp add: frame_bytes_def)
  have tk: "take (packet_size_size S (h_packet_size (f_header f))) (packet_bytes S (f_packet f) @ r) = packet_bytes S (f_packet f)"
    "drop (packet_size_size S (h_packet_size (f_header f))) (packet_bytes S (f_packet f) @ r) = r"
    unfolding l [symmetric] by simp_all
  have ln: "\<not> length (frame_bytes S f @ r) < frame_header_size (f_header f) + packet_size_size S (h_packet_size (f_header f))"
    unfolding l [symmetric] by (simp add: frame_bytes_def)
  have pk: "packet_from_bytes S (h_packet_type (f_header f)) (packet_bytes S (f_packet f)) = Some (Inr (f_packet f))"
    using packet_from_packet_bytes [OF assms(1)] assms(2) by (simp add: framed_ok_def)
  show ?thesis
    unfolding codec_decode_def h sum.case option.case Let_def parts tk pk using ne ln by simp
qed

lemma codec_decode_partial:
  assumes "framed_ok S f" "frame_bytes S f = b @ c" "c \<noteq> []"
  shows "codec_decode S b = Some (Inr None, b)"
proof (cases "length b < frame_header_size (f_header f)")
  case True
  then obtain d where "header_bytes (f_header f) = b @ d" "d \<noteq> []"
    using append_split_less [OF assms(2) [unfolded frame_bytes_def]] by auto
  then have "header_decode b = Inr None"
    using assms(1) by (intro header_partial) (simp_all add: framed_ok_def)
  then show ?thesis by (simp add: codec_decode_def)
next
  case False
  then obtain d where b: "b = header_bytes (f_header f) @ d"
    using append_split_le [OF assms(2) [unfolded frame_bytes_def]] by auto
  then have "header_decode b = Inr (Some (f_header f))"
    using header_roundtrip_frame assms(1) by (simp add: framed_ok_def)
  moreover have "length b < frame_header_size (f_header f) + packet_size_size S (h_packet_size (f_header f))"
    using arg_cong [OF assms(2), of length] assms(1,3) by (simp add: frame_bytes_def framed_ok_def)
  ultimately show ?thesis by (simp add: codec_decode_def)
qed

lemma codec_decode_empty: "codec_decode S [] = Some (Inr None, [])"
  by (simp add: codec_decode_def)

interpretation nym_codec: stream_codec "frame_bytes S" "codec_decode S" "\<lambda>f. sphinx_ok S \<and> framed_ok S f"
  for S :: "('s, 'p) sphinx_api"
  by unfold_locales (auto simp: codec_decode_frame codec_decode_empty intro: codec_decode_partial)

lemma short_outfox_framed:
  assumes "SPHINX_PACKET_OVERHEAD S \<notin> {323, 2350}" "nym_packet_len S (Outfox p) = 2371"
  shows "framed_new S (Outfox p) OutfoxType legacy
    = Some \<lparr>f_header = \<lparr>h_packet_version = Versioned 7, h_packet_size = OutfoxRegularPacket, h_packet_type = OutfoxType\<rparr>,
        f_packet = Outfox p\<rparr>"
proof -
  have "get_type S 2371 = Some (Inr OutfoxRegularPacket)"
    using assms(1) by (auto simp: get_type_def sphinx_sizes outfox_sizes usize_add_def)
  then show ?thesis using assms(2) by (simp add: framed_new_def packet_version_new_def new_versioned_def)
qed

text \<open>A frame whose header announces more bytes than were sent.\<close>

lemma codec_decode_short_frame:
  assumes "header_ok h" "length d < frame_header_size h + packet_size_size S (h_packet_size h)"
    and "d @ c = header_bytes h @ r"
  shows "codec_decode S d = Some (Inr None, d)"
proof (cases "length d < frame_header_size h")
  case True
  then obtain c' where "header_bytes h = d @ c'" "c' \<noteq> []"
    using append_split_less [OF assms(3) [symmetric]] by auto
  then have "header_decode d = Inr None" using assms(1) by (intro header_partial)
  then show ?thesis by (simp add: codec_decode_def)
next
  case False
  then obtain c' where "d = header_bytes h @ c'" using append_split_le [OF assms(3) [symmetric]] by auto
  then show ?thesis using assms(1,2) header_roundtrip_frame by (simp add: codec_decode_def)
qed

lemma outfox_from_longer_bytes:
  assumes "mix_params_ok (mix_params p)"
  shows "outfox_from_bytes (mix_params_to_bytes (mix_params p) @ op_payload p @ x)
    = Some (Inr (Outfox (p\<lparr>op_payload := op_payload p @ x\<rparr>)))"
  using outfox_from_packet_bytes [of "p\<lparr>op_payload := op_payload p @ x\<rparr>"] assms by simp

section \<open>Properties\<close>

text \<open>
  C4. Frames sent over a connection arrive whole and in order, however the connection cuts the
  bytes into chunks: encoding appends a frame to the buffer, and decoding the buffer again and
  again, after every chunk, gives back exactly the frames that were encoded and leaves no byte
  over. This needs the headers to be ones the decoder can read and the announced size and type to
  be those of the packet.
\<close>

theorem nym_codec_stream:
  assumes "sphinx_ok S" "list_all (framed_ok S) frames" "concat chunks = concat (map (frame_bytes S) frames)"
  shows "receive (codec_decode S) [] chunks = Some (Inr frames, [])
    \<and> codec_encode S f dst = Inr (dst @ frame_bytes S f)"
proof
  have "list_all (\<lambda>f. sphinx_ok S \<and> framed_ok S f) frames"
    using assms(1,2) by (simp add: list_all_iff)
  then show "receive (codec_decode S) [] chunks = Some (Inr frames, [])"
    using assms(3) by (rule nym_codec.receive_any_chunking)
qed (rule codec_encode_eq)

text \<open>An instance of the packet library: a packet is its own bytes.\<close>

definition example_sphinx :: "(bytes, unit) sphinx_api" where
  "example_sphinx = \<lparr>HEADER_SIZE = 348, PAYLOAD_OVERHEAD_SIZE = 17, sphinx_len = length,
     sphinx_to_bytes = (\<lambda>b. b), sphinx_packet_from_bytes = Inr,
     sphinx_packet_process = (\<lambda>_ _. Inl ''process''), sphinx_build_packet = (\<lambda>_ m _ _ _. Inr m)\<rparr>"

lemma sphinx_ok_example: "sphinx_ok example_sphinx"
  by (simp add: sphinx_ok_def example_sphinx_def)

lemma example_overhead: "SPHINX_PACKET_OVERHEAD example_sphinx = 365"
  by (simp add: SPHINX_PACKET_OVERHEAD_def example_sphinx_def)

definition example_frame :: "bytes FramedNymPacket" where
  "example_frame = \<lparr>f_header = \<lparr>h_packet_version = Versioned 7, h_packet_size = AckPacket, h_packet_type = Mix\<rparr>,
     f_packet = Sphinx (replicate 386 5)\<rparr>"

theorem nym_codec_stream_witness:
  "receive (codec_decode example_sphinx) [] [take 2 (frame_bytes example_sphinx example_frame),
       drop 2 (frame_bytes example_sphinx example_frame) @ take 100 (frame_bytes example_sphinx example_frame),
       drop 100 (frame_bytes example_sphinx example_frame)]
   = Some (Inr [example_frame, example_frame], [])"
proof -
  have ok: "list_all (framed_ok example_sphinx) [example_frame, example_frame]"
    using example_overhead
    by (simp add: framed_ok_def example_frame_def header_ok_def sphinx_sizes) (simp add: example_sphinx_def)
  have "concat [take 2 (frame_bytes example_sphinx example_frame),
       drop 2 (frame_bytes example_sphinx example_frame) @ take 100 (frame_bytes example_sphinx example_frame),
       drop 100 (frame_bytes example_sphinx example_frame)]
    = concat (map (frame_bytes example_sphinx) [example_frame, example_frame])"
    using append_take_drop_id [of 2 "frame_bytes example_sphinx example_frame"]
      append_take_drop_id [of 100 "frame_bytes example_sphinx example_frame"]
    by (metis append.assoc concat.simps list.simps(9) append_Nil2 map_is_Nil_conv list.simps(8))
  then show ?thesis using nym_codec_stream [OF sphinx_ok_example ok] by blast
qed

text \<open>
  C23. The frames that \<open>FramedNymPacket::new\<close> makes are ones the codec delivers: for a packet of one
  of the known sizes, announced with its own type, the constructor does not panic, keeps the
  packet and makes a frame that satisfies the decoder's requirements, in the legacy format too.
\<close>

theorem framed_new_ok:
  assumes "SPHINX_PACKET_OVERHEAD S + 40000 \<le> usize_max" "SPHINX_PACKET_OVERHEAD S \<notin> {329, 356, 2356}"
    and "packet_kind_ok t p" "packet_type_from_size s = t"
    and "nym_packet_len S p = packet_size_size S s" "length (packet_bytes S p) = nym_packet_len S p"
  shows "\<exists>f. framed_new S p t legacy = Some f \<and> framed_ok S f \<and> f_packet f = p"
proof -
  have g: "get_type S (nym_packet_len S p) = Some (Inr s)"
    unfolding assms(5) using assms(1,2)
    by (cases s) (auto simp: get_type_def sphinx_sizes outfox_sizes usize_add_def)
  have "t \<noteq> Vpn" using assms(4) by (cases s) auto
  moreover have "packet_size_as_u8 s \<in> {1, 2, 3, 4, 5}" if "t \<noteq> OutfoxType"
    using assms(4) that by (cases s) auto
  moreover have "length (packet_bytes S p) = packet_size_size S s" using assms(5,6) by simp
  ultimately show ?thesis
    unfolding framed_new_def g using assms(3)
    by (auto simp: framed_ok_def header_ok_def packet_version_new_def new_legacy_def new_versioned_def Let_def)
qed

theorem framed_new_ok_witness:
  "\<exists>f. framed_new example_sphinx (Sphinx (replicate 386 5)) Mix True = Some f
     \<and> framed_ok example_sphinx f \<and> f_packet f = Sphinx (replicate 386 5)"
  by (rule framed_new_ok [where s = AckPacket])
    (simp_all add: example_overhead sphinx_sizes, simp_all add: example_sphinx_def)

text \<open>
  C35. An Outfox packet six bytes shorter than a regular one is never delivered as it was sent:
  \<open>get_type\<close> counts it as regular, so its frame announces six bytes more than it has. As long as
  fewer than six bytes follow, the receiver delivers nothing, however the bytes are cut into
  chunks. As soon as six bytes follow, it delivers a packet with those six bytes appended to the
  payload, and they are missing from what comes next.
\<close>

theorem short_outfox_frame_swallows:
  fixes S :: "('s, 'p) sphinx_api"
  assumes "SPHINX_PACKET_OVERHEAD S \<notin> {323, 2350}" "mix_params_ok (mix_params p)"
    and "nym_packet_len S (Outfox p) = 2371" "length (packet_bytes S (Outfox p)) = 2371"
  shows "\<exists>f. framed_new S (Outfox p) OutfoxType legacy = Some f \<and> f_packet f = Outfox p
    \<and> (\<forall>r chunks. length r < 6 \<and> concat chunks = frame_bytes S f @ r \<longrightarrow>
         receive (codec_decode S) [] chunks = Some (Inr [], frame_bytes S f @ r))
    \<and> (\<forall>r. 6 \<le> length r \<longrightarrow> codec_decode S (frame_bytes S f @ r)
         = Some (Inr (Some (f\<lparr>f_packet := Outfox (p\<lparr>op_payload := op_payload p @ take 6 r\<rparr>)\<rparr>)), drop 6 r))"
proof -
  define h where "h = \<lparr>h_packet_version = Versioned 7, h_packet_size = OutfoxRegularPacket, h_packet_type = OutfoxType\<rparr>"
  define f :: "'s FramedNymPacket" where "f = \<lparr>f_header = h, f_packet = Outfox p\<rparr>"
  have new: "framed_new S (Outfox p) OutfoxType legacy = Some f" "f_packet f = Outfox p"
    unfolding f_def h_def by (rule short_outfox_framed [OF assms(1,3)]) simp
  have h: "header_ok h" "frame_header_size h = 3" "packet_size_size S (h_packet_size h) = 2377" "h_packet_type h = OutfoxType"
    by (simp_all add: h_def header_ok_def frame_header_size_def outfox_sizes)
  have bytes: "frame_bytes S f = header_bytes h @ packet_bytes S (Outfox p)" by (simp add: f_def frame_bytes_def)
  have "receive (codec_decode S) [] chunks = Some (Inr [], frame_bytes S f @ r)"
    if r: "length r < 6" "concat chunks = frame_bytes S f @ r" for r chunks
  proof (rule receive_waits)
    fix b c assume b: "b @ c = frame_bytes S f @ r"
    have "length b \<le> length (frame_bytes S f @ r)" unfolding b [symmetric] by simp
    also have "\<dots> < 2380" using r(1) h(2) assms(4) bytes by simp
    finally have len: "length b < frame_header_size h + packet_size_size S (h_packet_size h)" using h(2,3) by simp
    show "codec_decode S b = Some (Inr None, b)"
      by (rule codec_decode_short_frame [OF h(1) len, of c]) (simp only: b bytes append_assoc)
  qed (use r in simp)
  moreover have "codec_decode S (frame_bytes S f @ r)
      = Some (Inr (Some (f\<lparr>f_packet := Outfox (p\<lparr>op_payload := op_payload p @ take 6 r\<rparr>)\<rparr>)), drop 6 r)"
    if r: "6 \<le> length r" for r
  proof -
    define rest where "rest = packet_bytes S (Outfox p) @ r"
    have "header_decode (header_bytes h @ rest) = Inr (Some h)" by (rule header_roundtrip_frame [OF h(1)])
    moreover have "take 2377 rest = packet_bytes S (Outfox p) @ take 6 r" "drop 2377 rest = drop 6 r" "2377 \<le> length rest"
      using assms(4) r by (simp_all add: rest_def del: packet_bytes.simps)
    moreover have "packet_from_bytes S OutfoxType (packet_bytes S (Outfox p) @ take 6 r)
        = Some (Inr (Outfox (p\<lparr>op_payload := op_payload p @ take 6 r\<rparr>)))"
      using outfox_from_longer_bytes [OF assms(2)] by (simp add: packet_from_bytes_def)
    moreover have "header_bytes h @ rest \<noteq> []" using h(2) by (auto simp flip: length_0_conv)
    ultimately have "codec_decode S (header_bytes h @ rest)
        = Some (Inr (Some \<lparr>f_header = h, f_packet = Outfox (p\<lparr>op_payload := op_payload p @ take 6 r\<rparr>)\<rparr>), drop 6 r)"
      using h(2-4) by (simp add: codec_decode_def)
    then show ?thesis unfolding rest_def bytes append_assoc by (simp add: f_def)
  qed
  ultimately show ?thesis using new by blast
qed

definition short_outfox :: OutfoxPacket where
  "short_outfox = \<lparr>mix_params = mix_params_new 2045, op_payload = replicate 2365 0\<rparr>"

theorem short_outfox_frame_swallows_witness:
  "\<exists>f. framed_new example_sphinx (Outfox short_outfox) OutfoxType False = Some f
    \<and> receive (codec_decode example_sphinx) [] [frame_bytes example_sphinx f] = Some (Inr [], frame_bytes example_sphinx f)
    \<and> codec_decode example_sphinx (frame_bytes example_sphinx f @ [1, 2, 3, 4, 5, 6])
      = Some (Inr (Some (f\<lparr>f_packet := Outfox (short_outfox\<lparr>op_payload := replicate 2365 0 @ [1, 2, 3, 4, 5, 6]\<rparr>)\<rparr>)), [])"
proof -
  have "\<exists>f. framed_new example_sphinx (Outfox short_outfox) OutfoxType False = Some f \<and> f_packet f = Outfox short_outfox
    \<and> (\<forall>r chunks. length r < 6 \<and> concat chunks = frame_bytes example_sphinx f @ r \<longrightarrow>
         receive (codec_decode example_sphinx) [] chunks = Some (Inr [], frame_bytes example_sphinx f @ r))
    \<and> (\<forall>r. 6 \<le> length r \<longrightarrow> codec_decode example_sphinx (frame_bytes example_sphinx f @ r)
         = Some (Inr (Some (f\<lparr>f_packet := Outfox (short_outfox\<lparr>op_payload := op_payload short_outfox @ take 6 r\<rparr>)\<rparr>)), drop 6 r))"
    by (rule short_outfox_frame_swallows)
      (simp_all add: short_outfox_def example_overhead outfox_len_def total_packet_length_eq mix_params_new_def mix_params_to_bytes_def mix_params_ok_def)
  then obtain f where f: "framed_new example_sphinx (Outfox short_outfox) OutfoxType False = Some f"
    "\<And>r chunks. length r < 6 \<and> concat chunks = frame_bytes example_sphinx f @ r \<Longrightarrow>
         receive (codec_decode example_sphinx) [] chunks = Some (Inr [], frame_bytes example_sphinx f @ r)"
    "\<And>r. 6 \<le> length r \<Longrightarrow> codec_decode example_sphinx (frame_bytes example_sphinx f @ r)
         = Some (Inr (Some (f\<lparr>f_packet := Outfox (short_outfox\<lparr>op_payload := op_payload short_outfox @ take 6 r\<rparr>)\<rparr>)), drop 6 r)"
    by blast
  from f(1) f(2) [of "[]" "[frame_bytes example_sphinx f]"] f(3) [of "[1, 2, 3, 4, 5, 6]"]
  show ?thesis by (intro exI [of _ f]) (simp add: short_outfox_def)
qed
section \<open>Packets for a gateway\<close>

lemma get_type_min_length:
  assumes "get_type S n = Some (Inr s)"
  shows "6 \<le> n"
  using assms
  by (auto simp: get_type_def sphinx_sizes outfox_sizes usize_add_def pbind_def panicking_def split: if_splits)

text \<open>
  C24. A packet with the address of its next hop survives its byte form: what is written is read
  back unchanged. The parser panics on the empty byte string and on no other.
\<close>

theorem mix_packet_bytes:
  assumes "sphinx_ok (S :: ('s, 'p) sphinx_api)"
  shows "(node_address_ok (next_hop m) \<and> packet_kind_ok (mp_packet_type m) (mp_packet m)
       \<and> (\<exists>s. get_type S (length (packet_bytes S (mp_packet m))) = Some (Inr s))
      \<longrightarrow> (\<exists>b. mix_packet_into_bytes S m = Inr b \<and> mix_packet_try_from_bytes S b = Some (Inr m)))
    \<and> (length b + 6 \<le> usize_max \<longrightarrow> (mix_packet_try_from_bytes S b = None \<longleftrightarrow> b = []))"
proof (intro conjI impI)
  assume m: "node_address_ok (next_hop m) \<and> packet_kind_ok (mp_packet_type m) (mp_packet m)
       \<and> (\<exists>s. get_type S (length (packet_bytes S (mp_packet m))) = Some (Inr s))"
  let ?b = "packet_type_as_u8 (mp_packet_type m) # node_address_as_bytes (next_hop m) @ packet_bytes S (mp_packet m)"
  have "mix_packet_into_bytes S m = Inr ?b"
    by (simp add: mix_packet_into_bytes_def nym_packet_to_bytes_eq)
  moreover have t: "packet_type_try_from (packet_type_as_u8 (mp_packet_type m)) = Inr (mp_packet_type m)"
    unfolding packet_type_try_from_iff using m by (cases "mp_packet m") auto
  have p: "(case mp_packet_type m of OutfoxType \<Rightarrow> outfox_from_bytes (packet_bytes S (mp_packet m))
      | _ \<Rightarrow> Some (sphinx_from_bytes S (packet_bytes S (mp_packet m)))) = Some (Inr (mp_packet m))"
    using packet_from_packet_bytes [OF assms, of "mp_packet_type m" "mp_packet m"] m
    by (cases "mp_packet_type m") (simp_all add: packet_from_bytes_def)
  have "mix_packet_try_from_bytes S ?b = Some (Inr m)"
    using m t p length_node_address [of "next_hop m"] node_address_dec_enc [of "next_hop m"]
    by (auto simp: mix_packet_try_from_bytes_def index_def slice_from_def)
  ultimately show "\<exists>b. mix_packet_into_bytes S m = Inr b \<and> mix_packet_try_from_bytes S b = Some (Inr m)" by blast
next
  assume len: "length b + 6 \<le> usize_max"
  show "mix_packet_try_from_bytes S b = None \<longleftrightarrow> b = []"
  proof
    assume none: "mix_packet_try_from_bytes S b = None"
    show "b = []"
    proof (rule ccontr)
      assume "b \<noteq> []"
      then obtain x y where b: "b = x # y" by (cases b) auto
      obtain t a where t: "packet_type_try_from x = Inr t" and a: "node_address_try_from_bytes y = Inr a"
        using none b by (auto simp: mix_packet_try_from_bytes_def index_def slice_from_def split: sum.splits)
      obtain r where r: "node_address_ok a" "y = node_address_as_bytes a @ r" using node_address_dec_sound [OF a] by blast
      have "length r + 6 \<le> usize_max" using len by (simp add: b r)
      then have g: "get_type S (length r) \<noteq> None"
        by (auto simp: get_type_def usize_add_def)
      have "outfox_from_bytes r \<noteq> (None :: (NymPacketError + 's NymPacket) option)"
        if "get_type S (length r) = Some (Inr s)" for s
        using get_type_min_length [OF that] by (auto simp: outfox_from_bytes_def outfox_try_from_def split_at_def)
      then show False
        using none b t a r g length_node_address [OF r(1)]
        by (auto simp: mix_packet_try_from_bytes_def index_def slice_from_def pbind_eq_None
            split: sum.splits option.splits PacketType.splits)
    qed
  qed (simp add: mix_packet_try_from_bytes_def index_def)
qed

definition example_mix_packet :: "bytes MixPacket" where
  "example_mix_packet = \<lparr>next_hop = NymNodeRoutingAddress (V4 [127, 0, 0, 1] 1789),
     mp_packet = Sphinx (replicate 386 5), mp_packet_type = Mix\<rparr>"

theorem mix_packet_bytes_witness:
  "(\<exists>b. mix_packet_into_bytes example_sphinx example_mix_packet = Inr b
      \<and> mix_packet_try_from_bytes example_sphinx b = Some (Inr example_mix_packet))
   \<and> mix_packet_try_from_bytes example_sphinx [] = None"
proof -
  have "get_type example_sphinx 386 = Some (Inr AckPacket)"
    by (simp add: get_type_def sphinx_sizes example_overhead)
  then show ?thesis
    using mix_packet_bytes [OF sphinx_ok_example, of example_mix_packet "[]"]
    by (simp add: example_mix_packet_def) (simp add: example_sphinx_def)
qed

end
