(* ===== verification/Utf8.thy ===== *)
theory Utf8
  imports Rust_Base
begin

text \<open>
  Strings of the standard library, as their UTF-8 bytes: which byte strings are strings
  (\<open>String::from_utf8\<close>) and the replacement of malformed parts (\<open>String::from_utf8_lossy\<close>).
\<close>

type_synonym rust_string = bytes

abbreviation continuation :: "byte \<Rightarrow> bool" where
  "continuation b \<equiv> 128 \<le> b \<and> b \<le> 191"

text \<open>The second byte that may follow the first byte of a sequence of three or four.\<close>

definition second_byte :: "byte \<Rightarrow> byte \<Rightarrow> bool" where
  "second_byte a b \<longleftrightarrow>
     (if a = 224 then 160 \<le> b \<and> b \<le> 191
      else if a = 237 then 128 \<le> b \<and> b \<le> 159
      else if a = 240 then 144 \<le> b \<and> b \<le> 191
      else if a = 244 then 128 \<le> b \<and> b \<le> 143
      else continuation b)"

definition utf8_char_width :: "byte \<Rightarrow> nat" where
  "utf8_char_width a =
     (if a < 128 then 1
      else if 194 \<le> a \<and> a \<le> 223 then 2
      else if 224 \<le> a \<and> a \<le> 239 then 3
      else if 240 \<le> a \<and> a \<le> 244 then 4
      else 0)"

text \<open>
  The first character: whether it is well-formed, and the length of the character or of the
  malformed part. Past the end of the input a zero byte is read.
\<close>

definition utf8_step :: "bytes \<Rightarrow> bool \<times> nat" where
  "utf8_step bs =
     (let at = (\<lambda>i. if i < length bs then bs ! i else 0) in
      case utf8_char_width (at 0) of
        Suc 0 \<Rightarrow> (True, 1)
      | Suc (Suc 0) \<Rightarrow> if continuation (at 1) then (True, 2) else (False, 1)
      | Suc (Suc (Suc 0)) \<Rightarrow>
          if \<not> second_byte (at 0) (at 1) then (False, 1)
          else if continuation (at 2) then (True, 3) else (False, 2)
      | Suc (Suc (Suc (Suc 0))) \<Rightarrow>
          if \<not> second_byte (at 0) (at 1) then (False, 1)
          else if \<not> continuation (at 2) then (False, 2)
          else if continuation (at 3) then (True, 4) else (False, 3)
      | _ \<Rightarrow> (False, 1))"

lemma utf8_step_pos: "0 < snd (utf8_step bs)"
  by (auto simp: utf8_step_def Let_def split: nat.splits)

lemma utf8_step_drop: "(ok, n) = utf8_step bs \<Longrightarrow> bs \<noteq> [] \<Longrightarrow> length bs - n < length bs"
  using utf8_step_pos [of bs] by (metis diff_less length_greater_0_conv snd_conv)

definition REPLACEMENT_CHARACTER :: bytes where
  "REPLACEMENT_CHARACTER = [239, 191, 189]"

function from_utf8_lossy :: "bytes \<Rightarrow> rust_string" where
  "from_utf8_lossy bs =
     (if bs = [] then []
      else case utf8_step bs of
        (ok, n) \<Rightarrow> (if ok then take n bs else REPLACEMENT_CHARACTER) @ from_utf8_lossy (drop n bs))"
  by pat_completeness auto
termination
  by (relation "measure length") (auto dest: utf8_step_drop)

function valid_utf8 :: "bytes \<Rightarrow> bool" where
  "valid_utf8 bs =
     (if bs = [] then True
      else case utf8_step bs of (ok, n) \<Rightarrow> ok \<and> valid_utf8 (drop n bs))"
  by pat_completeness auto
termination
  by (relation "measure length") (auto dest: utf8_step_drop)

declare from_utf8_lossy.simps [simp del] valid_utf8.simps [simp del]

datatype FromUtf8Error = FromUtf8Error bytes

definition from_utf8 :: "bytes \<Rightarrow> FromUtf8Error + rust_string" where
  "from_utf8 bs = (if valid_utf8 bs then Inr bs else Inl (FromUtf8Error bs))"

text \<open>A string is read back from its bytes, and the lossy conversion leaves it alone.\<close>

lemma from_utf8_lossy_valid: "valid_utf8 bs \<Longrightarrow> from_utf8_lossy bs = bs"
proof (induction bs rule: valid_utf8.induct)
  case (1 bs)
  show ?case
  proof (cases "bs = []")
    case True
    then show ?thesis by (simp add: from_utf8_lossy.simps)
  next
    case False
    obtain ok n where s: "utf8_step bs = (ok, n)" by (cases "utf8_step bs")
    with False "1.prems" have v: "ok" "valid_utf8 (drop n bs)" by (simp_all add: valid_utf8.simps [of bs])
    then have "from_utf8_lossy (drop n bs) = drop n bs" using "1.IH" [OF False] s by simp
    then show ?thesis using False s v(1) by (subst from_utf8_lossy.simps) simp
  qed
qed

lemma ascii_valid: "\<forall>b \<in> set bs. b < 128 \<Longrightarrow> valid_utf8 bs"
proof (induction bs)
  case Nil
  then show ?case by (simp add: valid_utf8.simps)
next
  case (Cons b bs)
  then have "utf8_step (b # bs) = (True, 1)" by (simp add: utf8_step_def utf8_char_width_def)
  with Cons show ?case by (subst valid_utf8.simps) simp
qed

end
