(* ===== verification/Service_Provider.thy ===== *)
theory Service_Provider
  imports Codec Utf8
begin

text \<open>
  The messages that service providers share, \<open>service-providers/common/src/interface/\<close>: versions,
  control requests and responses, and the envelope around the requests and responses of a
  particular provider. The latter are a type parameter with their encoder and decoder as
  arguments; \<open>serde_json\<close> is an argument too.
\<close>

section \<open>Versions\<close>

text \<open>
  The macro \<open>define_simple_version\<close> makes one type per use. All uses in the repository have the
  initial version 3 and the current version 3.
\<close>

datatype SimpleVersion = Legacy | Versioned byte

type_synonym ProviderInterfaceVersion = SimpleVersion

abbreviation INITIAL_INTERFACE_VERSION :: byte where "INITIAL_INTERFACE_VERSION \<equiv> 3"
abbreviation INTERFACE_VERSION :: byte where "INTERFACE_VERSION \<equiv> 3"

definition version_new :: "bool \<Rightarrow> SimpleVersion" where
  "version_new use_legacy = (if use_legacy then Legacy else Versioned INTERFACE_VERSION)"

definition version_new_current :: SimpleVersion where
  "version_new_current = version_new False"

definition version_is_legacy :: "SimpleVersion \<Rightarrow> bool" where
  "version_is_legacy self \<longleftrightarrow> (case self of Legacy \<Rightarrow> True | Versioned _ \<Rightarrow> False)"

definition version_as_u8 :: "SimpleVersion \<Rightarrow> byte option" where
  "version_as_u8 self = (case self of Legacy \<Rightarrow> None | Versioned version \<Rightarrow> Some version)"

definition version_from :: "byte \<Rightarrow> SimpleVersion" where
  "version_from v = (if v < INITIAL_INTERFACE_VERSION then Legacy else Versioned v)"

text \<open>The derived order: \<open>Legacy\<close> is below every \<open>Versioned\<close>.\<close>

fun version_less :: "SimpleVersion \<Rightarrow> SimpleVersion \<Rightarrow> bool" where
  "version_less Legacy (Versioned _) \<longleftrightarrow> True"
| "version_less (Versioned a) (Versioned b) \<longleftrightarrow> a < b"
| "version_less _ Legacy \<longleftrightarrow> False"

section \<open>Control messages\<close>

datatype ServiceProviderMessagingError =
    InvalidRequestTag byte
  | InvalidResponseTag byte
  | InvalidControlRequestTag byte
  | InvalidControlResponseTag byte
  | EmptyRequest
  | EmptyResponse
  | IncompleteRequest usize
  | IncompleteResponse usize
  | EmptyControlRequest
  | EmptyControlResponse
  | UnexpectedProviderDataResponse
  | UnexpectedControlResponse
  | ControlRequestInLegacyMode
  | MalformedBinaryInfoControlResponse string
  | MalformedErrorControlResponse string
  | MalformedSupportedVersionsResponse string

datatype ControlRequest = Health | BinaryInfo | SupportedRequestVersions

fun control_request_tag :: "ControlRequest \<Rightarrow> byte" where
  "control_request_tag Health = 0"
| "control_request_tag BinaryInfo = 1"
| "control_request_tag SupportedRequestVersions = 2"

definition control_request_into_bytes :: "ControlRequest \<Rightarrow> bytes" where
  "control_request_into_bytes self = [control_request_tag self]"

definition control_request_try_from_bytes :: "bytes \<Rightarrow> ServiceProviderMessagingError + ControlRequest" where
  "control_request_try_from_bytes b =
     (case b of
        [] \<Rightarrow> Inl EmptyControlRequest
      | t # _ \<Rightarrow>
          if t = 0 then Inr Health
          else if t = 1 then Inr BinaryInfo
          else if t = 2 then Inr SupportedRequestVersions
          else Inl (InvalidControlRequestTag t))"

record 'b BinaryInformation =
  binary_name :: rust_string
  build_information :: 'b

record SupportedVersions =
  sv_interface_version :: rust_string
  sv_provider_version :: rust_string

datatype ErrorResponse = ErrorResponse rust_string

datatype 'b ControlResponse =
    HealthResponse
  | BinaryInfoResponse "'b BinaryInformation"
  | SupportedRequestVersionsResponse SupportedVersions
  | ErrorControlResponse ErrorResponse

text \<open>\<open>serde_json\<close> on the three types it is used for.\<close>

record 'b serde_json =
  info_to_vec :: "'b BinaryInformation \<Rightarrow> bytes"
  info_from_slice :: "bytes \<Rightarrow> string + 'b BinaryInformation"
  versions_to_vec :: "SupportedVersions \<Rightarrow> bytes"
  versions_from_slice :: "bytes \<Rightarrow> string + SupportedVersions"
  error_to_vec :: "ErrorResponse \<Rightarrow> bytes"
  error_from_slice :: "bytes \<Rightarrow> string + ErrorResponse"

text \<open>\<open>serde_json\<close> reads back what it wrote; a string is one if it is UTF-8.\<close>

fun control_response_ok :: "'b ControlResponse \<Rightarrow> bool" where
  "control_response_ok HealthResponse \<longleftrightarrow> True"
| "control_response_ok (BinaryInfoResponse info) \<longleftrightarrow> valid_utf8 (binary_name info)"
| "control_response_ok (SupportedRequestVersionsResponse v) \<longleftrightarrow>
     valid_utf8 (sv_interface_version v) \<and> valid_utf8 (sv_provider_version v)"
| "control_response_ok (ErrorControlResponse (ErrorResponse message)) \<longleftrightarrow> valid_utf8 message"

definition serde_json_ok :: "'b serde_json \<Rightarrow> bool" where
  "serde_json_ok J \<longleftrightarrow>
     (\<forall>x. control_response_ok (BinaryInfoResponse x) \<longrightarrow> info_from_slice J (info_to_vec J x) = Inr x)
   \<and> (\<forall>x. control_response_ok (SupportedRequestVersionsResponse x :: 'b ControlResponse) \<longrightarrow>
          versions_from_slice J (versions_to_vec J x) = Inr x)
   \<and> (\<forall>x. control_response_ok (ErrorControlResponse x :: 'b ControlResponse) \<longrightarrow> error_from_slice J (error_to_vec J x) = Inr x)"

fun control_response_tag :: "'b ControlResponse \<Rightarrow> byte" where
  "control_response_tag HealthResponse = 0"
| "control_response_tag (BinaryInfoResponse _) = 1"
| "control_response_tag (SupportedRequestVersionsResponse _) = 2"
| "control_response_tag (ErrorControlResponse _) = 255"

fun control_response_serialize_inner :: "'b serde_json \<Rightarrow> 'b ControlResponse \<Rightarrow> bytes" where
  "control_response_serialize_inner J HealthResponse = []"
| "control_response_serialize_inner J (BinaryInfoResponse info) = info_to_vec J info"
| "control_response_serialize_inner J (SupportedRequestVersionsResponse supported_versions) = versions_to_vec J supported_versions"
| "control_response_serialize_inner J (ErrorControlResponse error_response) = error_to_vec J error_response"

definition control_response_into_bytes :: "'b serde_json \<Rightarrow> 'b ControlResponse \<Rightarrow> bytes" where
  "control_response_into_bytes J self = control_response_tag self # control_response_serialize_inner J self"

definition control_response_try_from_bytes ::
    "'b serde_json \<Rightarrow> bytes \<Rightarrow> ServiceProviderMessagingError + 'b ControlResponse" where
  "control_response_try_from_bytes J b =
     (case b of
        [] \<Rightarrow> Inl EmptyControlResponse
      | t # rest \<Rightarrow>
          if t = 0 then Inr HealthResponse
          else if t = 1 then map_sum MalformedBinaryInfoControlResponse BinaryInfoResponse (info_from_slice J rest)
          else if t = 2 then map_sum MalformedErrorControlResponse SupportedRequestVersionsResponse (versions_from_slice J rest)
          else if t = 255 then map_sum MalformedErrorControlResponse ErrorControlResponse (error_from_slice J rest)
          else Inl (InvalidControlResponseTag t))"

section \<open>The envelope\<close>

datatype 't RequestContent = Control ControlRequest | ProviderData 't

record 't Request =
  rq_interface_version :: ProviderInterfaceVersion
  rq_content :: "'t RequestContent"

fun request_tag :: "'t RequestContent \<Rightarrow> byte" where
  "request_tag (Control _) = 0"
| "request_tag (ProviderData _) = 1"

fun request_serialize_inner :: "('t \<Rightarrow> bytes) \<Rightarrow> 't RequestContent \<Rightarrow> bytes" where
  "request_serialize_inner enc (Control control) = control_request_into_bytes control"
| "request_serialize_inner enc (ProviderData provider_data) = enc provider_data"

definition request_content_into_bytes :: "('t \<Rightarrow> bytes) \<Rightarrow> 't RequestContent \<Rightarrow> ProviderInterfaceVersion \<Rightarrow> bytes" where
  "request_content_into_bytes enc self interface_version =
     (if version_is_legacy interface_version then
        (case self of Control _ \<Rightarrow> [] | ProviderData _ \<Rightarrow> request_serialize_inner enc self)
      else request_tag self # request_serialize_inner enc self)"

definition request_into_bytes :: "('t \<Rightarrow> bytes) \<Rightarrow> 't Request \<Rightarrow> bytes" where
  "request_into_bytes enc self =
     (case version_as_u8 (rq_interface_version self) of
        Some version \<Rightarrow> version # request_content_into_bytes enc (rq_content self) (rq_interface_version self)
      | None \<Rightarrow> request_content_into_bytes enc (rq_content self) (rq_interface_version self))"

text \<open>\<open>E\<close> is the conversion of the interface's errors into those of the provider.\<close>

definition request_content_try_from_bytes ::
    "(ServiceProviderMessagingError \<Rightarrow> 'e) \<Rightarrow> (bytes \<Rightarrow> 'e + 't) \<Rightarrow> bytes \<Rightarrow> ProviderInterfaceVersion
      \<Rightarrow> 'e + 't RequestContent" where
  "request_content_try_from_bytes E dec b interface_version =
     (if version_is_legacy interface_version then map_sum (\<lambda>e. e) ProviderData (dec b)
      else case b of
        [] \<Rightarrow> Inl (E (IncompleteRequest 1))
      | t # rest \<Rightarrow>
          if t = 0 then map_sum E Control (control_request_try_from_bytes rest)
          else if t = 1 then map_sum (\<lambda>e. e) ProviderData (dec rest)
          else Inl (E (InvalidRequestTag t)))"

definition request_try_from_bytes ::
    "(ServiceProviderMessagingError \<Rightarrow> 'e) \<Rightarrow> (bytes \<Rightarrow> 'e + 't) \<Rightarrow> bytes \<Rightarrow> 'e + 't Request" where
  "request_try_from_bytes E dec b =
     (case b of
        [] \<Rightarrow> Inl (E EmptyRequest)
      | v # rest \<Rightarrow>
          let interface_version = version_from v in
          sbind (if version_is_legacy interface_version then request_content_try_from_bytes E dec b interface_version
                 else request_content_try_from_bytes E dec rest interface_version) (\<lambda>content.
          Inr \<lparr>rq_interface_version = interface_version, rq_content = content\<rparr>))"

datatype ('t, 'b) ResponseContent = ControlRes "'b ControlResponse" | ProviderRes 't

record ('t, 'b) Response =
  rs_interface_version :: ProviderInterfaceVersion
  rs_content :: "('t, 'b) ResponseContent"

fun response_tag :: "('t, 'b) ResponseContent \<Rightarrow> byte" where
  "response_tag (ControlRes _) = 0"
| "response_tag (ProviderRes _) = 1"

fun response_serialize_inner :: "'b serde_json \<Rightarrow> ('t \<Rightarrow> bytes) \<Rightarrow> ('t, 'b) ResponseContent \<Rightarrow> bytes" where
  "response_serialize_inner J enc (ControlRes control) = control_response_into_bytes J control"
| "response_serialize_inner J enc (ProviderRes provider_data) = enc provider_data"

definition response_content_into_bytes ::
    "'b serde_json \<Rightarrow> ('t \<Rightarrow> bytes) \<Rightarrow> ('t, 'b) ResponseContent \<Rightarrow> ProviderInterfaceVersion \<Rightarrow> bytes" where
  "response_content_into_bytes J enc self interface_version =
     (if version_is_legacy interface_version then
        (case self of ControlRes _ \<Rightarrow> [] | ProviderRes _ \<Rightarrow> response_serialize_inner J enc self)
      else response_tag self # response_serialize_inner J enc self)"

definition response_into_bytes :: "'b serde_json \<Rightarrow> ('t \<Rightarrow> bytes) \<Rightarrow> ('t, 'b) Response \<Rightarrow> bytes" where
  "response_into_bytes J enc self =
     (case version_as_u8 (rs_interface_version self) of
        Some version \<Rightarrow> version # response_content_into_bytes J enc (rs_content self) (rs_interface_version self)
      | None \<Rightarrow> response_content_into_bytes J enc (rs_content self) (rs_interface_version self))"

definition response_content_try_from_bytes ::
    "'b serde_json \<Rightarrow> (ServiceProviderMessagingError \<Rightarrow> 'e) \<Rightarrow> (bytes \<Rightarrow> 'e + 't) \<Rightarrow> bytes \<Rightarrow> ProviderInterfaceVersion
      \<Rightarrow> 'e + ('t, 'b) ResponseContent" where
  "response_content_try_from_bytes J E dec b interface_version =
     (if version_is_legacy interface_version then map_sum (\<lambda>e. e) ProviderRes (dec b)
      else case b of
        [] \<Rightarrow> Inl (E (IncompleteResponse 1))
      | t # rest \<Rightarrow>
          if t = 0 then map_sum E ControlRes (control_response_try_from_bytes J rest)
          else if t = 1 then map_sum (\<lambda>e. e) ProviderRes (dec rest)
          else Inl (E (InvalidResponseTag t)))"

definition response_try_from_bytes ::
    "'b serde_json \<Rightarrow> (ServiceProviderMessagingError \<Rightarrow> 'e) \<Rightarrow> (bytes \<Rightarrow> 'e + 't) \<Rightarrow> bytes \<Rightarrow> 'e + ('t, 'b) Response" where
  "response_try_from_bytes J E dec b =
     (case b of
        [] \<Rightarrow> Inl (E EmptyResponse)
      | v # rest \<Rightarrow>
          let interface_version = version_from v in
          sbind (if version_is_legacy interface_version then response_content_try_from_bytes J E dec b interface_version
                 else response_content_try_from_bytes J E dec rest interface_version) (\<lambda>content.
          Inr \<lparr>rs_interface_version = interface_version, rs_content = content\<rparr>))"

text \<open>The default provider message, which carries nothing.\<close>

datatype EmptyMessage = EmptyMessage

definition empty_into_bytes :: "EmptyMessage \<Rightarrow> bytes" where
  "empty_into_bytes self = []"

definition empty_try_from_bytes :: "bytes \<Rightarrow> ServiceProviderMessagingError + EmptyMessage" where
  "empty_try_from_bytes b = Inr EmptyMessage"

section \<open>Round trips\<close>

text \<open>
  A version byte below 3 means legacy; so a legacy message has to start with a byte below 3 to be
  told from a versioned one, and only messages of the provider exist in legacy form.
\<close>

definition version_ok :: "SimpleVersion \<Rightarrow> bool" where
  "version_ok v \<longleftrightarrow> (case v of Legacy \<Rightarrow> True | Versioned b \<Rightarrow> INITIAL_INTERFACE_VERSION \<le> b)"

definition reads_as_legacy :: "bytes \<Rightarrow> bool" where
  "reads_as_legacy b \<longleftrightarrow> b \<noteq> [] \<and> hd b < INITIAL_INTERFACE_VERSION"

definition request_wf :: "('t \<Rightarrow> bool) \<Rightarrow> 't Request \<Rightarrow> bool" where
  "request_wf valid r \<longleftrightarrow> version_ok (rq_interface_version r)
     \<and> (case rq_content r of Control _ \<Rightarrow> True | ProviderData x \<Rightarrow> valid x)"

definition request_unambiguous :: "('t \<Rightarrow> bytes) \<Rightarrow> 't Request \<Rightarrow> bool" where
  "request_unambiguous enc r \<longleftrightarrow>
     (rq_interface_version r = Legacy \<longrightarrow>
       (case rq_content r of Control _ \<Rightarrow> False | ProviderData x \<Rightarrow> reads_as_legacy (enc x)))"

definition response_wf :: "('t \<Rightarrow> bool) \<Rightarrow> ('t, 'b) Response \<Rightarrow> bool" where
  "response_wf valid r \<longleftrightarrow> version_ok (rs_interface_version r)
     \<and> (case rs_content r of ControlRes c \<Rightarrow> control_response_ok c | ProviderRes x \<Rightarrow> valid x)"

definition response_unambiguous :: "('t \<Rightarrow> bytes) \<Rightarrow> ('t, 'b) Response \<Rightarrow> bool" where
  "response_unambiguous enc r \<longleftrightarrow>
     (rs_interface_version r = Legacy \<longrightarrow>
       (case rs_content r of ControlRes _ \<Rightarrow> False | ProviderRes x \<Rightarrow> reads_as_legacy (enc x)))"

lemmas version_defs = version_as_u8_def version_is_legacy_def version_from_def version_ok_def reads_as_legacy_def

text \<open>The envelope is no more faithful than the encoding of what it holds.\<close>

lemma response_reads_content:
  assumes "response_try_from_bytes J E dec (response_into_bytes J enc r) = Inr r" "rs_content r = ProviderRes q"
  shows "dec (enc q) = Inr q"
proof (cases "rs_interface_version r")
  case Legacy
  then show ?thesis using assms
    by (cases r) (auto simp: response_try_from_bytes_def response_into_bytes_def response_content_into_bytes_def version_defs
        response_content_try_from_bytes_def Let_def sbind_eq_Inr map_sum_eq_Inr split: list.splits if_splits)
next
  case (Versioned v)
  then show ?thesis using assms
    by (cases r) (auto simp: response_try_from_bytes_def response_into_bytes_def response_content_into_bytes_def version_defs
        response_content_try_from_bytes_def Let_def sbind_eq_Inr map_sum_eq_Inr split: if_splits)
qed

text \<open>An encoder and a decoder that undo each other on the valid values.\<close>

locale roundtrip =
  fixes enc :: "'a \<Rightarrow> bytes" and dec :: "bytes \<Rightarrow> 'e + 'a" and valid :: "'a \<Rightarrow> bool"
  assumes dec_enc: "valid x \<Longrightarrow> dec (enc x) = Inr x"
begin

text \<open>The envelope around values of this codec is read back exactly when it is unambiguous.\<close>

lemma request_roundtrip_iff:
  assumes "request_wf valid r"
  shows "request_try_from_bytes E dec (request_into_bytes enc r) = Inr r \<longleftrightarrow> request_unambiguous enc r"
proof (cases "rq_interface_version r")
  case Legacy
  show ?thesis
  proof (cases "rq_content r")
    case (Control c)
    then show ?thesis using Legacy
      by (simp add: request_try_from_bytes_def request_into_bytes_def request_content_into_bytes_def version_defs
          request_unambiguous_def)
  next
    case (ProviderData x)
    with assms have "dec (enc x) = Inr x" by (simp add: request_wf_def dec_enc)
    then show ?thesis using Legacy ProviderData
      by (cases "enc x"; cases r) (auto simp: request_try_from_bytes_def request_into_bytes_def Let_def sbind_eq_Inr
          request_content_into_bytes_def version_defs request_content_try_from_bytes_def request_unambiguous_def
          split: if_splits)
  qed
next
  case (Versioned v)
  with assms have v: "\<not> v < 3" by (auto simp: request_wf_def version_ok_def)
  show ?thesis
  proof (cases "rq_content r")
    case (Control c)
    then show ?thesis using Versioned v by (cases c; cases r)
      (simp_all add: request_try_from_bytes_def request_into_bytes_def request_content_into_bytes_def version_defs
        request_content_try_from_bytes_def control_request_into_bytes_def control_request_try_from_bytes_def
        request_unambiguous_def)
  next
    case (ProviderData x)
    with assms have "dec (enc x) = Inr x" by (simp add: request_wf_def dec_enc)
    then show ?thesis using Versioned v ProviderData by (cases r)
      (simp_all add: request_try_from_bytes_def request_into_bytes_def request_content_into_bytes_def version_defs
        request_content_try_from_bytes_def request_unambiguous_def)
  qed
qed

lemma response_roundtrip_iff:
  assumes "response_wf valid r" "serde_json_ok J"
  shows "response_try_from_bytes J E dec (response_into_bytes J enc r) = Inr r \<longleftrightarrow> response_unambiguous enc r"
proof (cases "rs_interface_version r")
  case Legacy
  show ?thesis
  proof (cases "rs_content r")
    case (ControlRes c)
    then show ?thesis using Legacy
      by (simp add: response_try_from_bytes_def response_into_bytes_def response_content_into_bytes_def version_defs
          response_unambiguous_def)
  next
    case (ProviderRes x)
    with assms have "dec (enc x) = Inr x" by (simp add: response_wf_def dec_enc)
    then show ?thesis using Legacy ProviderRes
      by (cases "enc x"; cases r) (auto simp: response_try_from_bytes_def response_into_bytes_def Let_def sbind_eq_Inr
          response_content_into_bytes_def version_defs response_content_try_from_bytes_def response_unambiguous_def
          split: if_splits)
  qed
next
  case (Versioned v)
  with assms have v: "\<not> v < 3" by (auto simp: response_wf_def version_ok_def)
  show ?thesis
  proof (cases "rs_content r")
    case (ControlRes c)
    with assms have "control_response_ok c" by (simp add: response_wf_def)
    then show ?thesis using Versioned v assms(2) ControlRes by (cases c; cases r)
      (simp_all add: response_try_from_bytes_def response_into_bytes_def response_content_into_bytes_def version_defs
        response_content_try_from_bytes_def control_response_into_bytes_def
        control_response_try_from_bytes_def serde_json_ok_def response_unambiguous_def)
  next
    case (ProviderRes x)
    with assms have "dec (enc x) = Inr x" by (simp add: response_wf_def dec_enc)
    then show ?thesis using Versioned v ProviderRes by (cases r)
      (simp_all add: response_try_from_bytes_def response_into_bytes_def response_content_into_bytes_def version_defs
        response_content_try_from_bytes_def response_unambiguous_def)
  qed
qed

end

interpretation empty_message: roundtrip empty_into_bytes empty_try_from_bytes "\<lambda>_. True"
  by unfold_locales (simp add: empty_try_from_bytes_def, metis EmptyMessage.exhaust)

interpretation control_request: roundtrip control_request_into_bytes control_request_try_from_bytes "\<lambda>_. True"
proof
  fix c
  show "control_request_try_from_bytes (control_request_into_bytes c) = Inr c"
    by (cases c) (simp_all add: control_request_try_from_bytes_def control_request_into_bytes_def)
qed

end
