(* ===== verification/Socks5_Requests.thy ===== *)
theory Socks5_Requests
  imports Service_Provider Addressing
begin

text \<open>
  The requests and responses between SOCKS5 clients and network requesters,
  \<open>common/socks5/requests/src/\<close>. A string is its UTF-8 bytes; \<open>u64\<close> values are natural numbers
  that the encodings reduce to 64 bits. Recipients are encoded as in the theory of addresses;
  \<open>bincode\<close> is an argument.
\<close>

section \<open>Socket data\<close>

type_synonym ConnectionId = nat
type_synonym RemoteAddress = rust_string

record InsufficientSocketDataError =
  sd_received :: usize
  sd_expected :: usize

record SocketDataHeader =
  sd_seq :: nat
  sd_connection_id :: ConnectionId
  sd_local_socket_closed :: bool

abbreviation SERIALIZED_LEN :: usize where "SERIALIZED_LEN \<equiv> 17"

abbreviation bool_u8 :: "bool \<Rightarrow> byte" where "bool_u8 b \<equiv> (if b then 1 else 0)"

definition header_into_request_bytes :: "SocketDataHeader \<Rightarrow> bytes" where
  "header_into_request_bytes self =
     u64_to_be (of_nat (sd_connection_id self)) @ [bool_u8 (sd_local_socket_closed self)] @ u64_to_be (of_nat (sd_seq self))"

definition header_try_from_request_bytes :: "bytes \<Rightarrow> InsufficientSocketDataError + SocketDataHeader" where
  "header_try_from_request_bytes b =
     (if length b \<noteq> SERIALIZED_LEN then Inl \<lparr>sd_received = length b, sd_expected = SERIALIZED_LEN\<rparr>
      else Inr \<lparr>sd_seq = unat (u64_from_be (drop 9 b)), sd_connection_id = unat (u64_from_be (take 8 b)),
                sd_local_socket_closed = (b ! 8 \<noteq> 0)\<rparr>)"

definition header_into_response_bytes :: "SocketDataHeader \<Rightarrow> bytes" where
  "header_into_response_bytes self =
     [bool_u8 (sd_local_socket_closed self)] @ u64_to_be (of_nat (sd_connection_id self)) @ u64_to_be (of_nat (sd_seq self))"

definition header_try_from_response_bytes :: "bytes \<Rightarrow> InsufficientSocketDataError + SocketDataHeader" where
  "header_try_from_response_bytes b =
     (if length b \<noteq> SERIALIZED_LEN then Inl \<lparr>sd_received = length b, sd_expected = SERIALIZED_LEN\<rparr>
      else Inr \<lparr>sd_seq = unat (u64_from_be (drop 9 b)), sd_connection_id = unat (u64_from_be (take 8 (drop 1 b))),
                sd_local_socket_closed = (b ! 0 \<noteq> 0)\<rparr>)"

record SocketData =
  sd_header :: SocketDataHeader
  sd_data :: bytes

definition socket_data_new :: "nat \<Rightarrow> ConnectionId \<Rightarrow> bool \<Rightarrow> bytes \<Rightarrow> SocketData" where
  "socket_data_new seq connection_id local_socket_closed data =
     \<lparr>sd_header = \<lparr>sd_seq = seq, sd_connection_id = connection_id, sd_local_socket_closed = local_socket_closed\<rparr>,
      sd_data = data\<rparr>"

definition verify_deserialization_len :: "bytes \<Rightarrow> InsufficientSocketDataError + unit" where
  "verify_deserialization_len b =
     (if b = [] then Inl \<lparr>sd_received = 0, sd_expected = SERIALIZED_LEN\<rparr>
      else if length b < SERIALIZED_LEN then Inl \<lparr>sd_received = length b, sd_expected = SERIALIZED_LEN\<rparr>
      else Inr ())"

definition try_from_request_bytes :: "bytes \<Rightarrow> InsufficientSocketDataError + SocketData" where
  "try_from_request_bytes b =
     sbind (verify_deserialization_len b) (\<lambda>_.
     sbind (header_try_from_request_bytes (take SERIALIZED_LEN b)) (\<lambda>header.
     Inr \<lparr>sd_header = header, sd_data = drop SERIALIZED_LEN b\<rparr>))"

definition into_request_bytes :: "SocketData \<Rightarrow> bytes" where
  "into_request_bytes self = header_into_request_bytes (sd_header self) @ sd_data self"

definition try_from_response_bytes :: "bytes \<Rightarrow> InsufficientSocketDataError + SocketData" where
  "try_from_response_bytes b =
     sbind (verify_deserialization_len b) (\<lambda>_.
     sbind (header_try_from_response_bytes (take SERIALIZED_LEN b)) (\<lambda>header.
     Inr \<lparr>sd_header = header, sd_data = drop SERIALIZED_LEN b\<rparr>))"

definition into_response_bytes :: "SocketData \<Rightarrow> bytes" where
  "into_response_bytes self = header_into_response_bytes (sd_header self) @ sd_data self"

section \<open>Requests\<close>

datatype RequestFlag = ConnectFlag | SendFlag | QueryFlag

fun request_flag_as_u8 :: "RequestFlag \<Rightarrow> byte" where
  "request_flag_as_u8 ConnectFlag = 0"
| "request_flag_as_u8 SendFlag = 1"
| "request_flag_as_u8 QueryFlag = 2"

datatype RequestDeserializationError =
    AddressLengthTooShort
  | AddressTooShort
  | RequestConnectionIdTooShort
  | RequestNoData
  | UnknownRequestFlag byte
  | ReturnAddressTooShort
  | MalformedReturnAddress RecipientFormattingError
  | RequestQueryDeserializationError string
  | InvalidSocketData InsufficientSocketDataError

definition request_flag_try_from :: "byte \<Rightarrow> RequestDeserializationError + RequestFlag" where
  "request_flag_try_from value =
     (if value = request_flag_as_u8 ConnectFlag then Inr ConnectFlag
      else if value = request_flag_as_u8 SendFlag then Inr SendFlag
      else if value = request_flag_as_u8 QueryFlag then Inr QueryFlag
      else Inl (UnknownRequestFlag value))"

record 'i ConnectRequest =
  conn_id :: ConnectionId
  remote_addr :: RemoteAddress
  return_address :: "'i Recipient option"

record SendRequest =
  send_data :: SocketData

datatype QueryRequest = OpenProxy | Description | ExitPolicyQuery

datatype 'i Socks5RequestContent =
    Connect "'i ConnectRequest"
  | Send SendRequest
  | Query QueryRequest

text \<open>\<open>bincode\<close> with the options of \<open>make_bincode_serializer\<close>, on one type; a failure to serialise gives nothing.\<close>

record 'q bincode =
  bin_serialize :: "'q \<Rightarrow> bytes option"
  bin_deserialize :: "bytes \<Rightarrow> string + 'q"

definition bincode_ok :: "('q \<Rightarrow> bool) \<Rightarrow> 'q bincode \<Rightarrow> bool" where
  "bincode_ok valid B \<longleftrightarrow> (\<forall>q. valid q \<longrightarrow> (\<exists>b. bin_serialize B q = Some b \<and> bin_deserialize B b = Inr q))"

definition unwrap_or_default :: "bytes option \<Rightarrow> bytes" where
  "unwrap_or_default x = (case x of Some b \<Rightarrow> b | None \<Rightarrow> [])"

definition connect_into_bytes :: "'i key_lib \<Rightarrow> 'i ConnectRequest \<Rightarrow> bytes" where
  "connect_into_bytes L req =
     request_flag_as_u8 ConnectFlag # u64_to_be (of_nat (conn_id req)) @ u16_to_be (of_nat (length (remote_addr req)))
       @ remote_addr req @ (case return_address req of Some r \<Rightarrow> recipient_to_bytes L r | None \<Rightarrow> [])"

fun request_content_bytes :: "'i key_lib \<Rightarrow> QueryRequest bincode \<Rightarrow> 'i Socks5RequestContent \<Rightarrow> bytes" where
  "request_content_bytes L B (Connect req) = connect_into_bytes L req"
| "request_content_bytes L B (Send req) = request_flag_as_u8 SendFlag # into_request_bytes (send_data req)"
| "request_content_bytes L B (Query query) = request_flag_as_u8 QueryFlag # unwrap_or_default (bin_serialize B query)"

definition connect_try_from_bytes :: "'i key_lib \<Rightarrow> bytes \<Rightarrow> RequestDeserializationError + 'i Socks5RequestContent" where
  "connect_try_from_bytes L b =
     (if length b < 9 then Inl RequestConnectionIdTooShort
      else
        let id = unat (u64_from_be (take 8 (drop 1 b))); connect_request_bytes = drop 9 b in
        if length connect_request_bytes < 2 then Inl AddressLengthTooShort
        else
          let address_length = unat (u16_from_be (take 2 connect_request_bytes)) in
          if length connect_request_bytes < 2 + address_length then Inl AddressTooShort
          else
            let remote_address = from_utf8_lossy (take address_length (drop 2 connect_request_bytes));
                recipient_data_bytes = drop (2 + address_length) connect_request_bytes in
            sbind (if recipient_data_bytes = [] then Inr None
                   else if length recipient_data_bytes \<noteq> RECIPIENT_LEN then Inl ReturnAddressTooShort
                   else map_sum MalformedReturnAddress Some (recipient_try_from_bytes L recipient_data_bytes)) (\<lambda>return_address.
            Inr (Connect \<lparr>conn_id = id, remote_addr = remote_address, return_address = return_address\<rparr>)))"

definition socks5_content_try_from_bytes ::
    "'i key_lib \<Rightarrow> QueryRequest bincode \<Rightarrow> bytes \<Rightarrow> RequestDeserializationError + 'i Socks5RequestContent" where
  "socks5_content_try_from_bytes L B b =
     (if b = [] then Inl RequestNoData
      else
        sbind (request_flag_try_from (b ! 0)) (\<lambda>flag.
        case flag of
          ConnectFlag \<Rightarrow> connect_try_from_bytes L b
        | SendFlag \<Rightarrow> map_sum InvalidSocketData (\<lambda>d. Send \<lparr>send_data = d\<rparr>) (try_from_request_bytes (drop 1 b))
        | QueryFlag \<Rightarrow> map_sum RequestQueryDeserializationError Query (bin_deserialize B (drop 1 b))))"

type_synonym Socks5ProtocolVersion = SimpleVersion

datatype ResponseDeserializationError =
    MalformedNetworkData InsufficientSocketDataError
  | ResponseConnectionIdTooShort
  | UnknownResponseFlag byte
  | ResponseNoData
  | MalformedErrorMessage FromUtf8Error
  | ResponseQueryDeserializationError string

datatype Socks5RequestError =
    RequestDeserialization RequestDeserializationError
  | ResponseDeserialization ResponseDeserializationError
  | ProviderInterfaceError ServiceProviderMessagingError
  | UnsupportedProtocolVersion Socks5ProtocolVersion

record 'i Socks5Request =
  s5_protocol_version :: Socks5ProtocolVersion
  s5_content :: "'i Socks5RequestContent"

abbreviation LEGACY_TYPE_TAG :: byte where "LEGACY_TYPE_TAG \<equiv> 0"

definition socks5_request_into_bytes :: "'i key_lib \<Rightarrow> QueryRequest bincode \<Rightarrow> 'i Socks5Request \<Rightarrow> bytes" where
  "socks5_request_into_bytes L B self =
     (case version_as_u8 (s5_protocol_version self) of
        Some version \<Rightarrow> version # request_content_bytes L B (s5_content self)
      | None \<Rightarrow> LEGACY_TYPE_TAG # request_content_bytes L B (s5_content self))"

definition max_supported_version :: Socks5ProtocolVersion where
  "max_supported_version = version_new_current"

definition socks5_request_try_from_bytes ::
    "'i key_lib \<Rightarrow> QueryRequest bincode \<Rightarrow> bytes \<Rightarrow> Socks5RequestError + 'i Socks5Request" where
  "socks5_request_try_from_bytes L B b =
     (if b = [] then Inl (RequestDeserialization RequestNoData)
      else
        let protocol_version = version_from (b ! 0) in
        if version_less max_supported_version protocol_version then Inl (UnsupportedProtocolVersion protocol_version)
        else
          sbind (map_sum RequestDeserialization (\<lambda>x. x) (socks5_content_try_from_bytes L B (drop 1 b))) (\<lambda>content.
          Inr \<lparr>s5_protocol_version = protocol_version, s5_content = content\<rparr>))"

section \<open>Responses\<close>

datatype ResponseFlag = NetworkDataFlag | ConnectionErrorFlag | QueryResponseFlag

fun response_flag_as_u8 :: "ResponseFlag \<Rightarrow> byte" where
  "response_flag_as_u8 NetworkDataFlag = 1"
| "response_flag_as_u8 ConnectionErrorFlag = 2"
| "response_flag_as_u8 QueryResponseFlag = 3"

definition response_flag_try_from :: "byte \<Rightarrow> ResponseDeserializationError + ResponseFlag" where
  "response_flag_try_from value =
     (if value = response_flag_as_u8 NetworkDataFlag then Inr NetworkDataFlag
      else if value = response_flag_as_u8 ConnectionErrorFlag then Inr ConnectionErrorFlag
      else if value = response_flag_as_u8 QueryResponseFlag then Inr QueryResponseFlag
      else Inl (UnknownResponseFlag value))"

record ConnectionError =
  ce_connection_id :: ConnectionId
  network_requester_error :: rust_string

definition connection_error_into_bytes :: "ConnectionError \<Rightarrow> bytes" where
  "connection_error_into_bytes self = u64_to_be (of_nat (ce_connection_id self)) @ network_requester_error self"

definition connection_error_try_from_bytes :: "bytes \<Rightarrow> ResponseDeserializationError + ConnectionError" where
  "connection_error_try_from_bytes b =
     (if b = [] then Inl ResponseNoData
      else if length b < 8 then Inl ResponseConnectionIdTooShort
      else
        sbind (map_sum MalformedErrorMessage (\<lambda>x. x) (from_utf8 (drop 8 b))) (\<lambda>message.
        Inr \<lparr>ce_connection_id = unat (u64_from_be (take 8 b)), network_requester_error = message\<rparr>))"

text \<open>The answers to queries; exit policies are a type parameter.\<close>

datatype 'p QueryResponse =
    OpenProxyResponse bool
  | DescriptionResponse rust_string
  | ExitPolicyResponse bool rust_string "'p option"
  | ErrorQueryResponse rust_string

datatype 'p Socks5ResponseContent =
    NetworkData SocketData
  | ConnectionErrorContent ConnectionError
  | QueryContent "'p QueryResponse"

record 'p Socks5Response =
  sr_protocol_version :: Socks5ProtocolVersion
  sr_content :: "'p Socks5ResponseContent"

fun response_content_bytes :: "'p QueryResponse bincode \<Rightarrow> 'p Socks5ResponseContent \<Rightarrow> bytes" where
  "response_content_bytes B (NetworkData content) = response_flag_as_u8 NetworkDataFlag # into_response_bytes content"
| "response_content_bytes B (ConnectionErrorContent res) =
     response_flag_as_u8 ConnectionErrorFlag # connection_error_into_bytes res"
| "response_content_bytes B (QueryContent query) =
     response_flag_as_u8 QueryResponseFlag # unwrap_or_default (bin_serialize B query)"

definition response_content_from_bytes ::
    "'p QueryResponse bincode \<Rightarrow> bytes \<Rightarrow> ResponseDeserializationError + 'p Socks5ResponseContent" where
  "response_content_from_bytes B b =
     (if b = [] then Inl ResponseNoData
      else
        sbind (response_flag_try_from (b ! 0)) (\<lambda>flag.
        case flag of
          NetworkDataFlag \<Rightarrow> map_sum MalformedNetworkData NetworkData (try_from_response_bytes (drop 1 b))
        | ConnectionErrorFlag \<Rightarrow> map_sum (\<lambda>e. e) ConnectionErrorContent (connection_error_try_from_bytes (drop 1 b))
        | QueryResponseFlag \<Rightarrow> map_sum ResponseQueryDeserializationError QueryContent (bin_deserialize B (drop 1 b))))"

definition socks5_response_into_bytes :: "'p QueryResponse bincode \<Rightarrow> 'p Socks5Response \<Rightarrow> bytes" where
  "socks5_response_into_bytes B self =
     (case version_as_u8 (sr_protocol_version self) of
        Some version \<Rightarrow> version # response_content_bytes B (sr_content self)
      | None \<Rightarrow> response_content_bytes B (sr_content self))"

definition socks5_response_try_from_bytes ::
    "'p QueryResponse bincode \<Rightarrow> bytes \<Rightarrow> Socks5RequestError + 'p Socks5Response" where
  "socks5_response_try_from_bytes B b =
     (if b = [] then Inl (ResponseDeserialization ResponseNoData)
      else
        let protocol_version = version_from (b ! 0) in
        sbind (map_sum ResponseDeserialization (\<lambda>x. x)
                 (if version_is_legacy protocol_version then response_content_from_bytes B b
                  else response_content_from_bytes B (drop 1 b))) (\<lambda>content.
        Inr \<lparr>sr_protocol_version = protocol_version, sr_content = content\<rparr>))"

section \<open>Round trips\<close>

definition socket_data_ok :: "SocketData \<Rightarrow> bool" where
  "socket_data_ok d \<longleftrightarrow> sd_seq (sd_header d) < 2 ^ 64 \<and> sd_connection_id (sd_header d) < 2 ^ 64"

lemma u64_of_nat [simp]: "n < 2 ^ 64 \<Longrightarrow> unat (of_nat n :: u64) = n"
  by (simp add: unat_of_nat)

lemma header_request_bytes:
  "length (header_into_request_bytes h) = SERIALIZED_LEN"
  "sd_seq h < 2 ^ 64 \<Longrightarrow> sd_connection_id h < 2 ^ 64 \<Longrightarrow> header_try_from_request_bytes (header_into_request_bytes h) = Inr h"
  by (simp_all add: header_into_request_bytes_def header_try_from_request_bytes_def nth_append)

lemma header_response_bytes:
  "length (header_into_response_bytes h) = SERIALIZED_LEN"
  "sd_seq h < 2 ^ 64 \<Longrightarrow> sd_connection_id h < 2 ^ 64 \<Longrightarrow> header_try_from_response_bytes (header_into_response_bytes h) = Inr h"
  by (simp_all add: header_into_response_bytes_def header_try_from_response_bytes_def)

interpretation request_data: roundtrip into_request_bytes try_from_request_bytes socket_data_ok
proof
  fix d
  assume "socket_data_ok d"
  moreover have "header_into_request_bytes h \<noteq> []" for h
    using header_request_bytes(1) [of h] by auto
  ultimately show "try_from_request_bytes (into_request_bytes d) = Inr d"
    by (simp add: try_from_request_bytes_def into_request_bytes_def verify_deserialization_len_def header_request_bytes
        socket_data_ok_def)
qed

interpretation response_data: roundtrip into_response_bytes try_from_response_bytes socket_data_ok
proof
  fix d
  assume "socket_data_ok d"
  moreover have "header_into_response_bytes h \<noteq> []" for h
    using header_response_bytes(1) [of h] by auto
  ultimately show "try_from_response_bytes (into_response_bytes d) = Inr d"
    by (simp add: try_from_response_bytes_def into_response_bytes_def verify_deserialization_len_def header_response_bytes
        socket_data_ok_def)
qed

definition connect_ok :: "'i ConnectRequest \<Rightarrow> bool" where
  "connect_ok req \<longleftrightarrow> conn_id req < 2 ^ 64 \<and> valid_utf8 (remote_addr req) \<and> length (remote_addr req) < 2 ^ 16
     \<and> (case return_address req of None \<Rightarrow> True | Some r \<Rightarrow> recipient_ok r)"

lemma connect_dec_enc:
  assumes "key_lib_ok (L :: 'i key_lib)" "connect_ok (req :: 'i ConnectRequest)"
  shows "connect_try_from_bytes L (connect_into_bytes L req) = Inr (Connect req)"
proof -
  have len: "unat (of_nat (length (remote_addr req)) :: u16) = length (remote_addr req)"
    using assms(2) by (simp add: connect_ok_def unat_of_nat)
  show ?thesis
  proof (cases "return_address req")
    case None
    then show ?thesis using assms(2) len
      by (cases req) (simp add: connect_try_from_bytes_def connect_into_bytes_def connect_ok_def from_utf8_lossy_valid Let_def)
  next
    case (Some r)
    then have r: "recipient_ok r" using assms(2) by (simp add: connect_ok_def)
    have "recipient_try_from_bytes L (recipient_to_bytes L r) = Inr r" "length (recipient_to_bytes L r) = RECIPIENT_LEN"
      using recipient_wire [OF assms(1)] r by (simp_all add: fixed_codec_def fixed_codec_axioms_def wire_codec_def)
    moreover from this(2) have "recipient_to_bytes L r \<noteq> []" by auto
    ultimately show ?thesis using Some assms(2) len
      by (cases req) (simp add: connect_try_from_bytes_def connect_into_bytes_def connect_ok_def from_utf8_lossy_valid Let_def)
  qed
qed

fun socks5_content_ok :: "'i Socks5RequestContent \<Rightarrow> bool" where
  "socks5_content_ok (Connect req) \<longleftrightarrow> connect_ok req"
| "socks5_content_ok (Send req) \<longleftrightarrow> socket_data_ok (send_data req)"
| "socks5_content_ok (Query _) \<longleftrightarrow> True"

lemma socks5_content_dec_enc:
  assumes "key_lib_ok L" "bincode_ok (\<lambda>_. True) B" "socks5_content_ok c"
  shows "socks5_content_try_from_bytes L B (request_content_bytes L B c) = Inr c"
proof (cases c)
  case (Connect req)
  moreover have "connect_into_bytes L req \<noteq> []" "connect_into_bytes L req ! 0 = 0"
    by (simp_all add: connect_into_bytes_def)
  ultimately show ?thesis using assms connect_dec_enc
    by (simp add: socks5_content_try_from_bytes_def request_flag_try_from_def)
next
  case (Send req)
  then show ?thesis using assms(3) request_data.dec_enc [of "send_data req"]
    by (simp add: socks5_content_try_from_bytes_def request_flag_try_from_def)
next
  case (Query q)
  obtain b where "bin_serialize B q = Some b" "bin_deserialize B b = Inr q"
    using assms(2) by (auto simp: bincode_ok_def)
  then show ?thesis using Query
    by (simp add: socks5_content_try_from_bytes_def request_flag_try_from_def unwrap_or_default_def)
qed

text \<open>A request of a version this build can send: legacy, or the current one.\<close>

definition socks5_request_ok :: "'i Socks5Request \<Rightarrow> bool" where
  "socks5_request_ok r \<longleftrightarrow> s5_protocol_version r \<in> {SimpleVersion.Legacy, version_new_current} \<and> socks5_content_ok (s5_content r)"

interpretation socks5_request: roundtrip "socks5_request_into_bytes L B" "socks5_request_try_from_bytes L B"
  "\<lambda>r. key_lib_ok L \<and> bincode_ok (\<lambda>_. True) B \<and> socks5_request_ok r" for L :: "'i key_lib" and B
proof
  fix r :: "'i Socks5Request"
  assume "key_lib_ok L \<and> bincode_ok (\<lambda>_. True) B \<and> socks5_request_ok r"
  then show "socks5_request_try_from_bytes L B (socks5_request_into_bytes L B r) = Inr r"
    using socks5_content_dec_enc [of L B "s5_content r"]
    by (cases r) (auto simp: socks5_request_try_from_bytes_def socks5_request_into_bytes_def socks5_request_ok_def
        version_defs max_supported_version_def version_new_current_def version_new_def)
qed

lemma socks5_request_reads_as_legacy:
  "socks5_request_ok r \<Longrightarrow> reads_as_legacy (socks5_request_into_bytes L B r) \<longleftrightarrow> s5_protocol_version r = SimpleVersion.Legacy"
  by (auto simp: socks5_request_into_bytes_def socks5_request_ok_def version_defs version_new_current_def version_new_def)

definition connection_error_ok :: "ConnectionError \<Rightarrow> bool" where
  "connection_error_ok e \<longleftrightarrow> ce_connection_id e < 2 ^ 64 \<and> valid_utf8 (network_requester_error e)"

interpretation connection_error: roundtrip connection_error_into_bytes connection_error_try_from_bytes connection_error_ok
proof
  fix e
  assume e: "connection_error_ok e"
  have "8 \<le> length (connection_error_into_bytes e)"
    by (simp add: connection_error_into_bytes_def)
  then have "connection_error_into_bytes e \<noteq> []" by auto
  then show "connection_error_try_from_bytes (connection_error_into_bytes e) = Inr e"
    using e by (simp add: connection_error_try_from_bytes_def connection_error_into_bytes_def connection_error_ok_def from_utf8_def)
qed

fun query_response_ok :: "'p QueryResponse \<Rightarrow> bool" where
  "query_response_ok (OpenProxyResponse _) \<longleftrightarrow> True"
| "query_response_ok (DescriptionResponse s) \<longleftrightarrow> valid_utf8 s"
| "query_response_ok (ExitPolicyResponse _ upstream _) \<longleftrightarrow> valid_utf8 upstream"
| "query_response_ok (ErrorQueryResponse message) \<longleftrightarrow> valid_utf8 message"

fun response_content_ok :: "'p Socks5ResponseContent \<Rightarrow> bool" where
  "response_content_ok (NetworkData d) \<longleftrightarrow> socket_data_ok d"
| "response_content_ok (ConnectionErrorContent e) \<longleftrightarrow> connection_error_ok e"
| "response_content_ok (QueryContent q) \<longleftrightarrow> query_response_ok q"

definition socks5_response_ok :: "'p Socks5Response \<Rightarrow> bool" where
  "socks5_response_ok r \<longleftrightarrow> version_ok (sr_protocol_version r) \<and> response_content_ok (sr_content r)"

lemma response_content_dec_enc:
  assumes "bincode_ok query_response_ok B" "response_content_ok c"
  shows "response_content_from_bytes B (response_content_bytes B c) = Inr c"
proof (cases c)
  case (NetworkData d)
  then show ?thesis using assms(2) response_data.dec_enc [of d]
    by (simp add: response_content_from_bytes_def response_flag_try_from_def)
next
  case (ConnectionErrorContent e)
  then show ?thesis using assms(2) connection_error.dec_enc [of e]
    by (simp add: response_content_from_bytes_def response_flag_try_from_def)
next
  case (QueryContent q)
  then obtain b where "bin_serialize B q = Some b" "bin_deserialize B b = Inr q"
    using assms by (auto simp: bincode_ok_def)
  then show ?thesis using QueryContent
    by (simp add: response_content_from_bytes_def response_flag_try_from_def unwrap_or_default_def)
qed

text \<open>Only the answer to a query starts with a byte that is also a version.\<close>

definition legacy_query_response :: "'p Socks5Response \<Rightarrow> bool" where
  "legacy_query_response r \<longleftrightarrow>
     sr_protocol_version r = SimpleVersion.Legacy \<and> (case sr_content r of QueryContent _ \<Rightarrow> True | _ \<Rightarrow> False)"

lemma socks5_response_dec_enc_iff:
  assumes B: "bincode_ok query_response_ok B" and r: "socks5_response_ok r"
  shows "socks5_response_try_from_bytes B (socks5_response_into_bytes B r) = Inr r \<longleftrightarrow> \<not> legacy_query_response r"
proof -
  have c: "response_content_from_bytes B (response_content_bytes B (sr_content r)) = Inr (sr_content r)"
    using r by (simp add: response_content_dec_enc [OF B] socks5_response_ok_def)
  show ?thesis
  proof (cases "sr_protocol_version r")
    case Legacy
    then show ?thesis using c
      by (cases "sr_content r"; cases r) (auto simp: socks5_response_try_from_bytes_def socks5_response_into_bytes_def
          version_defs legacy_query_response_def Let_def sbind_eq_Inr)
  next
    case (Versioned v)
    then show ?thesis using c r
      by (cases r) (auto simp: socks5_response_try_from_bytes_def socks5_response_into_bytes_def socks5_response_ok_def
          version_defs legacy_query_response_def)
  qed
qed

lemma socks5_response_reads_as_legacy:
  "version_ok (sr_protocol_version r) \<Longrightarrow> reads_as_legacy (socks5_response_into_bytes B r) \<longleftrightarrow>
     sr_protocol_version r = SimpleVersion.Legacy \<and> \<not> legacy_query_response r"
  by (cases "sr_protocol_version r"; cases "sr_content r")
    (auto simp: socks5_response_into_bytes_def version_defs legacy_query_response_def)

interpretation socks5_response: roundtrip "socks5_response_into_bytes B" "socks5_response_try_from_bytes B"
  "\<lambda>r. bincode_ok query_response_ok B \<and> socks5_response_ok r \<and> \<not> legacy_query_response r" for B
  by unfold_locales (simp add: socks5_response_dec_enc_iff)

section \<open>Messages on the wire\<close>

text \<open>
  C12. Requests of SOCKS5 clients: whatever a client of this version can build (a connection to an
  address of fewer than 65536 bytes, with or without a return address, data of a socket, a query or
  a control request; in the legacy or the current version of the SOCKS5 messages and of the
  envelope) is read back unchanged by the provider, exactly if a legacy envelope holds a legacy
  SOCKS5 request.
\<close>

theorem socks5_request_roundtrip:
  assumes "key_lib_ok L" "bincode_ok (\<lambda>_. True) B" "request_wf socks5_request_ok r"
  shows "request_try_from_bytes ProviderInterfaceError (socks5_request_try_from_bytes L B)
           (request_into_bytes (socks5_request_into_bytes L B) r) = Inr r
         \<longleftrightarrow> (rq_interface_version r = SimpleVersion.Legacy \<longrightarrow>
               (\<exists>q. rq_content r = ProviderData q \<and> s5_protocol_version q = SimpleVersion.Legacy))"
proof -
  have "request_wf (\<lambda>r. key_lib_ok L \<and> bincode_ok (\<lambda>_. True) B \<and> socks5_request_ok r) r"
    using assms by (auto simp: request_wf_def split: RequestContent.splits)
  from socks5_request.request_roundtrip_iff [OF this] show ?thesis
    using assms(3) by (auto simp: request_unambiguous_def request_wf_def socks5_request_reads_as_legacy
        split: RequestContent.splits)
qed

definition example_query_bincode :: "QueryRequest bincode" where
  "example_query_bincode =
     \<lparr>bin_serialize = (\<lambda>q. Some [case q of OpenProxy \<Rightarrow> 0 | Description \<Rightarrow> 1 | ExitPolicyQuery \<Rightarrow> 2]),
      bin_deserialize = (\<lambda>b. if b = [0] then Inr OpenProxy else if b = [1] then Inr Description
                             else if b = [2] then Inr ExitPolicyQuery else Inl ''malformed'')\<rparr>"

definition example_request :: "key32 Socks5Request Request" where
  "example_request =
     \<lparr>rq_interface_version = SimpleVersion.Versioned 3,
      rq_content = ProviderData \<lparr>s5_protocol_version = SimpleVersion.Versioned 3,
        s5_content = Connect \<lparr>conn_id = 7, remote_addr = [104, 105, 58, 56, 48],
          return_address = Some (recipient_new (Abs_key32 (replicate 32 1)) (replicate 32 2) (Abs_key32 (replicate 32 3)))\<rparr>\<rparr>\<rparr>"

lemma example_query_bincode_ok: "bincode_ok (\<lambda>_. True) example_query_bincode"
  by (simp add: bincode_ok_def example_query_bincode_def split: QueryRequest.split)

lemma example_request_wf: "request_wf socks5_request_ok example_request"
  by (simp add: request_wf_def example_request_def version_ok_def socks5_request_ok_def version_new_current_def
      version_new_def connect_ok_def ascii_valid recipient_ok_def recipient_new_def)

theorem socks5_request_roundtrip_witness:
  "request_try_from_bytes ProviderInterfaceError (socks5_request_try_from_bytes example_keys example_query_bincode)
     (request_into_bytes (socks5_request_into_bytes example_keys example_query_bincode) example_request) = Inr example_request"
  using socks5_request_roundtrip [OF key_lib_ok_example example_query_bincode_ok example_request_wf]
  by (simp add: example_request_def)

text \<open>
  C13. Responses of the provider: every response with valid strings is read back unchanged by the
  client, except a legacy answer to a query, whose first byte is taken for version 3, and except
  that a legacy envelope has to hold a legacy SOCKS5 response.
\<close>

theorem socks5_response_roundtrip:
  assumes "bincode_ok query_response_ok B" "serde_json_ok J" "response_wf socks5_response_ok r"
  shows "response_try_from_bytes J ProviderInterfaceError (socks5_response_try_from_bytes B)
           (response_into_bytes J (socks5_response_into_bytes B) r) = Inr r
         \<longleftrightarrow> (case rs_content r of
                ControlRes _ \<Rightarrow> rs_interface_version r \<noteq> SimpleVersion.Legacy
              | ProviderRes q \<Rightarrow> \<not> legacy_query_response q \<and>
                  (rs_interface_version r = SimpleVersion.Legacy \<longrightarrow> sr_protocol_version q = SimpleVersion.Legacy))"
    (is "?reads \<longleftrightarrow> ?ok")
proof (cases "\<exists>q. rs_content r = ProviderRes q \<and> legacy_query_response q")
  case True
  then obtain q where q: "rs_content r = ProviderRes q" "legacy_query_response q" by blast
  with assms(3) have "socks5_response_ok q" by (simp add: response_wf_def)
  with socks5_response_dec_enc_iff [OF assms(1)] q response_reads_content [of J _ _ _ r q] have "\<not> ?reads" by blast
  then show ?thesis using q by simp
next
  case False
  then have "response_wf (\<lambda>q. bincode_ok query_response_ok B \<and> socks5_response_ok q \<and> \<not> legacy_query_response q) r"
    using assms by (auto simp: response_wf_def split: ResponseContent.splits)
  from socks5_response.response_roundtrip_iff [OF this assms(2)]
  have "?reads \<longleftrightarrow> response_unambiguous (socks5_response_into_bytes B) r" .
  also have "\<dots> \<longleftrightarrow> ?ok"
    using False assms(3)
    by (auto simp: response_unambiguous_def response_wf_def socks5_response_ok_def socks5_response_reads_as_legacy
        legacy_query_response_def split: ResponseContent.splits Socks5ResponseContent.splits)
  finally show ?thesis .
qed

definition example_response_bincode :: "unit QueryResponse bincode" where
  "example_response_bincode =
     \<lparr>bin_serialize = (\<lambda>q. Some (case q of
          OpenProxyResponse b \<Rightarrow> [0, bool_u8 b] | DescriptionResponse s \<Rightarrow> 1 # s
        | ExitPolicyResponse e u p \<Rightarrow> 2 # bool_u8 e # bool_u8 (p \<noteq> None) # u | ErrorQueryResponse s \<Rightarrow> 3 # s)),
      bin_deserialize = (\<lambda>b. case b of
          [] \<Rightarrow> Inl ''empty''
        | t # r \<Rightarrow> if t = 0 then Inr (OpenProxyResponse (r = [1])) else if t = 1 then Inr (DescriptionResponse r)
            else if t = 2 then Inr (ExitPolicyResponse (r ! 0 = 1) (drop 2 r) (if r ! 1 = 1 then Some () else None))
            else Inr (ErrorQueryResponse r))\<rparr>"

definition example_serde_json :: "unit serde_json" where
  "example_serde_json =
     \<lparr>info_to_vec = binary_name, info_from_slice = (\<lambda>b. Inr \<lparr>binary_name = b, build_information = ()\<rparr>),
      versions_to_vec = (\<lambda>v. replicate (length (sv_interface_version v)) 1 @ 0 # sv_interface_version v @ sv_provider_version v),
      versions_from_slice = (\<lambda>b. let n = length (takeWhile ((=) 1) b); r = drop (Suc n) b
                                 in Inr \<lparr>sv_interface_version = take n r, sv_provider_version = drop n r\<rparr>),
      error_to_vec = (\<lambda>e. case e of ErrorResponse m \<Rightarrow> m), error_from_slice = (\<lambda>b. Inr (ErrorResponse b))\<rparr>"

definition example_response :: "(unit Socks5Response, unit) Response" where
  "example_response =
     \<lparr>rs_interface_version = SimpleVersion.Legacy,
      rs_content = ProviderRes \<lparr>sr_protocol_version = SimpleVersion.Legacy,
        sr_content = NetworkData (socket_data_new 1 7 True [1, 2, 3])\<rparr>\<rparr>"

definition example_legacy_query :: "(unit Socks5Response, unit) Response" where
  "example_legacy_query =
     \<lparr>rs_interface_version = SimpleVersion.Versioned 3,
      rs_content = ProviderRes \<lparr>sr_protocol_version = SimpleVersion.Legacy, sr_content = QueryContent (OpenProxyResponse True)\<rparr>\<rparr>"

lemma example_response_bincode_ok: "bincode_ok query_response_ok example_response_bincode"
  unfolding bincode_ok_def
proof (intro allI impI)
  fix q :: "unit QueryResponse"
  show "\<exists>b. bin_serialize example_response_bincode q = Some b \<and> bin_deserialize example_response_bincode b = Inr q"
  proof (cases q)
    case (ExitPolicyResponse enabled upstream policy)
    then show ?thesis by (cases policy) (simp_all add: example_response_bincode_def)
  qed (simp_all add: example_response_bincode_def)
qed

lemma example_serde_json_ok: "serde_json_ok example_serde_json"
  by (auto simp: serde_json_ok_def example_serde_json_def Let_def takeWhile_append split: ErrorResponse.split)

lemma example_responses_wf: "response_wf socks5_response_ok example_response" "response_wf socks5_response_ok example_legacy_query"
  by (simp_all add: response_wf_def example_response_def example_legacy_query_def version_ok_def socks5_response_ok_def
      socket_data_ok_def socket_data_new_def)

theorem socks5_response_roundtrip_witness:
  "response_try_from_bytes example_serde_json ProviderInterfaceError (socks5_response_try_from_bytes example_response_bincode)
     (response_into_bytes example_serde_json (socks5_response_into_bytes example_response_bincode) example_response)
   = Inr example_response
   \<and> response_try_from_bytes example_serde_json ProviderInterfaceError (socks5_response_try_from_bytes example_response_bincode)
     (response_into_bytes example_serde_json (socks5_response_into_bytes example_response_bincode) example_legacy_query)
   \<noteq> Inr example_legacy_query"
  using socks5_response_roundtrip [OF example_response_bincode_ok example_serde_json_ok example_responses_wf(1)]
    socks5_response_roundtrip [OF example_response_bincode_ok example_serde_json_ok example_responses_wf(2)]
  by (simp add: example_response_def example_legacy_query_def legacy_query_response_def)

end
