(* ===== verification/Socks5_Stream.thy ===== *)
theory Socks5_Stream
  imports Socks5_Requests "HOL-Library.AList" "HOL-Library.Sublist"
begin

text \<open>
  The byte streams that SOCKS5 connections carry through the mixnet,
  \<open>common/socks5/ordered-buffer\<close> and \<open>common/socks5/proxy-helpers\<close>. One end reads a socket and
  numbers the pieces (\<open>run_inbound\<close>, \<open>OrderedMessageSender\<close>); the mixnet may lose, repeat and
  reorder them; the other end sorts them by number (\<open>OrderedMessageBuffer\<close>, \<open>Controller\<close>) and
  writes them to its socket (\<open>run_outbound\<close>). The tasks are loops over \<open>select!\<close>; their models
  are functions of the events in the order in which they fire. Channels are named by numbers, and
  what is sent on them is recorded. A \<open>u64\<close> counter is a natural number with the checked
  operations of \<open>usize\<close>, which has the same range.
\<close>

section \<open>The ordered buffer\<close>

datatype OrderedMessageError =
    MessageSequenceTooLarge nat nat
  | MessageAlreadyReconstructed nat nat
  | AttemptedToOverwriteSequence nat

record OrderedMessageBuffer =
  next_sequence :: nat
  buffered :: "(nat \<times> bytes) list"

record ReadContiguousData =
  rd_data :: bytes
  last_sequence :: nat

abbreviation MAX_REASONABLE_OFFSET :: nat where "MAX_REASONABLE_OFFSET \<equiv> 1000"

definition ordered_buffer_new :: OrderedMessageBuffer where
  "ordered_buffer_new = \<lparr>next_sequence = 0, buffered = []\<rparr>"

text \<open>An error leaves the buffer as it is.\<close>

definition ordered_write :: "OrderedMessageBuffer \<Rightarrow> nat \<Rightarrow> bytes \<Rightarrow> (OrderedMessageError + OrderedMessageBuffer) option" where
  "ordered_write self sequence data =
     Option.bind (usize_add (next_sequence self) MAX_REASONABLE_OFFSET) (\<lambda>limit. Some
       (if limit < sequence then Inl (MessageSequenceTooLarge (next_sequence self) sequence)
        else if map_of (buffered self) sequence \<noteq> None then Inl (AttemptedToOverwriteSequence sequence)
        else if sequence < next_sequence self then Inl (MessageAlreadyReconstructed (next_sequence self) sequence)
        else Inr (self\<lparr>buffered := AList.update sequence data (buffered self)\<rparr>)))"

definition can_read_until :: "OrderedMessageBuffer \<Rightarrow> nat \<Rightarrow> bool" where
  "can_read_until self target \<longleftrightarrow>
     list_all (\<lambda>seq. map_of (buffered self) seq \<noteq> None) [next_sequence self..<Suc target]"

lemma length_delete_less: "map_of xs k = Some v \<Longrightarrow> length (AList.delete k xs) < length xs"
  by (induction xs) (auto simp: AList.delete_eq le_imp_less_Suc split: if_splits)

function ordered_read_loop :: "nat \<Rightarrow> (nat \<times> bytes) list \<Rightarrow> bytes \<Rightarrow> (bytes \<times> nat \<times> (nat \<times> bytes) list) option" where
  "ordered_read_loop seq messages contiguous_messages =
     (case map_of messages seq of
        None \<Rightarrow> Some (contiguous_messages, seq, messages)
      | Some data \<Rightarrow>
          Option.bind (usize_add seq 1) (\<lambda>seq'.
          ordered_read_loop seq' (AList.delete seq messages) (contiguous_messages @ data)))"
  by pat_completeness auto
termination
  by (relation "measure (\<lambda>(_, messages, _). length messages)") (auto dest: length_delete_less)

declare ordered_read_loop.simps [simp del]

definition ordered_read :: "OrderedMessageBuffer \<Rightarrow> (ReadContiguousData option \<times> OrderedMessageBuffer) option" where
  "ordered_read self =
     (if map_of (buffered self) (next_sequence self) = None then Some (None, self)
      else
        Option.bind (ordered_read_loop (next_sequence self) (buffered self) []) (\<lambda>(data, high_water, messages).
        Option.bind (usize_sub high_water 1) (\<lambda>last.
        Some (Some \<lparr>rd_data = data, last_sequence = last\<rparr>, \<lparr>next_sequence = high_water, buffered = messages\<rparr>))))"

section \<open>Reading the local socket\<close>

text \<open>
  The addresses in \<open>OrderedMessageSender\<close> are only logged. The receiver of \<open>mixnet_sender\<close>
  exists as long as the process runs; what is sent is returned. \<open>F\<close> is \<open>mix_message_adapter\<close>.
\<close>

record OrderedMessageSender =
  os_connection_id :: ConnectionId
  next_message_seq :: nat

record ProcessedData =
  pd_data :: bytes
  is_done :: bool

definition ordered_sender_new :: "ConnectionId \<Rightarrow> OrderedMessageSender" where
  "ordered_sender_new connection_id = \<lparr>os_connection_id = connection_id, next_message_seq = 0\<rparr>"

definition sequence_number :: "OrderedMessageSender \<Rightarrow> (nat \<times> OrderedMessageSender) option" where
  "sequence_number self =
     Option.bind (usize_add (next_message_seq self) 1) (\<lambda>n. Some (next_message_seq self, self\<lparr>next_message_seq := n\<rparr>))"

definition construct_message ::
    "(SocketData \<Rightarrow> 's) \<Rightarrow> OrderedMessageSender \<Rightarrow> bytes \<Rightarrow> bool \<Rightarrow> ('s \<times> OrderedMessageSender) option" where
  "construct_message F self data local_socket_closed =
     Option.bind (sequence_number self) (\<lambda>(seq, self).
     Some (F (socket_data_new seq (os_connection_id self) local_socket_closed data), self))"

definition send_empty_close :: "(SocketData \<Rightarrow> 's) \<Rightarrow> OrderedMessageSender \<Rightarrow> ('s \<times> OrderedMessageSender) option" where
  "send_empty_close F self = construct_message F self [] True"

definition send_empty_keepalive :: "(SocketData \<Rightarrow> 's) \<Rightarrow> OrderedMessageSender \<Rightarrow> ('s \<times> OrderedMessageSender) option" where
  "send_empty_keepalive F self = construct_message F self [] False"

definition process_data :: "(string + bytes) option \<Rightarrow> ProcessedData" where
  "process_data read_data =
     (case read_data of
        Some (Inr data) \<Rightarrow> \<lparr>pd_data = data, is_done = False\<rparr>
      | Some (Inl err) \<Rightarrow> \<lparr>pd_data = [], is_done = True\<rparr>
      | None \<Rightarrow> \<lparr>pd_data = [], is_done = True\<rparr>)"

definition send_data :: "(SocketData \<Rightarrow> 's) \<Rightarrow> OrderedMessageSender \<Rightarrow> ProcessedData \<Rightarrow> ('s \<times> OrderedMessageSender) option" where
  "send_data F self data = construct_message F self (pd_data data) (is_done data)"

text \<open>
  The branches of the loop: the outbound half ended, the process shuts down, the lane is empty
  after closing, the keepalive timer ticks, the socket yields a piece, an error or its end. The
  branches that are disabled are skipped.
\<close>

datatype inbound_event =
    ShutdownFuture
  | ShutdownListener
  | ClosingFuture
  | KeepaliveTimer
  | ReadData "(string + bytes) option"

fun run_inbound :: "(SocketData \<Rightarrow> 's) \<Rightarrow> OrderedMessageSender \<Rightarrow> bool \<Rightarrow> inbound_event list \<Rightarrow> 's list option" where
  "run_inbound F message_sender we_are_closed [] = Some []"
| "run_inbound F message_sender we_are_closed (ShutdownFuture # _) =
     Option.bind (send_empty_close F message_sender) (\<lambda>(m, _). Some [m])"
| "run_inbound F message_sender we_are_closed (ShutdownListener # _) = Some []"
| "run_inbound F message_sender we_are_closed (ClosingFuture # events) =
     (if we_are_closed then Some [] else run_inbound F message_sender we_are_closed events)"
| "run_inbound F message_sender we_are_closed (KeepaliveTimer # events) =
     Option.bind (send_empty_keepalive F message_sender) (\<lambda>(m, message_sender).
     Option.bind (run_inbound F message_sender we_are_closed events) (\<lambda>ms. Some (m # ms)))"
| "run_inbound F message_sender we_are_closed (ReadData read_data # events) =
     (if we_are_closed then run_inbound F message_sender we_are_closed events
      else
        let processed = process_data read_data in
        Option.bind (send_data F message_sender processed) (\<lambda>(m, message_sender).
        Option.bind (run_inbound F message_sender (is_done processed) events) (\<lambda>ms. Some (m # ms))))"

section \<open>Writing the remote socket\<close>

record ConnectionMessage =
  cm_payload :: bytes
  socket_closed :: bool

text \<open>
  What the socket makes of \<open>write_all\<close>: it takes all bytes, or fails after some of them. The
  result says what was written and whether the loop ends.
\<close>

datatype write_result = Written | FailedAfter nat

definition deal_with_message :: "ConnectionMessage \<Rightarrow> write_result \<Rightarrow> bytes \<times> bool" where
  "deal_with_message connection_message w =
     (case w of
        FailedAfter k \<Rightarrow> (take k (cm_payload connection_message), True)
      | Written \<Rightarrow> (cm_payload connection_message, socket_closed connection_message))"

datatype outbound_event =
    FromController "ConnectionMessage option" write_result
  | MixTimeout
  | OutboundShutdownFuture
  | OutboundShutdownListener

fun run_outbound :: "outbound_event list \<Rightarrow> bytes" where
  "run_outbound [] = []"
| "run_outbound (FromController (Some connection_message) w # events) =
     (case deal_with_message connection_message w of
        (written, True) \<Rightarrow> written
      | (written, False) \<Rightarrow> written @ run_outbound events)"
| "run_outbound (FromController None w # events) = []"
| "run_outbound (MixTimeout # events) = []"
| "run_outbound (OutboundShutdownFuture # events) = []"
| "run_outbound (OutboundShutdownListener # events) = []"

section \<open>The controller\<close>

type_synonym ConnectionSender = nat

datatype ControllerCommand =
    InsertConnection ConnectionId ConnectionSender
  | RemoveConnection ConnectionId
  | SendData SocketData

record ActiveConnection =
  is_closed :: bool
  closed_at_index :: "nat option"
  connection_sender :: "ConnectionSender option"
  ordered_buffer :: OrderedMessageBuffer

definition write_to_buf :: "ActiveConnection \<Rightarrow> nat \<Rightarrow> bytes \<Rightarrow> bool \<Rightarrow> ActiveConnection option" where
  "write_to_buf self seq payload closed =
     (let self = (if closed then self\<lparr>closed_at_index := Some seq\<rparr> else self) in
      Option.bind (ordered_write (ordered_buffer self) seq payload) (\<lambda>r.
      case r of Inl err \<Rightarrow> Some self | Inr b \<Rightarrow> Some (self\<lparr>ordered_buffer := b\<rparr>)))"

definition read_from_buf :: "ActiveConnection \<Rightarrow> (ReadContiguousData option \<times> ActiveConnection) option" where
  "read_from_buf self =
     Option.bind (ordered_read (ordered_buffer self)) (\<lambda>(r, b). Some (r, self\<lparr>ordered_buffer := b\<rparr>))"

text \<open>
  What the controller sends, in order: messages on the channels of the connections and the
  announcements of closed connections. A channel without receiver only causes a log entry.
\<close>

datatype ControllerOutput =
    ToConnection ConnectionSender ConnectionMessage
  | CloseCommand ConnectionId

record Controller =
  active_connections :: "ConnectionId \<rightharpoonup> ActiveConnection"
  recently_closed :: "ConnectionId set"
  pending_messages :: "ConnectionId \<rightharpoonup> SocketData list"
  outputs :: "ControllerOutput list"

definition controller_new :: Controller where
  "controller_new = \<lparr>active_connections = Map.empty, recently_closed = {}, pending_messages = Map.empty, outputs = []\<rparr>"

text \<open>The part of \<open>send_to_connection\<close> for an active connection: its new state and what is sent on its channel.\<close>

definition send_to_active :: "ActiveConnection \<Rightarrow> SocketData \<Rightarrow> (ActiveConnection \<times> ConnectionMessage option) option" where
  "send_to_active conn message =
     (let hdr = sd_header message in
      Option.bind (write_to_buf conn (sd_seq hdr) (sd_data message) (sd_local_socket_closed hdr)) (\<lambda>conn.
      Option.bind (read_from_buf conn) (\<lambda>(r, conn).
      case r of
        None \<Rightarrow> Some (conn, None)
      | Some payload \<Rightarrow>
          let conn = (case closed_at_index conn of
                        Some i \<Rightarrow> if i \<le> last_sequence payload then conn\<lparr>is_closed := True\<rparr> else conn
                      | None \<Rightarrow> conn) in
          if rd_data payload = [] \<and> \<not> is_closed conn then Some (conn, None)
          else Some (conn, Some \<lparr>cm_payload = rd_data payload, socket_closed = is_closed conn\<rparr>))))"

definition send_to_connection :: "Controller \<Rightarrow> SocketData \<Rightarrow> Controller option" where
  "send_to_connection self message =
     (let c = sd_connection_id (sd_header message) in
      case active_connections self c of
        Some conn \<Rightarrow>
          Option.bind (send_to_active conn message) (\<lambda>(conn, m).
          let self = self\<lparr>active_connections := (active_connections self)(c \<mapsto> conn)\<rparr> in
          case m of
            None \<Rightarrow> Some self
          | Some m \<Rightarrow>
              Option.bind (connection_sender conn) (\<lambda>ch. Some (self\<lparr>outputs := outputs self @ [ToConnection ch m]\<rparr>)))
      | None \<Rightarrow>
          if c \<notin> recently_closed self then
            let pending = (case pending_messages self c of Some p \<Rightarrow> p | None \<Rightarrow> []) in
            Some (self\<lparr>pending_messages := (pending_messages self)(c \<mapsto> pending @ [message])\<rparr>)
          else Some self)"

fun send_all_to_connection :: "Controller \<Rightarrow> SocketData list \<Rightarrow> Controller option" where
  "send_all_to_connection self [] = Some self"
| "send_all_to_connection self (data # pending) =
     Option.bind (send_to_connection self data) (\<lambda>self. send_all_to_connection self pending)"

definition active_connection_new :: "ConnectionSender \<Rightarrow> ActiveConnection" where
  "active_connection_new ch = \<lparr>is_closed = False, closed_at_index = None, connection_sender = Some ch,
     ordered_buffer = ordered_buffer_new\<rparr>"

definition insert_connection :: "Controller \<Rightarrow> ConnectionId \<Rightarrow> ConnectionSender \<Rightarrow> Controller option" where
  "insert_connection self c ch =
     (let self' = self\<lparr>active_connections := (active_connections self)(c \<mapsto> active_connection_new ch)\<rparr> in
      if active_connections self c \<noteq> None then Some self'
      else case pending_messages self c of
        None \<Rightarrow> Some self'
      | Some pending \<Rightarrow> send_all_to_connection (self'\<lparr>pending_messages := (pending_messages self)(c := None)\<rparr>) pending)"

definition remove_connection :: "Controller \<Rightarrow> ConnectionId \<Rightarrow> Controller" where
  "remove_connection self c =
     self\<lparr>active_connections := (active_connections self)(c := None), recently_closed := insert c (recently_closed self),
          outputs := outputs self @ [CloseCommand c]\<rparr>"

fun controller_command :: "Controller \<Rightarrow> ControllerCommand \<Rightarrow> Controller option" where
  "controller_command self (SendData data) = send_to_connection self data"
| "controller_command self (InsertConnection c ch) = insert_connection self c ch"
| "controller_command self (RemoveConnection c) = Some (remove_connection self c)"

fun controller_run :: "Controller \<Rightarrow> ControllerCommand list \<Rightarrow> Controller option" where
  "controller_run self [] = Some self"
| "controller_run self (command # commands) =
     Option.bind (controller_command self command) (\<lambda>self. controller_run self commands)"

end
