(* ===== verification/Socks5_Delivery.thy ===== *)
theory Socks5_Delivery
  imports Socks5_Stream
begin

text \<open>
  What a SOCKS5 connection delivers. The messages made from one socket are numbered and carry its
  bytes in order; the ordered buffer of the receiver (\<open>buffer_inv\<close>, \<open>close_inv\<close>, \<open>out_inv\<close>) hands on
  a prefix of them whatever arrives; the controller never panics (\<open>controller_ok\<close> bounds what it
  stores by the number of commands) and keeps connections apart (\<open>unrelated_frame\<close>). The
  theorems at the end go from one socket to the other.
\<close>

section \<open>What the sender makes of its socket\<close>

text \<open>The bytes read from the socket until it ends or the loop stops.\<close>

fun socket_bytes :: "inbound_event list \<Rightarrow> bytes" where
  "socket_bytes [] = []"
| "socket_bytes (ShutdownFuture # _) = []"
| "socket_bytes (ShutdownListener # _) = []"
| "socket_bytes (ClosingFuture # events) = socket_bytes events"
| "socket_bytes (KeepaliveTimer # events) = socket_bytes events"
| "socket_bytes (ReadData (Some (Inr data)) # events) = data @ socket_bytes events"
| "socket_bytes (ReadData _ # events) = []"

abbreviation seq_of :: "SocketData \<Rightarrow> nat" where "seq_of d \<equiv> sd_seq (sd_header d)"
abbreviation conn_of :: "SocketData \<Rightarrow> nat" where "conn_of d \<equiv> sd_connection_id (sd_header d)"
abbreviation closes :: "SocketData \<Rightarrow> bool" where "closes d \<equiv> sd_local_socket_closed (sd_header d)"

text \<open>Messages of one connection, numbered from \<open>n\<close>, without data once it has been closed.\<close>

fun numbered :: "ConnectionId \<Rightarrow> nat \<Rightarrow> bool \<Rightarrow> SocketData list \<Rightarrow> bool" where
  "numbered c n closed [] \<longleftrightarrow> True"
| "numbered c n closed (m # ms) \<longleftrightarrow>
     seq_of m = n \<and> conn_of m = c \<and> (closed \<longrightarrow> sd_data m = []) \<and> numbered c (Suc n) (closed \<or> closes m) ms"

lemma run_inbound_adapter: "run_inbound F s b events = map_option (map F) (run_inbound (\<lambda>d. d) s b events)"
  by (induction "\<lambda>d :: SocketData. d" s b events rule: run_inbound.induct)
    (auto simp: send_empty_close_def send_empty_keepalive_def send_data_def construct_message_def sequence_number_def
      Let_def split: option.splits bind_split)

lemma run_inbound_numbered:
  "run_inbound (\<lambda>d. d) s b events = Some ms \<Longrightarrow>
     numbered (os_connection_id s) (next_message_seq s) b ms \<and>
     concat (map sd_data ms) = (if b then [] else socket_bytes events)"
proof (induction "\<lambda>d :: SocketData. d" s b events arbitrary: ms rule: run_inbound.induct)
  case (5 message_sender we_are_closed events)
  then show ?case
    by (fastforce simp: send_empty_keepalive_def construct_message_def sequence_number_def usize_add_def socket_data_new_def
        bind_eq_Some_conv split: if_splits)
next
  case (6 message_sender we_are_closed read_data events)
  show ?case
  proof (cases we_are_closed)
    case True
    then show ?thesis using 6 by simp
  next
    case False
    then obtain s' ms' where r: "ms = socket_data_new (next_message_seq message_sender) (os_connection_id message_sender)
          (is_done (process_data read_data)) (pd_data (process_data read_data)) # ms'"
        "s' = message_sender\<lparr>next_message_seq := Suc (next_message_seq message_sender)\<rparr>"
        "run_inbound (\<lambda>d. d) s' (is_done (process_data read_data)) events = Some ms'"
        "send_data (\<lambda>d. d) message_sender (process_data read_data) =
           Some (socket_data_new (next_message_seq message_sender) (os_connection_id message_sender)
          (is_done (process_data read_data)) (pd_data (process_data read_data)), s')"
      using "6.prems"
      by (auto simp: Let_def send_data_def construct_message_def sequence_number_def usize_add_def bind_eq_Some_conv
          split: if_splits)
    from "6.hyps"(2) [OF False refl r(4) refl r(3)] r(1,2) show ?thesis using False
      by (auto simp: socket_data_new_def process_data_def split: option.splits sum.splits)
  qed
qed (auto simp: send_empty_close_def construct_message_def sequence_number_def usize_add_def socket_data_new_def
    bind_eq_Some_conv split: if_splits)

lemma numbered_nth:
  assumes "numbered c n b ms" "i < length ms"
  shows "seq_of (ms ! i) = n + i" "conn_of (ms ! i) = c" "b \<Longrightarrow> sd_data (ms ! i) = []"
  using assms by (induction ms arbitrary: n b i) (auto simp: nth_Cons split: nat.splits)

lemma numbered_after_close:
  assumes "numbered c n b ms" "i < j" "j < length ms" "closes (ms ! i)"
  shows "sd_data (ms ! j) = []"
  using assms
proof (induction ms arbitrary: n b i j)
  case (Cons m ms)
  then obtain j' where j: "j = Suc j'" by (cases j) auto
  show ?case
  proof (cases i)
    case 0
    then have "numbered c (Suc n) True ms" using Cons.prems by simp
    then show ?thesis using numbered_nth(3) Cons.prems(3) j by simp
  next
    case (Suc i')
    then show ?thesis using Cons.IH [of "Suc n" "b \<or> closes m" i' j'] Cons.prems j by simp
  qed
qed simp

lemma numbered_data_done:
  assumes "numbered c n b ms" "i < j" "j \<le> length ms" "closes (ms ! i)"
  shows "concat (map sd_data (take j ms)) = concat (map sd_data ms)"
proof -
  have "\<forall>d \<in> set (drop j ms). sd_data d = []"
  proof
    fix d
    assume "d \<in> set (drop j ms)"
    then obtain k where "k < length ms - j" "d = ms ! (j + k)" by (auto simp: in_set_conv_nth)
    then show "sd_data d = []" using numbered_after_close [OF assms(1), of i "j + k"] assms by simp
  qed
  then have "concat (map sd_data (drop j ms)) = []" by simp
  then show ?thesis by (metis append_Nil2 append_take_drop_id concat_append map_append)
qed

section \<open>The buffer\<close>

lemma map_of_delete_key: "map_of (AList.delete k xs) = (map_of xs)(k := None)"
  by (rule AList.delete_conv')

lemma length_delete_eq:
  "distinct (map fst xs) \<Longrightarrow> map_of xs k = Some v \<Longrightarrow> Suc (length (AList.delete k xs)) = length xs"
proof (induction xs)
  case (Cons x xs)
  show ?case
  proof (cases "fst x = k")
    case True
    then have "k \<notin> fst ` set xs" using Cons.prems(1) by auto
    then have "AList.delete k xs = xs" by (rule AList.delete_id)
    then show ?thesis using True by (cases x) simp
  next
    case False
    then show ?thesis using Cons by (cases x) (auto simp: AList.delete_eq)
  qed
qed simp

lemma ordered_read_loop_spec:
  assumes "distinct (map fst msgs)" "seq + length msgs \<le> usize_max"
  shows "\<exists>k msgs'. ordered_read_loop seq msgs acc = Some (acc @ concat (map (\<lambda>s. the (map_of msgs s)) [seq..<k]), k, msgs')
    \<and> seq \<le> k \<and> map_of msgs k = None \<and> (\<forall>s. seq \<le> s \<longrightarrow> s < k \<longrightarrow> map_of msgs s \<noteq> None)
    \<and> map_of msgs' = map_of msgs |` (- {seq..<k}) \<and> distinct (map fst msgs') \<and> k + length msgs' = seq + length msgs"
  using assms
proof (induction seq msgs acc rule: ordered_read_loop.induct)
  case (1 seq msgs acc)
  show ?case
  proof (cases "map_of msgs seq")
    case None
    then show ?thesis using 1 by (subst ordered_read_loop.simps) (auto intro!: exI [of _ seq])
  next
    case (Some data)
    have len: "Suc (length (AList.delete seq msgs)) = length msgs" by (rule length_delete_eq [OF 1(2) Some])
    then have add: "usize_add seq 1 = Some (Suc seq)" using 1(3) by (simp add: usize_add_def)
    have "distinct (map fst (AList.delete seq msgs))" using 1(2) by (simp add: AList.distinct_delete)
    moreover have "Suc seq + length (AList.delete seq msgs) \<le> usize_max" using 1(3) len by simp
    ultimately obtain k msgs' where k:
      "ordered_read_loop (Suc seq) (AList.delete seq msgs) (acc @ data) =
         Some ((acc @ data) @ concat (map (\<lambda>s. the (map_of (AList.delete seq msgs) s)) [Suc seq..<k]), k, msgs')"
      "Suc seq \<le> k" "map_of (AList.delete seq msgs) k = None"
      "\<forall>s. Suc seq \<le> s \<longrightarrow> s < k \<longrightarrow> map_of (AList.delete seq msgs) s \<noteq> None"
      "map_of msgs' = map_of (AList.delete seq msgs) |` (- {Suc seq..<k})" "distinct (map fst msgs')"
      "k + length msgs' = Suc seq + length (AList.delete seq msgs)"
      using 1(1) [OF Some add] by blast
    have m: "map (\<lambda>s. the (map_of (AList.delete seq msgs) s)) [Suc seq..<k] = map (\<lambda>s. the (map_of msgs s)) [Suc seq..<k]"
      by (rule map_cong) (auto simp: map_of_delete_key)
    have "[seq..<k] = seq # [Suc seq..<k]" using k(2) by (simp add: upt_conv_Cons)
    then have "ordered_read_loop seq msgs acc = Some (acc @ concat (map (\<lambda>s. the (map_of msgs s)) [seq..<k]), k, msgs')"
      using Some add k(1) unfolding m by (subst ordered_read_loop.simps) simp
    moreover have "map_of msgs' = map_of msgs |` (- {seq..<k})"
      using k(2,5) by (auto simp: map_of_delete_key restrict_map_def fun_eq_iff)
    moreover have "map_of msgs s \<noteq> None" if "seq \<le> s" "s < k" for s
      using that k(4) Some by (cases "s = seq") (auto simp: map_of_delete_key split: if_splits)
    moreover have "map_of msgs k = None" "seq \<le> k" "k + length msgs' = seq + length msgs"
      using k(2,3,7) len by (simp_all add: map_of_delete_key)
    ultimately show ?thesis using k(6) by blast
  qed
qed

abbreviation buffer_load :: "OrderedMessageBuffer \<Rightarrow> nat" where
  "buffer_load b \<equiv> next_sequence b + length (buffered b)"

abbreviation holds_seq :: "OrderedMessageBuffer \<Rightarrow> nat \<Rightarrow> bool" where
  "holds_seq b s \<equiv> map_of (buffered b) s \<noteq> None"

lemma length_update_le: "length (AList.update k v xs) \<le> Suc (length xs)"
  by (induction xs) auto

lemma ordered_read_cases:
  assumes "distinct (map fst (buffered b))" "buffer_load b \<le> usize_max"
  obtains (none) "\<not> holds_seq b (next_sequence b)" "ordered_read b = Some (None, b)"
  | (some) k buf where "next_sequence b < k" "map_of (buffered b) k = None"
      "\<And>s. next_sequence b \<le> s \<Longrightarrow> s < k \<Longrightarrow> holds_seq b s"
      "ordered_read b = Some (Some \<lparr>rd_data = concat (map (\<lambda>s. the (map_of (buffered b) s)) [next_sequence b..<k]),
         last_sequence = k - 1\<rparr>, \<lparr>next_sequence = k, buffered = buf\<rparr>)"
      "map_of buf = map_of (buffered b) |` (- {next_sequence b..<k})" "distinct (map fst buf)"
      "k + length buf = buffer_load b"
proof (cases "map_of (buffered b) (next_sequence b)")
  case None
  then show ?thesis using none by (simp add: ordered_read_def)
next
  case (Some data)
  obtain k buf where k: "ordered_read_loop (next_sequence b) (buffered b) [] =
        Some (concat (map (\<lambda>s. the (map_of (buffered b) s)) [next_sequence b..<k]), k, buf)"
      "next_sequence b \<le> k" "map_of (buffered b) k = None"
      "\<forall>s. next_sequence b \<le> s \<longrightarrow> s < k \<longrightarrow> map_of (buffered b) s \<noteq> None"
      "map_of buf = map_of (buffered b) |` (- {next_sequence b..<k})" "distinct (map fst buf)"
      "k + length buf = buffer_load b"
    using ordered_read_loop_spec [OF assms, of "[]"] by auto
  with Some have lt: "next_sequence b < k" by (cases "k = next_sequence b") auto
  with k Some have "ordered_read b = Some (Some \<lparr>rd_data = concat (map (\<lambda>s. the (map_of (buffered b) s)) [next_sequence b..<k]),
         last_sequence = k - 1\<rparr>, \<lparr>next_sequence = k, buffered = buf\<rparr>)"
    by (simp add: ordered_read_def usize_sub_def)
  then show ?thesis using some [of k buf] k lt by simp
qed

lemma ordered_write_cases:
  assumes "next_sequence b + 1000 \<le> usize_max"
  obtains (refused) e where "ordered_write b s d = Some (Inl e)" "next_sequence b + 1000 < s \<or> holds_seq b s \<or> s < next_sequence b"
  | (stored) "ordered_write b s d = Some (Inr (b\<lparr>buffered := AList.update s d (buffered b)\<rparr>))"
      "next_sequence b \<le> s" "\<not> holds_seq b s"
proof (cases "next_sequence b + 1000 < s \<or> holds_seq b s \<or> s < next_sequence b")
  case True
  have "\<exists>e. ordered_write b s d = Some (Inl e)"
    using True assms by (auto simp: ordered_write_def usize_add_def)
  then show ?thesis using refused True by blast
next
  case False
  then show ?thesis using stored assms by (simp add: ordered_write_def usize_add_def)
qed

text \<open>
  The state of a connection whose peer sent (some of) the messages \<open>ms\<close>, after \<open>out\<close> was
  sent on its channel; first between writing and reading, then after reading.
\<close>

abbreviation has_received :: "ActiveConnection \<Rightarrow> nat \<Rightarrow> bool" where
  "has_received conn s \<equiv> s < next_sequence (ordered_buffer conn) \<or> holds_seq (ordered_buffer conn) s"

definition buffer_inv :: "SocketData list \<Rightarrow> OrderedMessageBuffer \<Rightarrow> bool" where
  "buffer_inv ms b \<longleftrightarrow> next_sequence b \<le> length ms \<and> distinct (map fst (buffered b))
     \<and> (\<forall>s d. map_of (buffered b) s = Some d \<longrightarrow> next_sequence b \<le> s \<and> s < length ms \<and> d = sd_data (ms ! s))"

definition close_inv :: "SocketData list \<Rightarrow> ActiveConnection \<Rightarrow> bool" where
  "close_inv ms conn \<longleftrightarrow>
     (\<forall>i. closed_at_index conn = Some i \<longrightarrow> i < length ms \<and> closes (ms ! i))
   \<and> (\<forall>s < length ms. closes (ms ! s) \<longrightarrow> has_received conn s \<longrightarrow> closed_at_index conn \<noteq> None)
   \<and> (is_closed conn \<longrightarrow> (\<exists>i < next_sequence (ordered_buffer conn). closes (ms ! i)))"

definition out_inv :: "SocketData list \<Rightarrow> nat \<Rightarrow> ConnectionMessage list \<Rightarrow> bool" where
  "out_inv ms n out \<longleftrightarrow>
     concat (map cm_payload out) = concat (map sd_data (take n ms))
   \<and> (\<forall>k < length out. socket_closed (out ! k) \<longrightarrow>
        (\<exists>j \<le> length ms. (\<exists>i < j. closes (ms ! i))
          \<and> concat (map cm_payload (take (Suc k) out)) = concat (map sd_data (take j ms))))
   \<and> (n = length ms \<and> (\<exists>i < length ms. closes (ms ! i)) \<longrightarrow> out \<noteq> [] \<and> socket_closed (last out))"

definition stream_inv :: "SocketData list \<Rightarrow> ActiveConnection \<Rightarrow> ConnectionMessage list \<Rightarrow> bool" where
  "stream_inv ms conn out \<longleftrightarrow> buffer_inv ms (ordered_buffer conn) \<and> close_inv ms conn
     \<and> out_inv ms (next_sequence (ordered_buffer conn)) out"

lemma stream_inv_new: "stream_inv ms (active_connection_new ch) []"
  by (simp add: stream_inv_def buffer_inv_def close_inv_def out_inv_def active_connection_new_def ordered_buffer_new_def)

lemma buffer_inv_store:
  "buffer_inv ms b \<Longrightarrow> next_sequence b \<le> s \<Longrightarrow> s < length ms \<Longrightarrow>
     buffer_inv ms (b\<lparr>buffered := AList.update s (sd_data (ms ! s)) (buffered b)\<rparr>)"
  by (simp add: buffer_inv_def AList.update_conv' AList.distinct_update)

lemma close_inv_store:
  assumes "close_inv ms conn" "s < length ms" "b = ordered_buffer conn" "c \<longleftrightarrow> closes (ms ! s)"
  shows "close_inv ms ((if c then conn\<lparr>closed_at_index := Some s\<rparr> else conn)
           \<lparr>ordered_buffer := b\<lparr>buffered := AList.update s d (buffered b)\<rparr>\<rparr>)"
  using assms by (cases c) (auto simp: close_inv_def AList.update_conv')

lemma close_inv_mark:
  "close_inv ms conn \<Longrightarrow> s < length ms \<Longrightarrow> closes (ms ! s) \<Longrightarrow> close_inv ms (conn\<lparr>closed_at_index := Some s\<rparr>)"
  by (simp add: close_inv_def)

lemma write_to_buf_stream:
  assumes inv: "stream_inv ms conn out" and s: "s < length ms"
    and room: "next_sequence (ordered_buffer conn) + 1000 \<le> usize_max"
    and c: "c \<longleftrightarrow> closes (ms ! s)"
  obtains conn' where "write_to_buf conn s (sd_data (ms ! s)) c = Some conn'" "stream_inv ms conn' out"
    "next_sequence (ordered_buffer conn') = next_sequence (ordered_buffer conn)"
    "buffer_load (ordered_buffer conn') \<le> Suc (buffer_load (ordered_buffer conn))"
    "\<And>t. has_received conn t \<Longrightarrow> has_received conn' t"
    "s \<le> next_sequence (ordered_buffer conn) + 1000 \<Longrightarrow> has_received conn' s"
    "connection_sender conn' = connection_sender conn"
proof -
  let ?conn = "if c then conn\<lparr>closed_at_index := Some s\<rparr> else conn"
  show ?thesis
    using room
  proof (cases rule: ordered_write_cases [of "ordered_buffer conn" s "sd_data (ms ! s)"])
    case (refused e)
    show ?thesis
    proof (rule that)
      show "write_to_buf conn s (sd_data (ms ! s)) c = Some ?conn"
        using refused(1) by (simp add: write_to_buf_def)
      show "stream_inv ms ?conn out" using inv s c by (simp add: stream_inv_def close_inv_mark)
    qed (use refused(2) in auto)
  next
    case stored
    let ?b = "(ordered_buffer conn)\<lparr>buffered := AList.update s (sd_data (ms ! s)) (buffered (ordered_buffer conn))\<rparr>"
    show ?thesis
    proof (rule that)
      show "write_to_buf conn s (sd_data (ms ! s)) c = Some (?conn\<lparr>ordered_buffer := ?b\<rparr>)"
        using stored(1) by (simp add: write_to_buf_def)
      show "stream_inv ms (?conn\<lparr>ordered_buffer := ?b\<rparr>) out"
        using inv s stored(2) c buffer_inv_store close_inv_store [OF _ s refl c] by (simp add: stream_inv_def del: if_split)
      show "buffer_load (ordered_buffer (?conn\<lparr>ordered_buffer := ?b\<rparr>)) \<le> Suc (buffer_load (ordered_buffer conn))"
        using length_update_le by simp
    qed (use stored(3) in \<open>auto simp: AList.update_conv'\<close>)
  qed
qed

lemma take_data_upto:
  assumes "n \<le> k" "k \<le> length ms"
  shows "concat (map sd_data (take k ms)) = concat (map sd_data (take n ms)) @ concat (map (\<lambda>s. sd_data (ms ! s)) [n..<k])"
proof -
  have t: "take j ms = map ((!) ms) [0..<j]" if "j \<le> length ms" for j
    using that by (simp add: list_eq_iff_nth_eq)
  have "[0..<k] = [0..<n] @ [n..<k]" using assms(1) by (metis le_add_diff_inverse upt_add_eq_append zero_le)
  then show ?thesis using assms by (simp add: t comp_def)
qed

lemma out_inv_skip:
  assumes "out_inv ms n out" "n \<le> k" "k \<le> length ms" "concat (map (\<lambda>s. sd_data (ms ! s)) [n..<k]) = []"
    "\<not> (k = length ms \<and> (\<exists>i < length ms. closes (ms ! i)))"
  shows "out_inv ms k out"
  using assms(1,5) unfolding out_inv_def take_data_upto [OF assms(2,3)] assms(4) by auto

lemma out_inv_snoc:
  assumes "out_inv ms n out" "n \<le> k" "k \<le> length ms"
    "c \<Longrightarrow> \<exists>i < k. closes (ms ! i)" "k = length ms \<and> (\<exists>i < length ms. closes (ms ! i)) \<Longrightarrow> c"
  shows "out_inv ms k (out @ [\<lparr>cm_payload = concat (map (\<lambda>s. sd_data (ms ! s)) [n..<k]), socket_closed = c\<rparr>])"
    (is "out_inv ms k (out @ [?m])")
proof -
  have all: "concat (map cm_payload (out @ [?m])) = concat (map sd_data (take k ms))"
    using assms(1) take_data_upto [OF assms(2,3)] by (simp add: out_inv_def)
  moreover have "\<exists>j \<le> length ms. (\<exists>i < j. closes (ms ! i))
      \<and> concat (map cm_payload (take (Suc l) (out @ [?m]))) = concat (map sd_data (take j ms))"
    if "l < length (out @ [?m])" "socket_closed ((out @ [?m]) ! l)" for l
  proof (cases "l = length out")
    case True
    then have "c" using that(2) by simp
    moreover have "take (Suc l) (out @ [?m]) = out @ [?m]" using True by simp
    ultimately show ?thesis using assms(3,4) all by metis
  next
    case False
    then have l: "l < length out" "socket_closed (out ! l)" using that by (auto simp: nth_append)
    moreover have "take (Suc l) (out @ [?m]) = take (Suc l) out" using l(1) by simp
    ultimately show ?thesis using assms(1) unfolding out_inv_def by metis
  qed
  ultimately show ?thesis using assms(5) by (simp add: out_inv_def)
qed

lemma buffer_inv_read:
  assumes inv: "buffer_inv ms b" and k: "next_sequence b < k" and held: "\<And>s. next_sequence b \<le> s \<Longrightarrow> s < k \<Longrightarrow> holds_seq b s"
    and buf: "map_of buf = map_of (buffered b) |` (- {next_sequence b..<k})" "distinct (map fst buf)"
  shows "k \<le> length ms" "buffer_inv ms \<lparr>next_sequence = k, buffered = buf\<rparr>"
    "concat (map (\<lambda>s. the (map_of (buffered b) s)) [next_sequence b..<k]) = concat (map (\<lambda>s. sd_data (ms ! s)) [next_sequence b..<k])"
proof -
  have d: "next_sequence b \<le> s \<and> s < length ms \<and> d = sd_data (ms ! s)" if "map_of (buffered b) s = Some d" for s d
    using inv that by (simp add: buffer_inv_def)
  have "holds_seq b (k - 1)" using held [of "k - 1"] k by simp
  then show le: "k \<le> length ms" using d k by force
  show "buffer_inv ms \<lparr>next_sequence = k, buffered = buf\<rparr>"
    using le buf d by (force simp: buffer_inv_def restrict_map_def split: if_splits)
  show "concat (map (\<lambda>s. the (map_of (buffered b) s)) [next_sequence b..<k]) = concat (map (\<lambda>s. sd_data (ms ! s)) [next_sequence b..<k])"
    by (rule arg_cong [of _ _ concat], rule map_cong) (use held d in fastforce)+
qed

lemma close_inv_read:
  assumes inv: "close_inv ms conn" and k: "next_sequence (ordered_buffer conn) < k" "k \<le> length ms"
    and held: "\<And>s. next_sequence (ordered_buffer conn) \<le> s \<Longrightarrow> s < k \<Longrightarrow> holds_seq (ordered_buffer conn) s"
    and buf: "map_of buf = map_of (buffered (ordered_buffer conn)) |` (- {next_sequence (ordered_buffer conn)..<k})"
    and c: "c \<Longrightarrow> is_closed conn \<or> (\<exists>i < k. closes (ms ! i))"
  shows "close_inv ms (conn\<lparr>ordered_buffer := \<lparr>next_sequence = k, buffered = buf\<rparr>, is_closed := c\<rparr>)"
proof -
  have "closed_at_index conn \<noteq> None" if "s < length ms" "closes (ms ! s)" "has_received conn s" for s
    using inv that unfolding close_inv_def by blast
  moreover have "has_received conn s" if "s < k \<or> map_of buf s \<noteq> None" for s
    using that held [of s] buf by (cases "s < next_sequence (ordered_buffer conn)") (auto simp: restrict_map_def split: if_splits)
  moreover have "\<exists>i < k. closes (ms ! i)" if c
    using c [OF that] inv k(1) unfolding close_inv_def by (meson less_trans)
  moreover have "\<forall>i. closed_at_index conn = Some i \<longrightarrow> i < length ms \<and> closes (ms ! i)"
    using inv unfolding close_inv_def by blast
  ultimately show ?thesis unfolding close_inv_def by simp
qed

abbreviation option_list :: "'a option \<Rightarrow> 'a list" where
  "option_list x \<equiv> (case x of None \<Rightarrow> [] | Some y \<Rightarrow> [y])"

lemma send_to_active_stream:
  assumes inv: "stream_inv ms conn out" and s: "s < length ms" "seq_of (ms ! s) = s"
    and room: "buffer_load (ordered_buffer conn) + 1001 \<le> usize_max"
  obtains conn' m where "send_to_active conn (ms ! s) = Some (conn', m)" "stream_inv ms conn' (out @ option_list m)"
    "buffer_load (ordered_buffer conn') \<le> Suc (buffer_load (ordered_buffer conn))"
    "\<And>t. has_received conn t \<Longrightarrow> has_received conn' t"
    "next_sequence (ordered_buffer conn) \<le> next_sequence (ordered_buffer conn')"
    "s \<le> next_sequence (ordered_buffer conn) + 1000 \<Longrightarrow> has_received conn' s"
    "\<not> holds_seq (ordered_buffer conn') (next_sequence (ordered_buffer conn'))"
    "connection_sender conn' = connection_sender conn"
proof -
  have "next_sequence (ordered_buffer conn) + 1000 \<le> usize_max" using room by simp
  from write_to_buf_stream [OF inv s(1) this refl] obtain conn1 where w:
    "write_to_buf conn s (sd_data (ms ! s)) (closes (ms ! s)) = Some conn1" "stream_inv ms conn1 out"
    "next_sequence (ordered_buffer conn1) = next_sequence (ordered_buffer conn)"
    "buffer_load (ordered_buffer conn1) \<le> Suc (buffer_load (ordered_buffer conn))"
    "\<And>t. has_received conn t \<Longrightarrow> has_received conn1 t"
    "s \<le> next_sequence (ordered_buffer conn) + 1000 \<Longrightarrow> has_received conn1 s"
    "connection_sender conn1 = connection_sender conn" by blast
  let ?n = "next_sequence (ordered_buffer conn1)"
  have b: "buffer_inv ms (ordered_buffer conn1)" "close_inv ms conn1" "out_inv ms ?n out"
    using w(2) by (simp_all add: stream_inv_def)
  have dist: "distinct (map fst (buffered (ordered_buffer conn1)))" "buffer_load (ordered_buffer conn1) \<le> usize_max"
    using b(1) w(4) room by (simp_all add: buffer_inv_def)
  from dist show ?thesis
  proof (cases rule: ordered_read_cases)
    case none
    show ?thesis
    proof (rule that)
      show "send_to_active conn (ms ! s) = Some (conn1, None)"
        using w(1) none(2) s(2) by (simp add: send_to_active_def read_from_buf_def)
    qed (use w none in simp_all)
  next
    case (some k buf)
    note r = buffer_inv_read [OF b(1) some(1,3,5,6)]
    define c where "c \<longleftrightarrow> is_closed conn1 \<or> (\<exists>i. closed_at_index conn1 = Some i \<and> i < k)"
    define conn2 where "conn2 = conn1\<lparr>ordered_buffer := \<lparr>next_sequence = k, buffered = buf\<rparr>, is_closed := c\<rparr>"
    define data where "data = concat (map (\<lambda>s. sd_data (ms ! s)) [?n..<k])"
    have cl: "is_closed conn1 \<or> (\<exists>i < k. closes (ms ! i))" if c
      using that b(2) unfolding c_def close_inv_def by blast
    then have cl': "\<exists>i < k. closes (ms ! i)" if c
      using that b(2) some(1) unfolding close_inv_def by (meson less_trans)
    have last: "c" if "k = length ms \<and> (\<exists>i < length ms. closes (ms ! i))"
    proof -
      from that obtain i where i: "i < k" "k = length ms" "closes (ms ! i)" by blast
      then have "has_received conn1 i" using some(3) by (cases "i < ?n") simp_all
      then obtain j where "closed_at_index conn1 = Some j" using b(2) i unfolding close_inv_def by blast
      then show ?thesis using b(2) i(2) unfolding c_def close_inv_def by blast
    qed
    have close2: "close_inv ms conn2"
      unfolding conn2_def by (rule close_inv_read [OF b(2) some(1) r(1) some(3,5) cl])
    have send: "send_to_active conn (ms ! s) =
        Some (conn2, if data = [] \<and> \<not> c then None else Some \<lparr>cm_payload = data, socket_closed = c\<rparr>)"
      using w(1) some(1,4) r(3) s(2)
      by (cases "closed_at_index conn1")
        (auto simp: send_to_active_def read_from_buf_def conn2_def c_def data_def Let_def)
    have out: "out_inv ms k (out @ option_list (if data = [] \<and> \<not> c then None else Some \<lparr>cm_payload = data, socket_closed = c\<rparr>))"
    proof (cases "data = [] \<and> \<not> c")
      case True
      then have "out_inv ms k out"
        using out_inv_skip [OF b(3) less_imp_le [OF some(1)] r(1)] last unfolding data_def by blast
      then show ?thesis using True by simp
    next
      case False
      then show ?thesis
        using out_inv_snoc [OF b(3) less_imp_le [OF some(1)] r(1) cl' last, folded data_def] by auto
    qed
    have rec: "has_received conn2 t" if "has_received conn1 t" for t
      using that some(1,5) by (auto simp: conn2_def restrict_map_def)
    show ?thesis
    proof (rule that [OF send])
      show "stream_inv ms conn2 (out @ option_list (if data = [] \<and> \<not> c then None else Some \<lparr>cm_payload = data, socket_closed = c\<rparr>))"
        using out close2 r(2) by (simp add: stream_inv_def conn2_def)
      show "buffer_load (ordered_buffer conn2) \<le> Suc (buffer_load (ordered_buffer conn))"
        using w(4) some(7) by (simp add: conn2_def)
      show "\<not> holds_seq (ordered_buffer conn2) (next_sequence (ordered_buffer conn2))"
        using some(2,5) by (simp add: conn2_def restrict_map_def)
    qed (use rec w some(1) in \<open>simp_all add: conn2_def\<close>)
  qed
qed

section \<open>The controller does not panic\<close>

lemma send_to_active_total:
  assumes "distinct (map fst (buffered (ordered_buffer conn)))" "buffer_load (ordered_buffer conn) + 1001 \<le> usize_max"
  obtains conn' m where "send_to_active conn d = Some (conn', m)" "distinct (map fst (buffered (ordered_buffer conn')))"
    "buffer_load (ordered_buffer conn') \<le> Suc (buffer_load (ordered_buffer conn))"
    "connection_sender conn' = connection_sender conn"
proof -
  let ?conn = "if closes d then conn\<lparr>closed_at_index := Some (seq_of d)\<rparr> else conn"
  have "next_sequence (ordered_buffer conn) + 1000 \<le> usize_max" using assms(2) by simp
  then obtain b where b: "write_to_buf conn (seq_of d) (sd_data d) (closes d) = Some (?conn\<lparr>ordered_buffer := b\<rparr>)"
    "distinct (map fst (buffered b))" "buffer_load b \<le> Suc (buffer_load (ordered_buffer conn))"
  proof (cases rule: ordered_write_cases [of "ordered_buffer conn" "seq_of d" "sd_data d"])
    case (refused e)
    show ?thesis
    proof (rule that)
      show "write_to_buf conn (seq_of d) (sd_data d) (closes d) = Some (?conn\<lparr>ordered_buffer := ordered_buffer conn\<rparr>)"
        using refused(1) by (simp add: write_to_buf_def)
    qed (use assms(1) in simp_all)
  next
    case stored
    show ?thesis
    proof (rule that)
      show "write_to_buf conn (seq_of d) (sd_data d) (closes d) = Some (?conn\<lparr>ordered_buffer :=
          (ordered_buffer conn)\<lparr>buffered := AList.update (seq_of d) (sd_data d) (buffered (ordered_buffer conn))\<rparr>\<rparr>)"
        using stored(1) by (simp add: write_to_buf_def)
    qed (use assms(1) length_update_le in \<open>simp_all add: AList.distinct_update\<close>)
  qed
  have "buffer_load b \<le> usize_max" using b(3) assms(2) by simp
  from b(2) this show ?thesis
  proof (cases rule: ordered_read_cases)
    case none
    then show ?thesis using that [of "?conn\<lparr>ordered_buffer := b\<rparr>" None] b
      by (simp add: send_to_active_def read_from_buf_def)
  next
    case (some k buf)
    have "\<exists>conn' m. send_to_active conn d = Some (conn', m) \<and> ordered_buffer conn' = \<lparr>next_sequence = k, buffered = buf\<rparr>
        \<and> connection_sender conn' = connection_sender conn"
      using b(1) some(4) by (cases "closed_at_index ?conn")
        (simp_all add: send_to_active_def read_from_buf_def Let_def)
    then show ?thesis using that some(6,7) b(3) by fastforce
  qed
qed

definition pending_for :: "Controller \<Rightarrow> ConnectionId \<Rightarrow> SocketData list" where
  "pending_for st c = (case pending_messages st c of Some p \<Rightarrow> p | None \<Rightarrow> [])"

definition used :: "Controller \<Rightarrow> ConnectionId \<Rightarrow> nat" where
  "used st c = (case active_connections st c of Some conn \<Rightarrow> buffer_load (ordered_buffer conn) | None \<Rightarrow> 0)
     + length (pending_for st c)"

definition controller_ok :: "(ConnectionId \<Rightarrow> nat) \<Rightarrow> Controller \<Rightarrow> bool" where
  "controller_ok f st \<longleftrightarrow> (\<forall>c. used st c \<le> f c)
     \<and> (\<forall>c conn. active_connections st c = Some conn \<longrightarrow>
          distinct (map fst (buffered (ordered_buffer conn))) \<and> connection_sender conn \<noteq> None)
     \<and> (\<forall>c. \<forall>d \<in> set (pending_for st c). conn_of d = c)"

lemma controller_ok_mono: "controller_ok f st \<Longrightarrow> (\<And>c. f c \<le> g c) \<Longrightarrow> controller_ok g st"
  unfolding controller_ok_def using le_trans by blast

lemma controller_ok_new: "controller_ok f controller_new"
  by (simp add: controller_ok_def controller_new_def used_def pending_for_def)

lemma send_to_connection_ok:
  assumes ok: "controller_ok f st" and room: "f (conn_of d) + 1001 \<le> usize_max"
  obtains st' where "send_to_connection st d = Some st'" "controller_ok (f(conn_of d := Suc (f (conn_of d)))) st'"
proof (cases "active_connections st (conn_of d)")
  case None
  have u: "used st c \<le> f c" for c using ok by (simp add: controller_ok_def)
  let ?c = "conn_of d"
  let ?st = "st\<lparr>pending_messages := (pending_messages st)(?c \<mapsto> pending_for st ?c @ [d])\<rparr>"
  have "controller_ok (f(?c := Suc (f ?c))) ?st"
    using ok u [of ?c] u by (auto simp: controller_ok_def used_def pending_for_def None)
  moreover have "controller_ok (f(?c := Suc (f ?c))) st" by (rule controller_ok_mono [OF ok]) simp
  moreover have "send_to_connection st d = Some (if ?c \<in> recently_closed st then st else ?st)"
    using None by (simp add: send_to_connection_def pending_for_def Let_def)
  ultimately show ?thesis using that by (cases "?c \<in> recently_closed st") simp_all
next
  case (Some conn)
  let ?c = "conn_of d"
  have c: "distinct (map fst (buffered (ordered_buffer conn)))" "connection_sender conn \<noteq> None"
    using ok Some unfolding controller_ok_def by blast+
  have load: "buffer_load (ordered_buffer conn) + length (pending_for st ?c) \<le> f ?c"
  proof -
    have "used st ?c \<le> f ?c" using ok by (simp add: controller_ok_def)
    then show ?thesis by (simp add: used_def Some)
  qed
  have "buffer_load (ordered_buffer conn) + 1001 \<le> usize_max" using load room by simp
  from send_to_active_total [OF c(1) this, of d] obtain conn' m where s: "send_to_active conn d = Some (conn', m)" "distinct (map fst (buffered (ordered_buffer conn')))"
    "buffer_load (ordered_buffer conn') \<le> Suc (buffer_load (ordered_buffer conn))"
    "connection_sender conn' = connection_sender conn"
    by blast
  obtain ch where ch: "connection_sender conn = Some ch" using c(2) by blast
  have "controller_ok (f(?c := Suc (f ?c))) (st\<lparr>active_connections := (active_connections st)(?c \<mapsto> conn'), outputs := out\<rparr>)" for out
    using ok s(2,3,4) ch load by (auto simp: controller_ok_def used_def pending_for_def)
  from this [of "outputs st"] this [of "outputs st @ option_list (map_option (ToConnection ch) m)"] show ?thesis
    using that Some s(1,4) ch by (cases m) (simp_all add: send_to_connection_def)
qed

lemma send_all_ok:
  assumes "controller_ok f st" "\<forall>d \<in> set ds. conn_of d = c" "f c + length ds + 1001 \<le> usize_max"
  shows "\<exists>st'. send_all_to_connection st ds = Some st' \<and> controller_ok (f(c := f c + length ds)) st'"
  using assms
proof (induction ds arbitrary: st f)
  case (Cons d ds)
  have "f (conn_of d) + 1001 \<le> usize_max" using Cons.prems by simp
  from send_to_connection_ok [OF Cons.prems(1) this] obtain st1 where s:
    "send_to_connection st d = Some st1" "controller_ok (f(c := Suc (f c))) st1" using Cons.prems(2) by auto
  have "\<forall>d \<in> set ds. conn_of d = c" "(f(c := Suc (f c))) c + length ds + 1001 \<le> usize_max" using Cons.prems(2,3) by simp_all
  from Cons.IH [OF s(2) this] show ?case using s(1) unfolding fun_upd_upd fun_upd_same by simp
qed simp

lemma controller_command_ok:
  assumes ok: "controller_ok (\<lambda>_. k) st" and room: "k + 1002 \<le> usize_max"
  obtains st' where "controller_command st x = Some st'" "controller_ok (\<lambda>_. Suc k) st'"
proof (cases x)
  case (SendData d)
  from send_to_connection_ok [OF ok] room obtain st' where
    s: "send_to_connection st d = Some st'" "controller_ok ((\<lambda>_. k)(conn_of d := Suc k)) st'" by auto
  from s(2) have "controller_ok (\<lambda>_. Suc k) st'" by (rule controller_ok_mono) simp
  then show ?thesis using that SendData s(1) by simp
next
  case (RemoveConnection c)
  have "controller_ok (\<lambda>_. k) (remove_connection st c)"
    using ok by (auto simp: controller_ok_def remove_connection_def used_def pending_for_def dest: add_leD2 spec [of _ c])
  then have "controller_ok (\<lambda>_. Suc k) (remove_connection st c)" by (rule controller_ok_mono) simp
  then show ?thesis using that RemoveConnection by simp
next
  case (InsertConnection c ch)
  let ?st = "st\<lparr>active_connections := (active_connections st)(c \<mapsto> active_connection_new ch)\<rparr>"
  have len: "length (pending_for st c) \<le> k" using ok unfolding controller_ok_def used_def by (meson add_leD2)
  have 1: "controller_ok (\<lambda>_. k) ?st"
    using ok len by (auto simp: controller_ok_def used_def pending_for_def active_connection_new_def ordered_buffer_new_def)
  show ?thesis
  proof (cases "active_connections st c = None \<and> pending_messages st c \<noteq> None")
    case False
    then have "insert_connection st c ch = Some ?st" by (auto simp: insert_connection_def Let_def split: option.splits)
    moreover have "controller_ok (\<lambda>_. Suc k) ?st" by (rule controller_ok_mono [OF 1]) simp
    ultimately show ?thesis using that InsertConnection by simp
  next
    case True
    then obtain p where p: "active_connections st c = None" "pending_messages st c = Some p" by blast
    let ?st' = "?st\<lparr>pending_messages := (pending_messages st)(c := None)\<rparr>"
    have "controller_ok ((\<lambda>_. k)(c := 0)) ?st'"
      using ok by (auto simp: controller_ok_def used_def pending_for_def active_connection_new_def ordered_buffer_new_def)
    moreover have "\<forall>d \<in> set p. conn_of d = c" "length p \<le> k"
      using ok p len unfolding controller_ok_def by (auto simp: pending_for_def)
    ultimately obtain st' where s: "send_all_to_connection ?st' p = Some st'" "controller_ok ((\<lambda>_. k)(c := length p)) st'"
      using send_all_ok [of "(\<lambda>_. k)(c := 0)" ?st' p c] room by (auto simp del: fun_upd_apply simp: fun_upd_same)
    from s(2) have "controller_ok (\<lambda>_. Suc k) st'" by (rule controller_ok_mono) (use \<open>length p \<le> k\<close> in simp)
    then show ?thesis using that InsertConnection p s(1) by (simp add: insert_connection_def Let_def)
  qed
qed

section \<open>One connection of the controller\<close>

fun sent_on :: "ConnectionSender \<Rightarrow> ControllerOutput list \<Rightarrow> ConnectionMessage list" where
  "sent_on ch [] = []"
| "sent_on ch (ToConnection ch' m # os) = (if ch' = ch then m # sent_on ch os else sent_on ch os)"
| "sent_on ch (CloseCommand _ # os) = sent_on ch os"

lemma sent_on_append [simp]: "sent_on ch (xs @ ys) = sent_on ch xs @ sent_on ch ys"
  by (induction ch xs rule: sent_on.induct) simp_all

definition separate :: "ConnectionId \<Rightarrow> ConnectionSender \<Rightarrow> Controller \<Rightarrow> bool" where
  "separate c ch st \<longleftrightarrow> (\<forall>c' conn. c' \<noteq> c \<longrightarrow> active_connections st c' = Some conn \<longrightarrow> connection_sender conn \<noteq> Some ch)"

definition same_view :: "ConnectionId \<Rightarrow> ConnectionSender \<Rightarrow> Controller \<Rightarrow> Controller \<Rightarrow> bool" where
  "same_view c ch st st' \<longleftrightarrow> active_connections st' c = active_connections st c \<and> pending_messages st' c = pending_messages st c
     \<and> (c \<in> recently_closed st' \<longleftrightarrow> c \<in> recently_closed st) \<and> sent_on ch (outputs st') = sent_on ch (outputs st)
     \<and> separate c ch st'"

lemma write_to_buf_sender: "write_to_buf conn s d c = Some conn' \<Longrightarrow> connection_sender conn' = connection_sender conn"
  by (cases "ordered_write (ordered_buffer conn) s d") (auto simp: write_to_buf_def Let_def split: sum.splits if_splits)

lemma read_from_buf_sender: "read_from_buf conn = Some (r, conn') \<Longrightarrow> connection_sender conn' = connection_sender conn"
  by (auto simp: read_from_buf_def bind_eq_Some_conv)

lemma send_to_active_sender:
  assumes "send_to_active conn d = Some (conn', m)"
  shows "connection_sender conn' = connection_sender conn"
proof -
  obtain conn1 r conn2 where s: "write_to_buf conn (seq_of d) (sd_data d) (closes d) = Some conn1"
    "read_from_buf conn1 = Some (r, conn2)"
    using assms by (auto simp: send_to_active_def Let_def bind_eq_Some_conv)
  then have "connection_sender conn2 = connection_sender conn" using write_to_buf_sender read_from_buf_sender by metis
  then show ?thesis using assms s
    by (cases r; cases "closed_at_index conn2") (auto simp: send_to_active_def Let_def split: if_splits)
qed

lemma send_to_connection_frame:
  assumes "conn_of d \<noteq> c" "separate c ch st" "send_to_connection st d = Some st'"
  shows "same_view c ch st st'"
proof (cases "active_connections st (conn_of d)")
  case None
  then show ?thesis using assms by (auto simp: send_to_connection_def Let_def same_view_def separate_def split: if_splits)
next
  case (Some conn)
  then obtain conn' m where m: "send_to_active conn d = Some (conn', m)" "connection_sender conn' = connection_sender conn"
    using assms(3) send_to_active_sender by (auto simp: send_to_connection_def Let_def bind_eq_Some_conv)
  moreover have "connection_sender conn \<noteq> Some ch" using assms(1,2) Some unfolding separate_def by blast
  ultimately show ?thesis using assms Some
    by (auto simp: send_to_connection_def Let_def same_view_def separate_def bind_eq_Some_conv split: option.splits if_splits)
qed

lemma same_view_trans: "same_view c ch st st' \<Longrightarrow> same_view c ch st' st'' \<Longrightarrow> same_view c ch st st''"
  by (simp add: same_view_def)

lemma send_all_frame:
  assumes "\<forall>d \<in> set ds. conn_of d \<noteq> c" "separate c ch st" "send_all_to_connection st ds = Some st'"
  shows "same_view c ch st st'"
  using assms
proof (induction ds arbitrary: st)
  case (Cons d ds)
  then obtain st1 where s: "send_to_connection st d = Some st1" "send_all_to_connection st1 ds = Some st'"
    by (auto simp: bind_eq_Some_conv)
  have "conn_of d \<noteq> c" using Cons.prems(1) by simp
  from send_to_connection_frame [OF this Cons.prems(2) s(1)] have v: "same_view c ch st st1" .
  then have "same_view c ch st1 st'" using Cons.IH [OF _ _ s(2)] Cons.prems(1) unfolding same_view_def by simp
  then show ?case using v same_view_trans by blast
qed (simp add: same_view_def)

text \<open>Commands that do not concern the connection or its channel.\<close>

fun unrelated :: "ConnectionId \<Rightarrow> ConnectionSender \<Rightarrow> ControllerCommand \<Rightarrow> bool" where
  "unrelated c ch (SendData d) \<longleftrightarrow> conn_of d \<noteq> c"
| "unrelated c ch (InsertConnection c' ch') \<longleftrightarrow> c' \<noteq> c \<and> ch' \<noteq> ch"
| "unrelated c ch (RemoveConnection c') \<longleftrightarrow> c' \<noteq> c"

lemma unrelated_frame:
  assumes "unrelated c ch x" "separate c ch st" "controller_ok f st" "controller_command st x = Some st'"
  shows "same_view c ch st st'"
proof (cases x)
  case (SendData d)
  then show ?thesis using assms send_to_connection_frame [of d c ch st st'] by simp
next
  case (RemoveConnection c')
  then show ?thesis using assms by (auto simp: remove_connection_def same_view_def separate_def split: if_splits)
next
  case (InsertConnection c' ch')
  let ?st = "st\<lparr>active_connections := (active_connections st)(c' \<mapsto> active_connection_new ch')\<rparr>"
  have n: "c' \<noteq> c" "ch' \<noteq> ch" using assms(1) InsertConnection by simp_all
  show ?thesis
  proof (cases "active_connections st c' = None \<and> pending_messages st c' \<noteq> None")
    case False
    then have "st' = ?st" using assms(4) InsertConnection by (auto simp: insert_connection_def Let_def split: option.splits)
    then show ?thesis using n assms(2) by (auto simp: same_view_def separate_def active_connection_new_def split: if_splits)
  next
    case True
    then obtain p where p: "active_connections st c' = None" "pending_messages st c' = Some p" by blast
    let ?st' = "?st\<lparr>pending_messages := (pending_messages st)(c' := None)\<rparr>"
    have v: "same_view c ch st ?st'" using n assms(2) by (auto simp: same_view_def separate_def active_connection_new_def split: if_splits)
    have "send_all_to_connection ?st' p = Some st'" using assms(4) p InsertConnection by (simp add: insert_connection_def Let_def)
    moreover have "\<forall>d \<in> set p. conn_of d \<noteq> c" using assms(3) p n(1) unfolding controller_ok_def
      by (auto simp: pending_for_def dest!: spec [of _ c'])
    ultimately have "same_view c ch ?st' st'" using send_all_frame v unfolding same_view_def by blast
    then show ?thesis using v same_view_trans by blast
  qed
qed

text \<open>Messages arrive in a window of 1000: everything further back has arrived before.\<close>

definition in_window :: "SocketData list \<Rightarrow> bool" where
  "in_window ds \<longleftrightarrow> (\<forall>i < length ds. \<forall>s. s + 1000 < seq_of (ds ! i) \<longrightarrow> s \<in> seq_of ` set (take i ds))"

lemma in_window_snoc: "in_window (ds @ [d]) \<longleftrightarrow> in_window ds \<and> (\<forall>s. s + 1000 < seq_of d \<longrightarrow> s \<in> seq_of ` set ds)"
  by (auto simp: in_window_def nth_append less_Suc_eq)

text \<open>The three stages of the connection: before its insertion, active, and removed.\<close>

definition waiting :: "ConnectionId \<Rightarrow> ConnectionSender \<Rightarrow> SocketData list \<Rightarrow> Controller \<Rightarrow> bool" where
  "waiting c ch ds st \<longleftrightarrow> active_connections st c = None \<and> c \<notin> recently_closed st \<and> pending_for st c = ds
     \<and> sent_on ch (outputs st) = [] \<and> separate c ch st"

definition following :: "SocketData list \<Rightarrow> ConnectionId \<Rightarrow> ConnectionSender \<Rightarrow> SocketData list \<Rightarrow> Controller \<Rightarrow> bool" where
  "following ms c ch ds st \<longleftrightarrow>
     (\<exists>conn. active_connections st c = Some conn \<and> connection_sender conn = Some ch
        \<and> stream_inv ms conn (sent_on ch (outputs st))
        \<and> \<not> holds_seq (ordered_buffer conn) (next_sequence (ordered_buffer conn))
        \<and> (in_window ds \<longrightarrow> (\<forall>d \<in> set ds. has_received conn (seq_of d))))
     \<and> separate c ch st"

definition gone :: "SocketData list \<Rightarrow> ConnectionId \<Rightarrow> ConnectionSender \<Rightarrow> Controller \<Rightarrow> bool" where
  "gone ms c ch st \<longleftrightarrow> active_connections st c = None \<and> c \<in> recently_closed st
     \<and> (\<exists>n \<le> length ms. out_inv ms n (sent_on ch (outputs st))) \<and> separate c ch st"

lemma same_view_stages:
  assumes "same_view c ch st st'"
  shows "waiting c ch ds st \<Longrightarrow> waiting c ch ds st'" "following ms c ch ds st \<Longrightarrow> following ms c ch ds st'"
    "gone ms c ch st \<Longrightarrow> gone ms c ch st'"
  using assms by (simp_all add: same_view_def waiting_def following_def gone_def pending_for_def)

lemma following_send:
  assumes ms: "numbered c 0 False ms" and d: "d \<in> set ms" and st: "following ms c ch ds st"
    and room: "used st c + 1001 \<le> usize_max" and s: "send_to_connection st d = Some st'"
  shows "following ms c ch (ds @ [d]) st'"
proof -
  obtain i where i: "i < length ms" "d = ms ! i" using d by (auto simp: in_set_conv_nth)
  have seq: "seq_of (ms ! i) = i" "conn_of d = c" using numbered_nth [OF ms i(1)] i(2) by simp_all
  obtain conn where conn: "active_connections st c = Some conn" "connection_sender conn = Some ch"
    "stream_inv ms conn (sent_on ch (outputs st))"
    "\<not> holds_seq (ordered_buffer conn) (next_sequence (ordered_buffer conn))"
    "in_window ds \<Longrightarrow> d \<in> set ds \<Longrightarrow> has_received conn (seq_of d)" for d
    using st unfolding following_def by blast
  have "buffer_load (ordered_buffer conn) + 1001 \<le> usize_max" using room conn(1) by (simp add: used_def)
  from send_to_active_stream [OF conn(3) i(1) seq(1) this] obtain conn' m where a:
    "send_to_active conn d = Some (conn', m)" "stream_inv ms conn' (sent_on ch (outputs st) @ option_list m)"
    "\<And>t. has_received conn t \<Longrightarrow> has_received conn' t"
    "i \<le> next_sequence (ordered_buffer conn) + 1000 \<Longrightarrow> has_received conn' i"
    "\<not> holds_seq (ordered_buffer conn') (next_sequence (ordered_buffer conn'))"
    "connection_sender conn' = connection_sender conn" unfolding i(2) by metis
  have st': "st' = st\<lparr>active_connections := (active_connections st)(c \<mapsto> conn'),
      outputs := outputs st @ option_list (map_option (ToConnection ch) m)\<rparr>"
    using s a(1,6) conn(1,2) seq(2) by (cases m) (auto simp: send_to_connection_def)
  have win: "has_received conn' (seq_of e)" if w: "in_window (ds @ [d])" and e: "e \<in> set (ds @ [d])" for e
  proof (cases "e \<in> set ds")
    case True
    then show ?thesis using w conn(5) a(3) by (simp add: in_window_snoc)
  next
    case False
    have "i \<le> next_sequence (ordered_buffer conn) + 1000"
    proof (rule ccontr)
      assume "\<not> ?thesis"
      then have "next_sequence (ordered_buffer conn) \<in> seq_of ` set ds"
        using w i(2) seq(1) by (simp add: in_window_snoc)
      then obtain e' where "e' \<in> set ds" "seq_of e' = next_sequence (ordered_buffer conn)" by auto
      then show False using conn(4) conn(5) [of e'] w by (simp add: in_window_snoc)
    qed
    then show ?thesis using a(4) False e i(2) seq(1) by simp
  qed
  have "sent_on ch (outputs st') = sent_on ch (outputs st) @ option_list m"
    by (cases m) (simp_all add: st')
  moreover have "separate c ch st'" using st by (simp add: following_def separate_def st')
  ultimately show ?thesis using a(2,5,6) conn(2) win unfolding following_def by (simp add: st')
qed

lemma following_send_all:
  assumes ms: "numbered c 0 False ms" and ds: "set ds \<subseteq> set ms" and st: "following ms c ch ds0 st"
    and ok: "controller_ok f st" "f c + length ds + 1001 \<le> usize_max"
    and s: "send_all_to_connection st ds = Some st'"
  shows "following ms c ch (ds0 @ ds) st'"
  using ds st ok s
proof (induction ds arbitrary: ds0 st f)
  case (Cons d ds)
  then obtain st1 where s: "send_to_connection st d = Some st1" "send_all_to_connection st1 ds = Some st'"
    by (auto simp: bind_eq_Some_conv)
  have c: "conn_of d = c" using Cons.prems(1) numbered_nth(2) [OF ms] by (auto simp: in_set_conv_nth)
  have room: "f (conn_of d) + 1001 \<le> usize_max" using Cons.prems(4) c by simp
  have "used st c \<le> f c" using Cons.prems(3) by (simp add: controller_ok_def)
  then have "following ms c ch (ds0 @ [d]) st1"
    using following_send [OF ms _ Cons.prems(2) _ s(1)] Cons.prems(1) room c by simp
  moreover have "controller_ok (f(c := Suc (f c))) st1" "(f(c := Suc (f c))) c + length ds + 1001 \<le> usize_max"
    using send_to_connection_ok [OF Cons.prems(3) room] s(1) c Cons.prems(4) by auto
  ultimately show ?case using Cons.IH [of "ds0 @ [d]" st1] Cons.prems(1) s(2) by simp
qed simp

lemma waiting_insert:
  assumes ms: "numbered c 0 False ms" and ds: "set ds \<subseteq> set ms" and st: "waiting c ch ds st"
    and ok: "controller_ok (\<lambda>_. k) st" "k + 1002 \<le> usize_max"
    and s: "insert_connection st c ch = Some st'"
  shows "following ms c ch ds st'"
proof -
  let ?st = "st\<lparr>active_connections := (active_connections st)(c \<mapsto> active_connection_new ch),
    pending_messages := (pending_messages st)(c := None)\<rparr>"
  have n: "following ms c ch [] ?st"
    using st stream_inv_new [of ms ch]
    by (auto simp: following_def waiting_def separate_def active_connection_new_def ordered_buffer_new_def split: if_splits)
  have ok0: "controller_ok ((\<lambda>_. k)(c := 0)) ?st"
    using ok(1) by (auto simp: controller_ok_def used_def pending_for_def active_connection_new_def ordered_buffer_new_def)
  have a: "active_connections st c = None" "pending_for st c = ds" using st by (simp_all add: waiting_def)
  have "length ds \<le> k" using ok(1) a by (auto simp: controller_ok_def used_def dest: spec [of _ c])
  show ?thesis
  proof (cases "pending_messages st c")
    case None
    then have "st' = st\<lparr>active_connections := (active_connections st)(c \<mapsto> active_connection_new ch)\<rparr>" "ds = []"
      using s a by (simp_all add: insert_connection_def pending_for_def)
    then show ?thesis using n None by (simp add: following_def separate_def)
  next
    case (Some p)
    then have "send_all_to_connection ?st ds = Some st'"
      using s a by (simp add: insert_connection_def pending_for_def Let_def)
    from following_send_all [OF ms ds n ok0 _ this] show ?thesis using \<open>length ds \<le> k\<close> ok(2) by simp
  qed
qed

fun deliveries :: "ConnectionId \<Rightarrow> ControllerCommand list \<Rightarrow> SocketData list" where
  "deliveries c [] = []"
| "deliveries c (SendData d # xs) = (if conn_of d = c then d # deliveries c xs else deliveries c xs)"
| "deliveries c (InsertConnection _ _ # xs) = deliveries c xs"
| "deliveries c (RemoveConnection _ # xs) = deliveries c xs"

text \<open>
  What may happen to a connection after (or before) it is inserted: only messages of its peer
  are sent to it, and neither its number nor its channel is used for another one.
\<close>

fun admissible :: "SocketData list \<Rightarrow> ConnectionId \<Rightarrow> ConnectionSender \<Rightarrow> ControllerCommand \<Rightarrow> bool" where
  "admissible ms c ch (SendData d) \<longleftrightarrow> (conn_of d = c \<longrightarrow> d \<in> set ms)"
| "admissible ms c ch (InsertConnection c' ch') \<longleftrightarrow> c' \<noteq> c \<and> ch' \<noteq> ch"
| "admissible ms c ch (RemoveConnection c') \<longleftrightarrow> True"

lemma admissible_cases:
  assumes "admissible ms c ch x"
  obtains "unrelated c ch x" "deliveries c [x] = []" | d where "x = SendData d" "conn_of d = c" "d \<in> set ms" | "x = RemoveConnection c"
  using assms by (cases x) fastforce+

lemma deliveries_append: "deliveries c (xs @ ys) = deliveries c xs @ deliveries c ys"
  by (induction c xs rule: deliveries.induct) simp_all

lemma deliveries_Cons: "deliveries c (x # xs) = deliveries c [x] @ deliveries c xs"
  using deliveries_append [of c "[x]" xs] by simp

lemma admissible_deliveries: "\<forall>x \<in> set xs. admissible ms c ch x \<Longrightarrow> set (deliveries c xs) \<subseteq> set ms"
  by (induction c xs rule: deliveries.induct) auto

lemma controller_run_append:
  "controller_run st (xs @ ys) = Option.bind (controller_run st xs) (\<lambda>st. controller_run st ys)"
  by (induction xs arbitrary: st) (simp_all add: Option.bind_assoc)

lemma controller_run_total:
  assumes "controller_ok (\<lambda>_. k) st" "k + length xs + 1002 \<le> usize_max"
  shows "\<exists>st'. controller_run st xs = Some st' \<and> controller_ok (\<lambda>_. k + length xs) st'"
  using assms
proof (induction xs arbitrary: k st)
  case (Cons x xs)
  have "k + 1002 \<le> usize_max" using Cons.prems(2) by simp
  from controller_command_ok [OF Cons.prems(1) this] obtain st1 where
    s: "controller_command st x = Some st1" "controller_ok (\<lambda>_. Suc k) st1" by blast
  from Cons.IH [OF s(2)] show ?case using s(1) Cons.prems(2) by simp
qed simp

lemma controller_run_step:
  assumes "controller_ok (\<lambda>_. k) st" "k + length (x # xs) + 1002 \<le> usize_max" "controller_run st (x # xs) = Some st'"
  obtains st1 where "controller_command st x = Some st1" "controller_ok (\<lambda>_. Suc k) st1" "controller_run st1 xs = Some st'"
    "Suc k + length xs + 1002 \<le> usize_max"
proof -
  have "k + 1002 \<le> usize_max" using assms(2) by simp
  from controller_command_ok [OF assms(1) this, of x] obtain st1 where
    "controller_command st x = Some st1" "controller_ok (\<lambda>_. Suc k) st1" .
  then show ?thesis using that [of st1] assms(2,3) by simp
qed

lemma waiting_send:
  assumes "waiting c ch ds st" "conn_of d = c" "send_to_connection st d = Some st'"
  shows "waiting c ch (ds @ [d]) st'"
proof -
  have "st' = st\<lparr>pending_messages := (pending_messages st)(c \<mapsto> pending_for st c @ [d])\<rparr>"
    using assms by (simp add: waiting_def send_to_connection_def Let_def pending_for_def)
  then show ?thesis using assms(1) by (simp add: waiting_def pending_for_def separate_def)
qed

lemma waiting_run:
  assumes "waiting c ch ds st" "controller_ok (\<lambda>_. k) st" "k + length xs + 1002 \<le> usize_max"
    "\<forall>x \<in> set xs. admissible ms c ch x \<and> x \<noteq> RemoveConnection c" "controller_run st xs = Some st'"
  shows "waiting c ch (ds @ deliveries c xs) st'"
  using assms
proof (induction xs arbitrary: ds k st)
  case (Cons x xs)
  from controller_run_step [OF Cons.prems(2,3,5)] obtain st1 where
    s: "controller_command st x = Some st1" "controller_ok (\<lambda>_. Suc k) st1" "controller_run st1 xs = Some st'"
    "Suc k + length xs + 1002 \<le> usize_max" .
  have "waiting c ch (ds @ deliveries c [x]) st1"
  proof (rule admissible_cases [of ms c ch x])
    show "admissible ms c ch x" using Cons.prems(4) by simp
  next
    assume u: "unrelated c ch x" "deliveries c [x] = []"
    have "separate c ch st" using Cons.prems(1) by (simp add: waiting_def)
    from unrelated_frame [OF u(1) this Cons.prems(2) s(1)] show ?thesis
      using same_view_stages(1) Cons.prems(1) u(2) by simp
  next
    fix d
    assume "x = SendData d" "conn_of d = c"
    then show ?thesis using waiting_send [OF Cons.prems(1)] s(1) by simp
  next
    assume "x = RemoveConnection c"
    then show ?thesis using Cons.prems(4) by simp
  qed
  from Cons.IH [OF this s(2,4) _ s(3)] Cons.prems(4) show ?case by (simp add: deliveries_Cons [of c x xs])
qed simp

lemma following_step:
  assumes ms: "numbered c 0 False ms" and st: "following ms c ch ds st" and ok: "controller_ok (\<lambda>_. k) st" "k + 1002 \<le> usize_max"
    and x: "admissible ms c ch x" and s: "controller_command st x = Some st'"
  shows "x \<noteq> RemoveConnection c \<and> following ms c ch (ds @ deliveries c [x]) st' \<or> x = RemoveConnection c \<and> gone ms c ch st'"
  using x
proof (cases rule: admissible_cases)
  case 1
  have "separate c ch st" using st by (simp add: following_def)
  from unrelated_frame [OF 1(1) this ok(1) s] show ?thesis
    using same_view_stages(2) st 1 by auto
next
  case (2 d)
  have "used st c \<le> k" using ok(1) by (simp add: controller_ok_def)
  then show ?thesis using following_send [OF ms 2(3) st] s 2 ok(2) by simp
next
  case 3
  have "gone ms c ch (remove_connection st c)"
    using st by (auto simp: gone_def remove_connection_def following_def stream_inv_def buffer_inv_def separate_def)
  then show ?thesis using 3 s by simp
qed

lemma gone_step:
  assumes st: "gone ms c ch st" and ok: "controller_ok f st"
    and x: "admissible ms c ch x" and s: "controller_command st x = Some st'"
  shows "gone ms c ch st'"
  using x
proof (cases rule: admissible_cases)
  case 1
  have "separate c ch st" using st by (simp add: gone_def)
  from unrelated_frame [OF 1(1) this ok s] show ?thesis using same_view_stages(3) st by auto
next
  case (2 d)
  then show ?thesis using s st by (auto simp: send_to_connection_def gone_def)
next
  case 3
  then show ?thesis using s st by (auto simp: gone_def remove_connection_def separate_def)
qed

lemma gone_run:
  assumes "gone ms c ch st" "controller_ok (\<lambda>_. k) st" "k + length xs + 1002 \<le> usize_max"
    "\<forall>x \<in> set xs. admissible ms c ch x" "controller_run st xs = Some st'"
  shows "gone ms c ch st'"
  using assms
proof (induction xs arbitrary: k st)
  case (Cons x xs)
  from controller_run_step [OF Cons.prems(2,3,5)] obtain st1 where
    s: "controller_command st x = Some st1" "controller_ok (\<lambda>_. Suc k) st1" "controller_run st1 xs = Some st'"
    "Suc k + length xs + 1002 \<le> usize_max" .
  have "gone ms c ch st1" using gone_step [OF Cons.prems(1,2) _ s(1)] Cons.prems(4) by simp
  from Cons.IH [OF this s(2,4) _ s(3)] Cons.prems(4) show ?case by simp
qed simp

lemma following_run:
  assumes ms: "numbered c 0 False ms"
    and "following ms c ch ds st" "controller_ok (\<lambda>_. k) st" "k + length xs + 1002 \<le> usize_max"
    "\<forall>x \<in> set xs. admissible ms c ch x" "controller_run st xs = Some st'"
  shows "RemoveConnection c \<notin> set xs \<and> following ms c ch (ds @ deliveries c xs) st'
    \<or> RemoveConnection c \<in> set xs \<and> gone ms c ch st'"
  using assms(2-)
proof (induction xs arbitrary: ds k st)
  case (Cons x xs)
  have k: "k + 1002 \<le> usize_max" using Cons.prems(3) by simp
  from controller_run_step [OF Cons.prems(2,3,5)] obtain st1 where
    s: "controller_command st x = Some st1" "controller_ok (\<lambda>_. Suc k) st1" "controller_run st1 xs = Some st'"
    "Suc k + length xs + 1002 \<le> usize_max" .
  have "admissible ms c ch x" using Cons.prems(4) by simp
  from following_step [OF ms Cons.prems(1,2) k this s(1)] show ?case
  proof (elim disjE conjE)
    assume "x \<noteq> RemoveConnection c" "following ms c ch (ds @ deliveries c [x]) st1"
    then show ?thesis using Cons.IH [of "ds @ deliveries c [x]", OF _ s(2,4) _ s(3)] Cons.prems(4)
      by (simp add: deliveries_Cons [of c x xs])
  next
    assume "x = RemoveConnection c" "gone ms c ch st1"
    then show ?thesis using gone_run [OF _ s(2,4) _ s(3)] Cons.prems(4) by simp
  qed
qed simp

section \<open>From socket to socket\<close>

lemma controller_run_stages:
  assumes ms: "numbered c 0 False ms"
    and b: "\<forall>x \<in> set before. admissible ms c ch x \<and> x \<noteq> RemoveConnection c"
    and a: "\<forall>x \<in> set after. admissible ms c ch x"
    and n: "length before + length after + 1003 \<le> usize_max"
  obtains st where "controller_run controller_new (before @ InsertConnection c ch # after) = Some st"
    "RemoveConnection c \<notin> set after \<and> following ms c ch (deliveries c (before @ after)) st
     \<or> RemoveConnection c \<in> set after \<and> gone ms c ch st"
proof -
  have w0: "waiting c ch [] controller_new"
    by (simp add: waiting_def controller_new_def pending_for_def separate_def)
  have nb: "0 + length before + 1002 \<le> usize_max" using n by simp
  obtain st1 where s1: "controller_run controller_new before = Some st1" "controller_ok (\<lambda>_. length before) st1"
    using controller_run_total [OF controller_ok_new nb] by auto
  have w1: "waiting c ch (deliveries c before) st1"
    using waiting_run [OF w0 controller_ok_new nb b s1(1)] by simp
  have nk: "length before + 1002 \<le> usize_max" using n by simp
  from controller_command_ok [OF s1(2) nk, of "InsertConnection c ch"] obtain st2 where
    s2: "controller_command st1 (InsertConnection c ch) = Some st2" "controller_ok (\<lambda>_. Suc (length before)) st2" .
  have "set (deliveries c before) \<subseteq> set ms" using admissible_deliveries [of before ms c ch] b by blast
  from waiting_insert [OF ms this w1 s1(2) nk] have f: "following ms c ch (deliveries c before) st2" using s2(1) by simp
  have na: "Suc (length before) + length after + 1002 \<le> usize_max" using n by simp
  obtain st where s3: "controller_run st2 after = Some st"
    using controller_run_total [OF s2(2) na] by auto
  from following_run [OF ms f s2(2) na a s3] show ?thesis
    using that [of st] s1(1) s2(1) s3 by (simp add: controller_run_append deliveries_append)
qed

fun from_controller :: "outbound_event list \<Rightarrow> ConnectionMessage list" where
  "from_controller [] = []"
| "from_controller (FromController (Some m) _ # events) = m # from_controller events"
| "from_controller (_ # events) = from_controller events"

lemma from_controller_written [simp]: "from_controller (map (\<lambda>m. FromController (Some m) Written) out) = out"
  by (induction out) simp_all

lemma run_outbound_prefix: "prefix (run_outbound events) (concat (map cm_payload (from_controller events)))"
  by (induction events rule: run_outbound.induct)
    (auto simp: deal_with_message_def take_is_prefix intro: prefix_prefix split: write_result.splits prod.splits bool.splits)

lemma run_outbound_written:
  "run_outbound (map (\<lambda>m. FromController (Some m) Written) out) = concat (map cm_payload out)
   \<or> (\<exists>k < length out. socket_closed (out ! k)
        \<and> run_outbound (map (\<lambda>m. FromController (Some m) Written) out) = concat (map cm_payload (take (Suc k) out)))"
proof (induction out)
  case (Cons m out)
  show ?case
  proof (cases "socket_closed m")
    case True
    then show ?thesis by (auto simp: deal_with_message_def)
  next
    case False
    then have r: "run_outbound (map (\<lambda>m. FromController (Some m) Written) (m # out)) =
      cm_payload m @ run_outbound (map (\<lambda>m. FromController (Some m) Written) out)"
      by (simp add: deal_with_message_def)
    from Cons.IH show ?thesis
    proof (elim disjE exE conjE)
      fix k
      assume "k < length out" "socket_closed (out ! k)"
        "run_outbound (map (\<lambda>m. FromController (Some m) Written) out) = concat (map cm_payload (take (Suc k) out))"
      then show ?thesis unfolding r by (intro disjI2 exI [of _ "Suc k"]) simp
    qed (simp add: False deal_with_message_def)
  qed
qed simp

lemma prefix_concat_map: "prefix xs ys \<Longrightarrow> prefix (concat (map f xs)) (concat (map f ys))"
  by (auto simp: prefix_def)

text \<open>
  C11. Whatever the mixnet does to the messages of a SOCKS5 connection (it may lose, repeat and
  reorder them, also before the connection is known to the receiver), whatever happens on other
  connections, and whenever the receiving half stops (time-outs, shutdown, failed writes, removal
  of the connection): the controller does not panic, and the bytes written to the remote socket
  are a prefix of the bytes read from the local one.
\<close>

theorem socks5_stream_prefix:
  assumes "run_inbound (\<lambda>d. d) (ordered_sender_new c) False events = Some sent"
    and "\<forall>x \<in> set before. admissible sent c ch x \<and> x \<noteq> RemoveConnection c"
    and "\<forall>x \<in> set after. admissible sent c ch x"
    and "length before + length after < 2 ^ 63"
  shows "\<exists>st. controller_run controller_new (before @ InsertConnection c ch # after) = Some st
    \<and> (\<forall>outbound. prefix (from_controller outbound) (sent_on ch (outputs st)) \<longrightarrow>
         prefix (run_outbound outbound) (socket_bytes events))"
proof -
  have ms: "numbered c 0 False sent" "concat (map sd_data sent) = socket_bytes events"
    using run_inbound_numbered [OF assms(1)] by (simp_all add: ordered_sender_new_def)
  have "length before + length after + 1003 \<le> usize_max" using assms(4) by simp
  from controller_run_stages [OF ms(1) assms(2,3) this] obtain st where
    st: "controller_run controller_new (before @ InsertConnection c ch # after) = Some st"
      "following sent c ch (deliveries c (before @ after)) st \<or> gone sent c ch st" by blast
  obtain n where "out_inv sent n (sent_on ch (outputs st))"
    using st(2) unfolding following_def gone_def stream_inv_def by blast
  then have "prefix (concat (map cm_payload (sent_on ch (outputs st)))) (socket_bytes events)"
    unfolding out_inv_def ms(2) [symmetric] by (simp add: prefix_concat_map take_is_prefix)
  then have "prefix (run_outbound outbound) (socket_bytes events)"
    if "prefix (from_controller outbound) (sent_on ch (outputs st))" for outbound
    using run_outbound_prefix prefix_concat_map [OF that] prefix_order.trans by blast
  then show ?thesis using st(1) by blast
qed

text \<open>
  C10. If all messages of the connection arrive, each once or more, in any order in which none
  arrives before one that is more than 1000 earlier, and the connection is not removed, then all
  bytes read from the local socket are written to the remote one, in order; and if the local
  socket was closed, the last message for the remote socket closes it.
\<close>

theorem socks5_stream_complete:
  assumes "run_inbound (\<lambda>d. d) (ordered_sender_new c) False events = Some sent"
    and "\<forall>x \<in> set (before @ after). admissible sent c ch x \<and> x \<noteq> RemoveConnection c"
    and "length before + length after < 2 ^ 63"
    and "set sent \<subseteq> set (deliveries c (before @ after))" "in_window (deliveries c (before @ after))"
  shows "\<exists>st. controller_run controller_new (before @ InsertConnection c ch # after) = Some st
    \<and> run_outbound (map (\<lambda>m. FromController (Some m) Written) (sent_on ch (outputs st))) = socket_bytes events
    \<and> ((\<exists>d. d \<in> set sent \<and> closes d) \<longrightarrow> sent_on ch (outputs st) \<noteq> [] \<and> socket_closed (last (sent_on ch (outputs st))))"
proof -
  have ms: "numbered c 0 False sent" "concat (map sd_data sent) = socket_bytes events"
    using run_inbound_numbered [OF assms(1)] by (simp_all add: ordered_sender_new_def)
  have b: "\<forall>x \<in> set before. admissible sent c ch x \<and> x \<noteq> RemoveConnection c" "\<forall>x \<in> set after. admissible sent c ch x"
    "length before + length after + 1003 \<le> usize_max" using assms(2,3) by auto
  from controller_run_stages [OF ms(1) b] assms(2) obtain st where
    st: "controller_run controller_new (before @ InsertConnection c ch # after) = Some st"
      "following sent c ch (deliveries c (before @ after)) st" by auto
  let ?out = "sent_on ch (outputs st)"
  from st(2) obtain conn where conn: "stream_inv sent conn ?out" "\<not> holds_seq (ordered_buffer conn) (next_sequence (ordered_buffer conn))"
    "d \<in> set (deliveries c (before @ after)) \<Longrightarrow> has_received conn (seq_of d)" for d
    using assms(5) unfolding following_def by blast
  let ?n = "next_sequence (ordered_buffer conn)"
  have "?n = length sent"
  proof (rule ccontr)
    assume "?n \<noteq> length sent"
    then have n: "?n < length sent" using conn(1) by (simp add: stream_inv_def buffer_inv_def)
    then have "has_received conn (seq_of (sent ! ?n))" using conn(3) assms(4) by (meson nth_mem subsetD)
    then show False using conn(2) numbered_nth(1) [OF ms(1) n] by simp
  qed
  then have out: "out_inv sent (length sent) ?out" using conn(1) by (simp add: stream_inv_def)
  then have all: "concat (map cm_payload ?out) = socket_bytes events" using ms(2) by (simp add: out_inv_def)
  have "concat (map cm_payload (take (Suc k) ?out)) = socket_bytes events" if k: "k < length ?out" "socket_closed (?out ! k)" for k
  proof -
    from out k obtain j i where "j \<le> length sent" "i < j" "closes (sent ! i)"
      "concat (map cm_payload (take (Suc k) ?out)) = concat (map sd_data (take j sent))" unfolding out_inv_def by blast
    then show ?thesis using numbered_data_done [OF ms(1)] ms(2) by simp
  qed
  then have "run_outbound (map (\<lambda>m. FromController (Some m) Written) ?out) = socket_bytes events"
    using run_outbound_written [of ?out] all by metis
  moreover have "?out \<noteq> [] \<and> socket_closed (last ?out)" if "d \<in> set sent" "closes d" for d
    using out that unfolding out_inv_def by (metis in_set_conv_nth)
  ultimately show ?thesis using st(1) by blast
qed

abbreviation example_piece :: "nat \<Rightarrow> bytes \<Rightarrow> bool \<Rightarrow> SocketData" where
  "example_piece seq data closed \<equiv> socket_data_new seq 7 closed data"

lemma example_inbound:
  "run_inbound (\<lambda>d. d) (ordered_sender_new 7) False [ReadData (Some (Inr [1, 2])), KeepaliveTimer, ReadData (Some (Inr [3])), ReadData None]
   = Some [example_piece 0 [1, 2] False, example_piece 1 [] False, example_piece 2 [3] False, example_piece 3 [] True]"
  by (simp add: ordered_sender_new_def send_data_def send_empty_keepalive_def process_data_def construct_message_def
      sequence_number_def usize_add_def, simp add: numeral_2_eq_2 numeral_3_eq_3)

theorem socks5_stream_prefix_witness:
  "\<exists>st. controller_run controller_new ([SendData (example_piece 2 [3] False)] @ InsertConnection 7 0 #
        [SendData (example_piece 0 [1, 2] False), RemoveConnection 7, SendData (example_piece 1 [] False)]) = Some st
    \<and> prefix (run_outbound (map (\<lambda>m. FromController (Some m) Written) (sent_on 0 (outputs st)))) [1, 2, 3]"
  using socks5_stream_prefix [OF example_inbound, of "[SendData (example_piece 2 [3] False)]" 0
      "[SendData (example_piece 0 [1, 2] False), RemoveConnection 7, SendData (example_piece 1 [] False)]"]
  by (auto simp: socket_data_new_def)

theorem socks5_stream_complete_witness:
  "\<exists>st. controller_run controller_new ([SendData (example_piece 3 [] True), SendData (example_piece 2 [3] False)] @ InsertConnection 7 0 #
        [SendData (example_piece 1 [] False), SendData (example_piece 0 [1, 2] False), SendData (example_piece 1 [] False)]) = Some st
    \<and> run_outbound (map (\<lambda>m. FromController (Some m) Written) (sent_on 0 (outputs st))) = [1, 2, 3]
    \<and> socket_closed (last (sent_on 0 (outputs st)))"
  using socks5_stream_complete [OF example_inbound, of "[SendData (example_piece 3 [] True), SendData (example_piece 2 [3] False)]"
      "[SendData (example_piece 1 [] False), SendData (example_piece 0 [1, 2] False), SendData (example_piece 1 [] False)]" 0]
  by (auto simp: socket_data_new_def in_window_def less_Suc_eq)

end
