(* ===== verification/Cosmwasm.thy ===== *)
theory Cosmwasm
  imports Rust_Base "HOL-Library.Multiset" "HOL-Library.AList" "HOL-Library.Product_Lexorder" "HOL-Library.List_Lexorder" "HOL-Library.Char_ord"
begin

text \<open>
  What the smart contracts of the repository share: results of a call, 128-bit amounts, coins,
  times, percentages (\<open>contracts-common/src/types.rs\<close>) and the ordered key-value maps in which
  they keep their state.

  A call either panics (\<open>None\<close>), fails (\<open>Inl\<close>) or succeeds with a new state (\<open>Inr\<close>). In the first
  two cases the chain discards the changes of the transaction, so only success carries a state.
  Amounts are natural numbers bounded by \<open>u128_max\<close>; an overflow of \<open>Uint128\<close> or of the native
  types is a panic. Times are nanoseconds since the epoch, bounded by \<open>u64_max\<close>.
\<close>

abbreviation Ok :: "'a \<Rightarrow> ('e + 'a) option" where "Ok x \<equiv> Some (Inr x)"
abbreviation Err :: "'e \<Rightarrow> ('e + 'a) option" where "Err e \<equiv> Some (Inl e)"

section \<open>Amounts and times\<close>

definition u128_max :: nat where "u128_max = 2 ^ 128 - 1"
definition u64_max :: nat where "u64_max = 2 ^ 64 - 1"
definition u32_max :: nat where "u32_max = 2 ^ 32 - 1"

definition uint128_add :: "nat \<Rightarrow> nat \<Rightarrow> nat option" where
  "uint128_add a b = (if a + b \<le> u128_max then Some (a + b) else None)"

definition uint128_sub :: "nat \<Rightarrow> nat \<Rightarrow> nat option" where
  "uint128_sub a b = (if b \<le> a then Some (a - b) else None)"

definition uint128_mul :: "nat \<Rightarrow> nat \<Rightarrow> nat option" where
  "uint128_mul a b = (if a * b \<le> u128_max then Some (a * b) else None)"

definition u64_add :: "nat \<Rightarrow> nat \<Rightarrow> nat option" where
  "u64_add a b = (if a + b \<le> u64_max then Some (a + b) else None)"

definition u64_mul :: "nat \<Rightarrow> nat \<Rightarrow> nat option" where
  "u64_mul a b = (if a * b \<le> u64_max then Some (a * b) else None)"

definition u32_add :: "nat \<Rightarrow> nat \<Rightarrow> nat option" where
  "u32_add a b = (if a + b \<le> u32_max then Some (a + b) else None)"

text \<open>Adding up a sequence of amounts, as the folds over storage do.\<close>

fun uint128_sum :: "nat \<Rightarrow> nat list \<Rightarrow> nat option" where
  "uint128_sum acc [] = Some acc"
| "uint128_sum acc (v # vs) = Option.bind (uint128_add acc v) (\<lambda>acc. uint128_sum acc vs)"

abbreviation NANOS :: nat where "NANOS \<equiv> 1000000000"

definition timestamp_seconds :: "nat \<Rightarrow> nat" where
  "timestamp_seconds t = t div NANOS"

definition timestamp_from_seconds :: "nat \<Rightarrow> nat option" where
  "timestamp_from_seconds s = u64_mul s NANOS"

record Coin =
  denom :: string
  amount :: nat

type_synonym Addr = string

record MessageInfo =
  sender :: Addr
  funds :: "Coin list"

text \<open>\<open>cosmwasm_std::StdError\<close>, as far as the contracts meet it.\<close>

datatype StdError = StdNotFound string | StdGeneric string

text \<open>
  The part of \<open>cosmwasm_std\<close> the contracts call: the check of an address, and the product of a
  \<open>Decimal\<close>, given by its 18-digit atomics, with an amount.
\<close>

record cosmwasm =
  addr_validate :: "string \<Rightarrow> StdError + Addr"
  decimal_mul :: "nat \<Rightarrow> nat \<Rightarrow> nat option"

section \<open>Percentages\<close>

datatype Percent = Percent nat

definition DECIMAL_ONE :: nat where "DECIMAL_ONE = 10 ^ 18"

definition decimal_percent :: "nat \<Rightarrow> nat" where
  "decimal_percent x = x * 10 ^ 16"

datatype ContractsCommonError = InvalidPercent nat | StdErr StdError

definition percent_new :: "nat \<Rightarrow> ContractsCommonError + Percent" where
  "percent_new value = (if DECIMAL_ONE < value then Inl (InvalidPercent value) else Inr (Percent value))"

definition from_percentage_value :: "nat \<Rightarrow> ContractsCommonError + Percent" where
  "from_percentage_value value = percent_new (decimal_percent value)"

fun percent_mul_uint128 :: "'a cosmwasm_scheme \<Rightarrow> Percent \<Rightarrow> nat \<Rightarrow> nat option" where
  "percent_mul_uint128 api (Percent p) rhs = decimal_mul api p rhs"

section \<open>Storage\<close>

text \<open>
  A \<open>Map\<close> of \<open>cw_storage_plus\<close>: an association list with distinct keys. Iteration is in ascending
  order of the keys.
\<close>

definition kv_range :: "('k :: linorder \<times> 'v) list \<Rightarrow> ('k \<times> 'v) list" where
  "kv_range xs = sort_key fst xs"

definition kv_after :: "'k :: linorder option \<Rightarrow> ('k \<times> 'v) list \<Rightarrow> ('k \<times> 'v) list" where
  "kv_after start xs =
     (case start of None \<Rightarrow> kv_range xs | Some k \<Rightarrow> filter (\<lambda>e. k < fst e) (kv_range xs))"

locale kv_store =
  fixes entries :: "'s \<Rightarrow> ('k \<times> 'v) list" and save :: "'k \<Rightarrow> 'v \<Rightarrow> 's \<Rightarrow> 's" and remove :: "'k \<Rightarrow> 's \<Rightarrow> 's"
    and inv :: "'s \<Rightarrow> bool"
  assumes inv_distinct: "inv s \<Longrightarrow> distinct (map fst (entries s))"
    and inv_save: "inv s \<Longrightarrow> inv (save k v s)"
    and inv_remove: "inv s \<Longrightarrow> inv (remove k s)"
    and load_save: "inv s \<Longrightarrow> map_of (entries (save k v s)) = (map_of (entries s))(k \<mapsto> v)"
    and load_remove: "inv s \<Longrightarrow> map_of (entries (remove k s)) = (map_of (entries s))(k := None)"
begin

lemma entries_iff: "inv s \<Longrightarrow> (k, v) \<in> set (entries s) \<longleftrightarrow> map_of (entries s) k = Some v"
  by (simp add: inv_distinct)

lemma set_entries: "inv s \<Longrightarrow> set (entries s) = {(k, v). map_of (entries s) k = Some v}"
  by (auto simp: entries_iff)

lemma set_entries_save:
  "inv s \<Longrightarrow> set (entries (save k v s)) = insert (k, v) {e \<in> set (entries s). fst e \<noteq> k}"
  by (auto simp: set_entries load_save inv_save split: if_splits)

lemma set_entries_remove: "inv s \<Longrightarrow> set (entries (remove k s)) = {e \<in> set (entries s). fst e \<noteq> k}"
  by (auto simp: set_entries load_remove inv_remove split: if_splits)

end

text \<open>Stores of amounts: what the entries with a property of the key add up to.\<close>

locale ledger = kv_store entries save remove inv
  for entries :: "'s \<Rightarrow> ('k \<times> nat) list" and save remove inv
begin

definition total :: "('k \<Rightarrow> bool) \<Rightarrow> 's \<Rightarrow> nat" where
  "total P s = (\<Sum>e \<in> {e \<in> set (entries s). P (fst e)}. snd e)"

lemma sum_list_total:
  assumes "inv s"
  shows "sum_list (map snd (filter (\<lambda>e. P (fst e)) (entries s))) = total P s"
proof -
  have "distinct (filter (\<lambda>e. P (fst e)) (entries s))"
    using inv_distinct [OF assms] by (simp add: distinct_map)
  then show ?thesis by (simp add: total_def sum_list_distinct_conv_sum_set)
qed

lemma total_save_other: "inv s \<Longrightarrow> \<not> P k \<Longrightarrow> total P (save k v s) = total P s"
  unfolding total_def by (rule sum.cong) (auto simp: set_entries_save)

lemma total_remove_other: "inv s \<Longrightarrow> \<not> P k \<Longrightarrow> total P (remove k s) = total P s"
  unfolding total_def by (rule sum.cong) (auto simp: set_entries_remove)

lemma total_split:
  assumes "inv s" "P k"
  shows "total P s = (case map_of (entries s) k of None \<Rightarrow> 0 | Some v \<Rightarrow> v) + total (\<lambda>j. P j \<and> j \<noteq> k) s"
proof (cases "map_of (entries s) k")
  case None
  then have "{e \<in> set (entries s). P (fst e)} = {e \<in> set (entries s). P (fst e) \<and> fst e \<noteq> k}"
    using assms by (auto simp: set_entries)
  then show ?thesis using None by (simp add: total_def)
next
  case (Some v)
  then have "{e \<in> set (entries s). P (fst e)} = insert (k, v) {e \<in> set (entries s). P (fst e) \<and> fst e \<noteq> k}"
    using assms by (auto simp: set_entries)
  then show ?thesis using Some by (simp add: total_def)
qed

lemma total_save:
  assumes "inv s" "P k"
  shows "total P (save k v s) + (case map_of (entries s) k of None \<Rightarrow> 0 | Some w \<Rightarrow> w) = total P s + v"
proof -
  have "total (\<lambda>j. P j \<and> j \<noteq> k) (save k v s) = total (\<lambda>j. P j \<and> j \<noteq> k) s"
    using assms(1) by (rule total_save_other) simp
  then show ?thesis
    using total_split [of s P k] total_split [of "save k v s" P k] assms by (simp add: inv_save load_save)
qed

end

interpretation kv: kv_store "\<lambda>xs. xs" AList.update AList.delete "\<lambda>xs. distinct (map fst xs)"
  by unfold_locales (auto simp: update_conv' delete_conv' distinct_update distinct_delete)

interpretation amounts: ledger "\<lambda>xs. xs" AList.update AList.delete "\<lambda>xs. distinct (map fst xs)"
  by unfold_locales

section \<open>Lemmas\<close>

lemma uint128_add_eq [simp]: "uint128_add a b = Some c \<longleftrightarrow> c = a + b \<and> a + b \<le> u128_max"
  by (auto simp: uint128_add_def)

lemma uint128_sub_eq [simp]: "uint128_sub a b = Some c \<longleftrightarrow> c = a - b \<and> b \<le> a"
  by (auto simp: uint128_sub_def)

lemma uint128_sum_eq: "acc \<le> u128_max \<Longrightarrow>
  uint128_sum acc vs = (if acc + sum_list vs \<le> u128_max then Some (acc + sum_list vs) else None)"
  by (induction vs arbitrary: acc) (auto simp: uint128_add_def)

lemma sum_list_kv_range:
  fixes xs :: "('k :: linorder \<times> nat) list"
  shows "sum_list (map snd (filter P (kv_range xs))) = sum_list (map snd (filter P xs))"
proof -
  have "mset (map snd (filter P (kv_range xs))) = mset (map snd (filter P xs))"
    by (simp add: kv_range_def)
  then have "sum_mset (mset (map snd (filter P (kv_range xs)))) = sum_mset (mset (map snd (filter P xs)))" by simp
  then show ?thesis by (simp only: sum_mset_sum_list)
qed

end
