(* ===== verification/Vesting_Account.thy ===== *)
theory Vesting_Account
  imports Cosmwasm
begin

text \<open>
  The accounts of the vesting contract: \<open>vesting-contract/src/{account,types}.rs\<close> of the common
  crates and \<open>contracts/vesting/src/{storage.rs,vesting/account/}\<close>.

  The state of the contract is one record with a field per storage item. The functions of the
  traits take the account and the state and return the new state. Mixnet messages are values;
  events are not modelled.
\<close>

section \<open>Types\<close>

type_synonym VestingAccountStorageKey = nat
type_synonym MixId = nat
type_synonym IdentityKey = string

datatype Period = Before | In nat | After

record PledgeData =
  pd_amount :: Coin
  pd_block_time :: nat

definition pledge_data_new :: "Coin \<Rightarrow> nat \<Rightarrow> PledgeData" where
  "pledge_data_new a t = \<lparr>pd_amount = a, pd_block_time = t\<rparr>"

datatype PledgeCap = PercentCap Percent | Absolute nat

definition pledge_cap_default :: PledgeCap where
  "pledge_cap_default = PercentCap (Percent (decimal_percent 10))"

record VestingPeriod =
  vp_start_time :: nat
  vp_period_seconds :: nat

definition vp_end_time :: "VestingPeriod \<Rightarrow> nat option" where
  "vp_end_time self = Option.bind (u64_add (vp_start_time self) (vp_period_seconds self)) timestamp_from_seconds"

record VestingSpecification =
  spec_start_time :: "nat option"
  spec_period_seconds :: "nat option"
  spec_num_periods :: "nat option"

definition vesting_spec_default :: VestingSpecification where
  "vesting_spec_default = \<lparr>spec_start_time = None, spec_period_seconds = None, spec_num_periods = None\<rparr>"

definition period_seconds :: "VestingSpecification \<Rightarrow> nat" where
  "period_seconds self = (case spec_period_seconds self of Some s \<Rightarrow> s | None \<Rightarrow> 3 * 30 * 86400)"

definition num_periods :: "VestingSpecification \<Rightarrow> nat" where
  "num_periods self = (case spec_num_periods self of Some n \<Rightarrow> n | None \<Rightarrow> 8)"

definition vesting_period_at :: "VestingSpecification \<Rightarrow> nat \<Rightarrow> nat \<Rightarrow> VestingPeriod option" where
  "vesting_period_at self start_time i =
     Option.bind (u64_mul i (period_seconds self)) (\<lambda>offset.
     Option.bind (u64_add start_time offset) (\<lambda>start.
     Some \<lparr>vp_start_time = start, vp_period_seconds = period_seconds self\<rparr>))"

definition populate_vesting_periods :: "VestingSpecification \<Rightarrow> nat \<Rightarrow> VestingPeriod list option" where
  "populate_vesting_periods self start_time =
     those (map (vesting_period_at self start_time) [0..<num_periods self])"

record Account =
  acc_owner_address :: Addr
  acc_staking_address :: "Addr option"
  acc_start_time :: nat
  acc_periods :: "VestingPeriod list"
  acc_coin :: Coin
  acc_storage_key :: VestingAccountStorageKey
  acc_pledge_cap :: "PledgeCap option"

datatype VestingContractError =
    Std StdError
  | OverflowError
  | NoAccountForAddress string
  | NotAdmin string
  | NoBalanceForAddress string
  | InsufficientBalance string nat
  | InsufficientSpendable string nat
  | NotDelegate string
  | ImprobableVestingAmount nat
  | AlreadyBonded string
  | EmptyFunds
  | WrongDenom string string
  | MultipleDenoms
  | NoSuchDelegation Addr MixId
  | NotMixnetContract Addr
  | Underflow
  | NoBondFound string
  | InvalidBondPledgeReduction Coin Coin
  | NotOwner string
  | InvalidAddress string
  | AccountAlreadyExists string
  | StakingAccountAlreadyExists string
  | MinVestingFunds nat nat
  | LockedPledgeCapReached nat nat
  | UnpopulatedVestingPeriods Addr
  | StakingAccountExists string
  | InvalidStakingAccount Addr Addr
  | TooManyDelegations Addr VestingAccountStorageKey MixId nat nat
  | SemVerFailure string string
  | Other string

type_synonym 'a vresult = "(VestingContractError + 'a) option"

definition pledge_cap :: "Account \<Rightarrow> PledgeCap" where
  "pledge_cap self = (case acc_pledge_cap self of Some c \<Rightarrow> c | None \<Rightarrow> pledge_cap_default)"

definition num_vesting_periods :: "Account \<Rightarrow> nat" where
  "num_vesting_periods self = length (acc_periods self)"

definition period_duration :: "Account \<Rightarrow> VestingContractError + nat" where
  "period_duration self =
     (case acc_periods self of
        [] \<Rightarrow> Inl (UnpopulatedVestingPeriods (acc_owner_address self))
      | p # _ \<Rightarrow> Inr (vp_period_seconds p))"

definition tokens_per_period :: "Account \<Rightarrow> nat vresult" where
  "tokens_per_period self =
     (let a = amount (acc_coin self) in
      if a < num_vesting_periods self then Err (ImprobableVestingAmount a)
      else if num_vesting_periods self = 0 then None
      else Ok (a div num_vesting_periods self))"

text \<open>The loop over the periods that have ended.\<close>

fun period_index :: "nat \<Rightarrow> VestingPeriod list \<Rightarrow> nat \<Rightarrow> nat option" where
  "period_index block_time [] idx = Some idx"
| "period_index block_time (p # ps) idx =
     Option.bind (vp_end_time p) (\<lambda>e.
       if block_time < e then Some idx else period_index block_time ps (idx + 1))"

definition get_current_vesting_period :: "Account \<Rightarrow> nat \<Rightarrow> Period vresult" where
  "get_current_vesting_period self block_time =
     (if acc_periods self = [] then Err (UnpopulatedVestingPeriods (acc_owner_address self))
      else
        let first_period = hd (acc_periods self); last_period = last (acc_periods self) in
        if timestamp_seconds block_time < vp_start_time first_period then Ok Before
        else
          pbind (panicking (vp_end_time last_period)) (\<lambda>e.
          if e < block_time then Ok After
          else pbind (panicking (period_index block_time (acc_periods self) 0)) (\<lambda>i. Ok (In i))))"

section \<open>Storage\<close>

record vesting_state =
  KEY :: "VestingAccountStorageKey option"
  ACCOUNTS :: "(Addr \<times> Account) list"
  BALANCES :: "VestingAccountStorageKey \<Rightarrow> nat option"
  WITHDRAWNS :: "VestingAccountStorageKey \<Rightarrow> nat option"
  BOND_PLEDGES :: "VestingAccountStorageKey \<Rightarrow> PledgeData option"
  GATEWAY_PLEDGES :: "VestingAccountStorageKey \<Rightarrow> PledgeData option"
  DELEGATIONS :: "((VestingAccountStorageKey \<times> MixId \<times> nat) \<times> nat) list"
  ADMIN :: "Addr option"
  MIXNET_CONTRACT_ADDRESS :: "Addr option"
  MIX_DENOM :: "string option"

text \<open>\<open>Item::load\<close>: a missing item is an error.\<close>

definition load_item :: "'a option \<Rightarrow> string \<Rightarrow> 'a vresult" where
  "load_item x name = (case x of None \<Rightarrow> Err (Std (StdNotFound name)) | Some v \<Rightarrow> Ok v)"

definition load_admin :: "vesting_state \<Rightarrow> Addr vresult" where
  "load_admin st = load_item (ADMIN st) ''adm''"

definition load_mixnet_address :: "vesting_state \<Rightarrow> Addr vresult" where
  "load_mixnet_address st = load_item (MIXNET_CONTRACT_ADDRESS st) ''mix''"

definition load_denom :: "vesting_state \<Rightarrow> string vresult" where
  "load_denom st = load_item (MIX_DENOM st) ''den''"

definition save_delegation :: "VestingAccountStorageKey \<times> MixId \<times> nat \<Rightarrow> nat \<Rightarrow> vesting_state \<Rightarrow> vesting_state vresult" where
  "save_delegation key a st =
     (let existing = (case map_of (DELEGATIONS st) key of Some d \<Rightarrow> d | None \<Rightarrow> 0) in
      pbind (panicking (uint128_add existing a)) (\<lambda>new.
      Ok (st\<lparr>DELEGATIONS := AList.update key new (DELEGATIONS st)\<rparr>)))"

definition remove_delegation :: "VestingAccountStorageKey \<times> MixId \<times> nat \<Rightarrow> vesting_state \<Rightarrow> vesting_state" where
  "remove_delegation key st = st\<lparr>DELEGATIONS := AList.delete key (DELEGATIONS st)\<rparr>"

definition load_delegation_timestamps :: "VestingAccountStorageKey \<Rightarrow> MixId \<Rightarrow> vesting_state \<Rightarrow> nat list" where
  "load_delegation_timestamps key mix_id st =
     map (\<lambda>((k, m, t), v). t) (filter (\<lambda>((k, m, t), v). k = key \<and> m = mix_id) (kv_range (DELEGATIONS st)))"

definition count_subdelegations_for_mix :: "VestingAccountStorageKey \<Rightarrow> MixId \<Rightarrow> vesting_state \<Rightarrow> nat" where
  "count_subdelegations_for_mix key mix_id st = length (load_delegation_timestamps key mix_id st) mod 2 ^ 32"

definition load_withdrawn :: "VestingAccountStorageKey \<Rightarrow> vesting_state \<Rightarrow> nat" where
  "load_withdrawn key st = (case WITHDRAWNS st key of Some v \<Rightarrow> v | None \<Rightarrow> 0)"

definition load_balance :: "VestingAccountStorageKey \<Rightarrow> vesting_state \<Rightarrow> nat" where
  "load_balance key st = (case BALANCES st key of Some v \<Rightarrow> v | None \<Rightarrow> 0)"

definition save_balance :: "VestingAccountStorageKey \<Rightarrow> nat \<Rightarrow> vesting_state \<Rightarrow> vesting_state" where
  "save_balance key v st = st\<lparr>BALANCES := (BALANCES st)(key \<mapsto> v)\<rparr>"

definition save_withdrawn :: "VestingAccountStorageKey \<Rightarrow> nat \<Rightarrow> vesting_state \<Rightarrow> vesting_state" where
  "save_withdrawn key v st = st\<lparr>WITHDRAWNS := (WITHDRAWNS st)(key \<mapsto> v)\<rparr>"

definition load_bond_pledge :: "VestingAccountStorageKey \<Rightarrow> vesting_state \<Rightarrow> PledgeData option" where
  "load_bond_pledge key st = BOND_PLEDGES st key"

definition remove_bond_pledge :: "VestingAccountStorageKey \<Rightarrow> vesting_state \<Rightarrow> vesting_state" where
  "remove_bond_pledge key st = st\<lparr>BOND_PLEDGES := (BOND_PLEDGES st)(key := None)\<rparr>"

definition save_bond_pledge :: "VestingAccountStorageKey \<Rightarrow> PledgeData \<Rightarrow> vesting_state \<Rightarrow> vesting_state" where
  "save_bond_pledge key v st = st\<lparr>BOND_PLEDGES := (BOND_PLEDGES st)(key \<mapsto> v)\<rparr>"

definition decrease_bond_pledge :: "VestingAccountStorageKey \<Rightarrow> Coin \<Rightarrow> vesting_state \<Rightarrow> vesting_state vresult" where
  "decrease_bond_pledge key a st =
     pbind (load_item (BOND_PLEDGES st key) ''bnd'') (\<lambda>existing.
     if amount (pd_amount existing) \<le> amount a
     then Err (InvalidBondPledgeReduction (pd_amount existing) a)
     else Ok (save_bond_pledge key
       (existing\<lparr>pd_amount := (pd_amount existing)\<lparr>amount := amount (pd_amount existing) - amount a\<rparr>\<rparr>) st))"

definition load_gateway_pledge :: "VestingAccountStorageKey \<Rightarrow> vesting_state \<Rightarrow> PledgeData option" where
  "load_gateway_pledge key st = GATEWAY_PLEDGES st key"

definition save_gateway_pledge :: "VestingAccountStorageKey \<Rightarrow> PledgeData \<Rightarrow> vesting_state \<Rightarrow> vesting_state" where
  "save_gateway_pledge key v st = st\<lparr>GATEWAY_PLEDGES := (GATEWAY_PLEDGES st)(key \<mapsto> v)\<rparr>"

definition remove_gateway_pledge :: "VestingAccountStorageKey \<Rightarrow> vesting_state \<Rightarrow> vesting_state" where
  "remove_gateway_pledge key st = st\<lparr>GATEWAY_PLEDGES := (GATEWAY_PLEDGES st)(key := None)\<rparr>"

definition save_account :: "Account \<Rightarrow> vesting_state \<Rightarrow> vesting_state" where
  "save_account account st = st\<lparr>ACCOUNTS := AList.update (acc_owner_address account) account (ACCOUNTS st)\<rparr>"

definition load_account :: "Addr \<Rightarrow> vesting_state \<Rightarrow> Account option" where
  "load_account address st = map_of (ACCOUNTS st) address"

definition delete_account :: "Addr \<Rightarrow> vesting_state \<Rightarrow> vesting_state" where
  "delete_account address st = st\<lparr>ACCOUNTS := AList.delete address (ACCOUNTS st)\<rparr>"

definition validate_account :: "Addr \<Rightarrow> vesting_state \<Rightarrow> Account vresult" where
  "validate_account address st =
     (case load_account address st of
        None \<Rightarrow> Err (NoAccountForAddress address)
      | Some a \<Rightarrow> Ok a)"

definition validate_addr :: "cosmwasm \<Rightarrow> string \<Rightarrow> Addr vresult" where
  "validate_addr api address = (case addr_validate api address of Inl e \<Rightarrow> Err (Std e) | Inr a \<Rightarrow> Ok a)"

definition account_from_address :: "cosmwasm \<Rightarrow> string \<Rightarrow> vesting_state \<Rightarrow> Account vresult" where
  "account_from_address api address st = pbind (validate_addr api address) (\<lambda>a. validate_account a st)"

section \<open>Balances and stakes of an account\<close>

definition generate_storage_key :: "vesting_state \<Rightarrow> (VestingAccountStorageKey \<times> vesting_state) option" where
  "generate_storage_key st =
     Option.bind (u32_add (case KEY st of Some k \<Rightarrow> k | None \<Rightarrow> 0) 1) (\<lambda>key.
     Some (key, st\<lparr>KEY := Some key\<rparr>))"

definition save_new ::
    "Addr \<Rightarrow> Addr option \<Rightarrow> Coin \<Rightarrow> nat \<Rightarrow> VestingPeriod list \<Rightarrow> PledgeCap option \<Rightarrow> vesting_state
      \<Rightarrow> vesting_state option" where
  "save_new owner_address staking_address coin start_time periods cap st =
     Option.bind (generate_storage_key st) (\<lambda>(storage_key, st).
     let account = \<lparr>acc_owner_address = owner_address, acc_staking_address = staking_address,
           acc_start_time = start_time, acc_periods = periods, acc_coin = coin,
           acc_storage_key = storage_key, acc_pledge_cap = cap\<rparr>;
         st = save_account account st in
     Some (save_balance storage_key (amount coin) st))"

definition delegations_where ::
    "(VestingAccountStorageKey \<times> MixId \<times> nat \<Rightarrow> bool) \<Rightarrow> vesting_state \<Rightarrow> nat option" where
  "delegations_where P st =
     uint128_sum 0 (map snd (filter (\<lambda>e. P (fst e)) (kv_range (DELEGATIONS st))))"

definition any_delegation_for_mix :: "Account \<Rightarrow> MixId \<Rightarrow> vesting_state \<Rightarrow> bool" where
  "any_delegation_for_mix self mix_id st \<longleftrightarrow>
     load_delegation_timestamps (acc_storage_key self) mix_id st \<noteq> []"

definition num_subdelegations_for_mix :: "Account \<Rightarrow> MixId \<Rightarrow> vesting_state \<Rightarrow> nat" where
  "num_subdelegations_for_mix self mix_id st = count_subdelegations_for_mix (acc_storage_key self) mix_id st"

definition remove_delegations_for_mix :: "Account \<Rightarrow> MixId \<Rightarrow> vesting_state \<Rightarrow> vesting_state" where
  "remove_delegations_for_mix self mix_id st =
     foldl (\<lambda>st t. remove_delegation (acc_storage_key self, mix_id, t) st) st
       (load_delegation_timestamps (acc_storage_key self) mix_id st)"

definition total_delegations_for_mix :: "Account \<Rightarrow> MixId \<Rightarrow> vesting_state \<Rightarrow> nat option" where
  "total_delegations_for_mix self mix_id st =
     delegations_where (\<lambda>(k, m, t). k = acc_storage_key self \<and> m = mix_id) st"

definition total_delegations :: "Account \<Rightarrow> vesting_state \<Rightarrow> nat option" where
  "total_delegations self st = delegations_where (\<lambda>(k, m, t). k = acc_storage_key self) st"

definition total_delegations_at_timestamp :: "Account \<Rightarrow> vesting_state \<Rightarrow> nat \<Rightarrow> nat option" where
  "total_delegations_at_timestamp self st start_time =
     delegations_where (\<lambda>(k, m, t). k = acc_storage_key self \<and> t \<le> start_time) st"

definition total_pledged :: "Account \<Rightarrow> vesting_state \<Rightarrow> nat" where
  "total_pledged self st =
     (case (case load_bond_pledge (acc_storage_key self) st of
              Some b \<Rightarrow> Some b
            | None \<Rightarrow> load_gateway_pledge (acc_storage_key self) st) of
        Some bond \<Rightarrow> amount (pd_amount bond)
      | None \<Rightarrow> 0)"

definition total_staked :: "Account \<Rightarrow> vesting_state \<Rightarrow> nat option" where
  "total_staked self st =
     Option.bind (total_delegations self st) (\<lambda>d. uint128_add d (total_pledged self st))"

definition get_original_vesting :: "Account \<Rightarrow> VestingContractError + (Coin \<times> nat \<times> nat)" where
  "get_original_vesting self =
     sbind (period_duration self) (\<lambda>d. Inr (acc_coin self, num_vesting_periods self, d))"

definition absolute_pledge_cap :: "cosmwasm \<Rightarrow> Account \<Rightarrow> nat vresult" where
  "absolute_pledge_cap api self =
     (case pledge_cap self of
        Absolute cap \<Rightarrow> Ok cap
      | PercentCap p \<Rightarrow>
          pbind (Some (get_original_vesting self)) (\<lambda>(c, _).
          panicking (percent_mul_uint128 api p (amount c))))"

definition ensure_valid_additional_stake :: "cosmwasm \<Rightarrow> Account \<Rightarrow> Coin \<Rightarrow> vesting_state \<Rightarrow> nat vresult" where
  "ensure_valid_additional_stake api self additional_stake st =
     (let current_balance = load_balance (acc_storage_key self) st in
      pbind (panicking (total_staked self st)) (\<lambda>current_total_staked.
      pbind (panicking (uint128_add current_total_staked (amount additional_stake))) (\<lambda>total_staked_after.
      pbind (absolute_pledge_cap api self) (\<lambda>locked_pledge_cap.
      if locked_pledge_cap < total_staked_after
      then Err (LockedPledgeCapReached total_staked_after locked_pledge_cap)
      else if current_balance < amount additional_stake
      then Err (InsufficientBalance (acc_owner_address self) current_balance)
      else Ok current_balance))))"

definition withdraw :: "Account \<Rightarrow> Coin \<Rightarrow> vesting_state \<Rightarrow> (nat \<times> vesting_state) option" where
  "withdraw self a st =
     (let new_balance = load_balance (acc_storage_key self) st - amount a;
          st = save_balance (acc_storage_key self) new_balance st;
          withdrawn = load_withdrawn (acc_storage_key self) st in
      Option.bind (uint128_add withdrawn (amount a)) (\<lambda>w.
      Some (new_balance, save_withdrawn (acc_storage_key self) w st)))"

section \<open>Vested and spendable coins\<close>

definition get_vested_coins :: "Account \<Rightarrow> nat option \<Rightarrow> nat \<Rightarrow> vesting_state \<Rightarrow> Coin vresult" where
  "get_vested_coins self block_time env_time st =
     (let block_time = (case block_time of Some t \<Rightarrow> t | None \<Rightarrow> env_time) in
      pbind (get_current_vesting_period self block_time) (\<lambda>period.
      pbind (load_denom st) (\<lambda>d.
      case period of
        Before \<Rightarrow> Ok \<lparr>denom = d, amount = 0\<rparr>
      | In idx \<Rightarrow>
          pbind (tokens_per_period self) (\<lambda>per_period.
          pbind (panicking (uint128_mul per_period idx)) (\<lambda>a. Ok \<lparr>denom = d, amount = a\<rparr>))
      | After \<Rightarrow> Ok \<lparr>denom = d, amount = amount (acc_coin self)\<rparr>)))"

definition get_vesting_coins :: "Account \<Rightarrow> nat option \<Rightarrow> nat \<Rightarrow> vesting_state \<Rightarrow> Coin vresult" where
  "get_vesting_coins self block_time env_time st =
     pbind (Some (get_original_vesting self)) (\<lambda>(c, _).
     pbind (get_vested_coins self block_time env_time st) (\<lambda>vested.
     pbind (panicking (uint128_sub (amount c) (amount vested))) (\<lambda>a.
     pbind (load_denom st) (\<lambda>d. Ok \<lparr>denom = d, amount = a\<rparr>))))"

definition locked_coins :: "Account \<Rightarrow> nat option \<Rightarrow> nat \<Rightarrow> vesting_state \<Rightarrow> Coin vresult" where
  "locked_coins self block_time env_time st =
     pbind (get_vesting_coins self block_time env_time st) (\<lambda>still_vesting.
     pbind (panicking (total_staked self st)) (\<lambda>staked.
     pbind (load_denom st) (\<lambda>d. Ok \<lparr>denom = d, amount = amount still_vesting - staked\<rparr>)))"

definition spendable_coins :: "Account \<Rightarrow> nat option \<Rightarrow> nat \<Rightarrow> vesting_state \<Rightarrow> Coin vresult" where
  "spendable_coins self block_time env_time st =
     pbind (locked_coins self block_time env_time st) (\<lambda>locked.
     pbind (load_denom st) (\<lambda>d.
     Ok \<lparr>denom = d, amount = load_balance (acc_storage_key self) st - amount locked\<rparr>))"

definition spendable_vested_coins :: "Account \<Rightarrow> nat option \<Rightarrow> nat \<Rightarrow> vesting_state \<Rightarrow> Coin vresult" where
  "spendable_vested_coins self block_time env_time st =
     pbind (get_vested_coins self block_time env_time st) (\<lambda>vested.
     let not_withdrawn_vested = amount vested - load_withdrawn (acc_storage_key self) st in
     if not_withdrawn_vested = 0 then Ok \<lparr>denom = denom vested, amount = 0\<rparr>
     else
       pbind (spendable_coins self block_time env_time st) (\<lambda>spendable.
       Ok \<lparr>denom = denom spendable, amount = min (amount spendable) not_withdrawn_vested\<rparr>))"

definition spendable_reward_coins :: "Account \<Rightarrow> nat option \<Rightarrow> nat \<Rightarrow> vesting_state \<Rightarrow> Coin vresult" where
  "spendable_reward_coins self block_time env_time st =
     pbind (spendable_coins self block_time env_time st) (\<lambda>spendable.
     pbind (spendable_vested_coins self block_time env_time st) (\<lambda>spendable_vested.
     if amount spendable < amount spendable_vested then Err OverflowError
     else Ok \<lparr>denom = denom spendable, amount = amount spendable - amount spendable_vested\<rparr>))"

definition get_start_time :: "Account \<Rightarrow> nat" where
  "get_start_time self = acc_start_time self"

definition get_end_time :: "Account \<Rightarrow> nat option" where
  "get_end_time self =
     Option.bind (usize_sub (num_vesting_periods self) 1) (\<lambda>i.
     Option.bind (index (acc_periods self) i) vp_end_time)"

definition get_historical_vested_staking_rewards :: "Account \<Rightarrow> vesting_state \<Rightarrow> Coin vresult" where
  "get_historical_vested_staking_rewards self st =
     (let balance = load_balance (acc_storage_key self) st; withdrawn = load_withdrawn (acc_storage_key self) st in
      pbind (panicking (total_staked self st)) (\<lambda>staked.
      pbind (panicking (uint128_add balance withdrawn)) (\<lambda>t.
      pbind (panicking (uint128_add t staked)) (\<lambda>total.
      if total < amount (acc_coin self) then Err OverflowError
      else Ok \<lparr>denom = denom (acc_coin self), amount = total - amount (acc_coin self)\<rparr>))))"

definition transfer_ownership :: "Account \<Rightarrow> Addr \<Rightarrow> vesting_state \<Rightarrow> vesting_state" where
  "transfer_ownership self to_address st =
     (let st = delete_account (acc_owner_address self) st;
          self = self\<lparr>acc_owner_address := to_address\<rparr> in
      save_account self st)"

definition update_staking_address :: "Account \<Rightarrow> Addr option \<Rightarrow> vesting_state \<Rightarrow> vesting_state" where
  "update_staking_address self to_address st =
     (let st = (case acc_staking_address self of
            Some staking_address \<Rightarrow> delete_account staking_address st
          | None \<Rightarrow> st);
          self = self\<lparr>acc_staking_address := to_address\<rparr> in
      save_account self st)"

text \<open>Crediting an amount to the balance, the first step of every tracking operation.\<close>

definition credit :: "Account \<Rightarrow> nat \<Rightarrow> vesting_state \<Rightarrow> vesting_state option" where
  "credit self a st =
     Option.bind (uint128_add (load_balance (acc_storage_key self) st) a) (\<lambda>new_balance.
     Some (save_balance (acc_storage_key self) new_balance st))"

definition track_reward :: "Account \<Rightarrow> Coin \<Rightarrow> vesting_state \<Rightarrow> vesting_state vresult" where
  "track_reward self a st = panicking (credit self (amount a) st)"

end
