(* ===== verification/Vesting_Contract.thy ===== *)
theory Vesting_Contract
  imports Vesting_Account
begin

text \<open>
  The messages of the vesting contract: staking, bonding and families on behalf of an account
  (\<open>contracts/vesting/src/vesting/account/\<close>), the transactions (\<open>transactions.rs\<close>), their
  dispatch (\<open>contract.rs\<close>) and the queries (\<open>queries.rs\<close>). A call returns the new state and the
  messages to the mixnet contract and the bank; events are not modelled.
\<close>

section \<open>Messages to other contracts\<close>

type_synonym MessageSignature = bytes

datatype FamilyHead = FamilyHead IdentityKey

record MixNode =
  mn_host :: string
  mn_mix_port :: u16
  mn_verloc_port :: u16
  mn_http_api_port :: u16
  mn_sphinx_key :: string
  mn_identity_key :: IdentityKey
  mn_version :: string

record MixNodeCostParams =
  profit_margin_percent :: Percent
  interval_operating_cost :: Coin

record MixNodeConfigUpdate =
  mu_host :: string
  mu_mix_port :: u16
  mu_verloc_port :: u16
  mu_http_api_port :: u16
  mu_version :: string

record Gateway =
  gw_host :: string
  gw_mix_port :: u16
  gw_clients_port :: u16
  gw_location :: string
  gw_sphinx_key :: string
  gw_identity_key :: IdentityKey
  gw_version :: string

record GatewayConfigUpdate =
  gu_host :: string
  gu_mix_port :: u16
  gu_clients_port :: u16
  gu_location :: string
  gu_version :: string

datatype MixnetExecuteMsg =
    CreateFamilyOnBehalf Addr string
  | JoinFamilyOnBehalf Addr MessageSignature FamilyHead
  | LeaveFamilyOnBehalf Addr FamilyHead
  | KickFamilyMemberOnBehalf Addr IdentityKey
  | BondMixnodeOnBehalf MixNode MixNodeCostParams MessageSignature Addr
  | PledgeMoreOnBehalf Addr
  | DecreasePledgeOnBehalf Addr Coin
  | UnbondMixnodeOnBehalf Addr
  | UpdateMixnodeCostParamsOnBehalf MixNodeCostParams Addr
  | UpdateMixnodeConfigOnBehalf MixNodeConfigUpdate Addr
  | BondGatewayOnBehalf Gateway Addr MessageSignature
  | UnbondGatewayOnBehalf Addr
  | UpdateGatewayConfigOnBehalf GatewayConfigUpdate Addr
  | DelegateToMixnodeOnBehalf MixId Addr
  | UndelegateFromMixnodeOnBehalf MixId Addr
  | WithdrawOperatorRewardOnBehalf Addr
  | WithdrawDelegatorRewardOnBehalf MixId Addr

datatype CosmosMsg =
    BankSend Addr "Coin list"
  | WasmExecute Addr MixnetExecuteMsg "Coin list"

type_synonym vcall = "(vesting_state \<times> CosmosMsg list) vresult"

text \<open>\<open>wasm_execute\<close> to the mixnet contract, with the state unchanged or changed.\<close>

definition mixnet_call :: "MixnetExecuteMsg \<Rightarrow> Coin list \<Rightarrow> vesting_state \<Rightarrow> CosmosMsg vresult" where
  "mixnet_call msg coins st = pbind (load_mixnet_address st) (\<lambda>a. Ok (WasmExecute a msg coins))"

definition forward_to_mixnet :: "MixnetExecuteMsg \<Rightarrow> vesting_state \<Rightarrow> vcall" where
  "forward_to_mixnet msg st = pbind (mixnet_call msg [] st) (\<lambda>m. Ok (st, [m]))"

section \<open>Families\<close>

definition account_create_family :: "Account \<Rightarrow> vesting_state \<Rightarrow> string \<Rightarrow> vcall" where
  "account_create_family self st label = forward_to_mixnet (CreateFamilyOnBehalf (acc_owner_address self) label) st"

definition account_join_family :: "Account \<Rightarrow> vesting_state \<Rightarrow> MessageSignature \<Rightarrow> FamilyHead \<Rightarrow> vcall" where
  "account_join_family self st join_permit family_head =
     forward_to_mixnet (JoinFamilyOnBehalf (acc_owner_address self) join_permit family_head) st"

definition account_leave_family :: "Account \<Rightarrow> vesting_state \<Rightarrow> FamilyHead \<Rightarrow> vcall" where
  "account_leave_family self st family_head =
     forward_to_mixnet (LeaveFamilyOnBehalf (acc_owner_address self) family_head) st"

definition account_head_kick_member :: "Account \<Rightarrow> vesting_state \<Rightarrow> IdentityKey \<Rightarrow> vcall" where
  "account_head_kick_member self st member =
     forward_to_mixnet (KickFamilyMemberOnBehalf (acc_owner_address self) member) st"

section \<open>Delegations\<close>

abbreviation MAX_PER_MIX_DELEGATIONS :: nat where "MAX_PER_MIX_DELEGATIONS \<equiv> 25"

definition account_claim_delegator_reward :: "Account \<Rightarrow> MixId \<Rightarrow> vesting_state \<Rightarrow> vcall" where
  "account_claim_delegator_reward self mix_id st =
     forward_to_mixnet (WithdrawDelegatorRewardOnBehalf mix_id (acc_owner_address self)) st"

definition track_delegation :: "Account \<Rightarrow> nat \<Rightarrow> MixId \<Rightarrow> nat \<Rightarrow> Coin \<Rightarrow> vesting_state \<Rightarrow> vesting_state vresult" where
  "track_delegation self block_timestamp_secs mix_id current_balance delegation st =
     pbind (save_delegation (acc_storage_key self, mix_id, block_timestamp_secs) (amount delegation) st) (\<lambda>st.
     pbind (panicking (uint128_sub current_balance (amount delegation))) (\<lambda>new_balance.
     Ok (save_balance (acc_storage_key self) new_balance st)))"

definition account_delegate_to_mixnode ::
    "cosmwasm \<Rightarrow> Account \<Rightarrow> MixId \<Rightarrow> Coin \<Rightarrow> nat \<Rightarrow> vesting_state \<Rightarrow> vcall" where
  "account_delegate_to_mixnode api self mix_id coin env_time st =
     pbind (ensure_valid_additional_stake api self coin st) (\<lambda>current_balance.
     let num_subdelegations = num_subdelegations_for_mix self mix_id st in
     if MAX_PER_MIX_DELEGATIONS \<le> num_subdelegations
     then Err (TooManyDelegations (acc_owner_address self) (acc_storage_key self) mix_id num_subdelegations
                 MAX_PER_MIX_DELEGATIONS)
     else
       pbind (mixnet_call (DelegateToMixnodeOnBehalf mix_id (acc_owner_address self)) [coin] st) (\<lambda>m.
       pbind (track_delegation self (timestamp_seconds env_time) mix_id current_balance coin st) (\<lambda>st.
       Ok (st, [m]))))"

definition account_undelegate_from_mixnode :: "Account \<Rightarrow> MixId \<Rightarrow> vesting_state \<Rightarrow> vcall" where
  "account_undelegate_from_mixnode self mix_id st =
     (if \<not> any_delegation_for_mix self mix_id st then Err (NoSuchDelegation (acc_owner_address self) mix_id)
      else forward_to_mixnet (UndelegateFromMixnodeOnBehalf mix_id (acc_owner_address self)) st)"

definition track_undelegation :: "Account \<Rightarrow> MixId \<Rightarrow> Coin \<Rightarrow> vesting_state \<Rightarrow> vesting_state vresult" where
  "track_undelegation self mix_id a st =
     panicking (credit self (amount a) (remove_delegations_for_mix self mix_id st))"

section \<open>Mixnode bonds\<close>

definition account_claim_operator_reward :: "Account \<Rightarrow> vesting_state \<Rightarrow> vcall" where
  "account_claim_operator_reward self st = forward_to_mixnet (WithdrawOperatorRewardOnBehalf (acc_owner_address self)) st"

definition account_bond_mixnode ::
    "cosmwasm \<Rightarrow> Account \<Rightarrow> MixNode \<Rightarrow> MixNodeCostParams \<Rightarrow> MessageSignature \<Rightarrow> Coin \<Rightarrow> nat \<Rightarrow> vesting_state \<Rightarrow> vcall" where
  "account_bond_mixnode api self mix_node cost_params owner_signature pledge env_time st =
     pbind (ensure_valid_additional_stake api self pledge st) (\<lambda>current_balance.
     if load_bond_pledge (acc_storage_key self) st \<noteq> None then Err (AlreadyBonded (acc_owner_address self))
     else
       let pledge_data = pledge_data_new pledge env_time in
       pbind (panicking (uint128_sub current_balance (amount pledge))) (\<lambda>new_balance.
       pbind (mixnet_call (BondMixnodeOnBehalf mix_node cost_params owner_signature (acc_owner_address self)) [pledge] st) (\<lambda>m.
       let st = save_balance (acc_storage_key self) new_balance st;
           st = save_bond_pledge (acc_storage_key self) pledge_data st in
       Ok (st, [m]))))"

definition account_pledge_additional_tokens :: "cosmwasm \<Rightarrow> Account \<Rightarrow> Coin \<Rightarrow> nat \<Rightarrow> vesting_state \<Rightarrow> vcall" where
  "account_pledge_additional_tokens api self additional_pledge env_time st =
     pbind (ensure_valid_additional_stake api self additional_pledge st) (\<lambda>current_balance.
     case load_bond_pledge (acc_storage_key self) st of
       None \<Rightarrow> Err (NoBondFound (acc_owner_address self))
     | Some pledge_data \<Rightarrow>
       pbind (panicking (uint128_add (amount (pd_amount pledge_data)) (amount additional_pledge))) (\<lambda>new_pledge.
       let pledge_data = pledge_data\<lparr>pd_amount := (pd_amount pledge_data)\<lparr>amount := new_pledge\<rparr>, pd_block_time := env_time\<rparr> in
       pbind (panicking (uint128_sub current_balance (amount additional_pledge))) (\<lambda>new_balance.
       pbind (mixnet_call (PledgeMoreOnBehalf (acc_owner_address self)) [additional_pledge] st) (\<lambda>m.
       let st = save_balance (acc_storage_key self) new_balance st;
           st = save_bond_pledge (acc_storage_key self) pledge_data st in
       Ok (st, [m])))))"

definition account_decrease_mixnode_pledge :: "Account \<Rightarrow> Coin \<Rightarrow> vesting_state \<Rightarrow> vcall" where
  "account_decrease_mixnode_pledge self a st =
     (case load_bond_pledge (acc_storage_key self) st of
        None \<Rightarrow> Err (NoBondFound (acc_owner_address self))
      | Some pledge \<Rightarrow>
          if amount (pd_amount pledge) \<le> amount a then Err (InvalidBondPledgeReduction (pd_amount pledge) a)
          else forward_to_mixnet (DecreasePledgeOnBehalf (acc_owner_address self) a) st)"

definition account_track_decrease_mixnode_pledge :: "Account \<Rightarrow> Coin \<Rightarrow> vesting_state \<Rightarrow> vesting_state vresult" where
  "account_track_decrease_mixnode_pledge self a st =
     pbind (panicking (credit self (amount a) st)) (\<lambda>st. decrease_bond_pledge (acc_storage_key self) a st)"

definition account_unbond_mixnode :: "Account \<Rightarrow> vesting_state \<Rightarrow> vcall" where
  "account_unbond_mixnode self st =
     (if load_bond_pledge (acc_storage_key self) st \<noteq> None
      then forward_to_mixnet (UnbondMixnodeOnBehalf (acc_owner_address self)) st
      else Err (NoBondFound (acc_owner_address self)))"

definition account_track_unbond_mixnode :: "Account \<Rightarrow> Coin \<Rightarrow> vesting_state \<Rightarrow> vesting_state vresult" where
  "account_track_unbond_mixnode self a st =
     pbind (panicking (credit self (amount a) st)) (\<lambda>st. Ok (remove_bond_pledge (acc_storage_key self) st))"

definition account_update_mixnode_config :: "Account \<Rightarrow> MixNodeConfigUpdate \<Rightarrow> vesting_state \<Rightarrow> vcall" where
  "account_update_mixnode_config self new_config st =
     forward_to_mixnet (UpdateMixnodeConfigOnBehalf new_config (acc_owner_address self)) st"

definition account_update_mixnode_cost_params :: "Account \<Rightarrow> MixNodeCostParams \<Rightarrow> vesting_state \<Rightarrow> vcall" where
  "account_update_mixnode_cost_params self new_costs st =
     forward_to_mixnet (UpdateMixnodeCostParamsOnBehalf new_costs (acc_owner_address self)) st"

section \<open>Gateway bonds\<close>

definition account_bond_gateway ::
    "cosmwasm \<Rightarrow> Account \<Rightarrow> Gateway \<Rightarrow> MessageSignature \<Rightarrow> Coin \<Rightarrow> nat \<Rightarrow> vesting_state \<Rightarrow> vcall" where
  "account_bond_gateway api self gateway owner_signature pledge env_time st =
     pbind (ensure_valid_additional_stake api self pledge st) (\<lambda>current_balance.
     if load_gateway_pledge (acc_storage_key self) st \<noteq> None then Err (AlreadyBonded (acc_owner_address self))
     else
       let pledge_data = pledge_data_new pledge env_time in
       pbind (panicking (uint128_sub current_balance (amount pledge))) (\<lambda>new_balance.
       pbind (mixnet_call (BondGatewayOnBehalf gateway (acc_owner_address self) owner_signature) [pledge] st) (\<lambda>m.
       let st = save_balance (acc_storage_key self) new_balance st;
           st = save_gateway_pledge (acc_storage_key self) pledge_data st in
       Ok (st, [m]))))"

definition account_unbond_gateway :: "Account \<Rightarrow> vesting_state \<Rightarrow> vcall" where
  "account_unbond_gateway self st =
     (if load_gateway_pledge (acc_storage_key self) st \<noteq> None
      then forward_to_mixnet (UnbondGatewayOnBehalf (acc_owner_address self)) st
      else Err (NoBondFound (acc_owner_address self)))"

definition account_track_unbond_gateway :: "Account \<Rightarrow> Coin \<Rightarrow> vesting_state \<Rightarrow> vesting_state vresult" where
  "account_track_unbond_gateway self a st =
     pbind (panicking (credit self (amount a) st)) (\<lambda>st. Ok (remove_gateway_pledge (acc_storage_key self) st))"

definition account_update_gateway_config :: "Account \<Rightarrow> GatewayConfigUpdate \<Rightarrow> vesting_state \<Rightarrow> vcall" where
  "account_update_gateway_config self new_config st =
     forward_to_mixnet (UpdateGatewayConfigOnBehalf new_config (acc_owner_address self)) st"

section \<open>Transactions\<close>

definition validate_funds :: "Coin list \<Rightarrow> string \<Rightarrow> VestingContractError + Coin" where
  "validate_funds coins mix_denom =
     (case coins of
        [] \<Rightarrow> Inl EmptyFunds
      | c # rest \<Rightarrow>
          if amount c = 0 then Inl EmptyFunds
          else if 1 < length coins then Inl MultipleDenoms
          else if denom c \<noteq> mix_denom then Inl (WrongDenom (denom c) mix_denom)
          else Inr c)"

definition ensure_staking_permission :: "Addr \<Rightarrow> Account \<Rightarrow> VestingContractError + unit" where
  "ensure_staking_permission addr account =
     (if acc_staking_address account = Some addr then Inr ()
      else Inl (InvalidStakingAccount addr (acc_owner_address account)))"

definition ensure_admin :: "MessageInfo \<Rightarrow> vesting_state \<Rightarrow> unit vresult" where
  "ensure_admin info st =
     pbind (load_admin st) (\<lambda>a. if sender info \<noteq> a then Err (NotAdmin (sender info)) else Ok ())"

definition ensure_mixnet :: "MessageInfo \<Rightarrow> vesting_state \<Rightarrow> unit vresult" where
  "ensure_mixnet info st =
     pbind (load_mixnet_address st) (\<lambda>a. if sender info \<noteq> a then Err (NotMixnetContract (sender info)) else Ok ())"

definition try_create_family :: "cosmwasm \<Rightarrow> MessageInfo \<Rightarrow> string \<Rightarrow> vesting_state \<Rightarrow> vcall" where
  "try_create_family api info label st =
     pbind (account_from_address api (sender info) st) (\<lambda>account. account_create_family account st label)"

definition try_join_family :: "cosmwasm \<Rightarrow> MessageInfo \<Rightarrow> MessageSignature \<Rightarrow> FamilyHead \<Rightarrow> vesting_state \<Rightarrow> vcall" where
  "try_join_family api info join_permit family_head st =
     pbind (account_from_address api (sender info) st) (\<lambda>account.
     account_join_family account st join_permit family_head)"

definition try_leave_family :: "cosmwasm \<Rightarrow> MessageInfo \<Rightarrow> FamilyHead \<Rightarrow> vesting_state \<Rightarrow> vcall" where
  "try_leave_family api info family_head st =
     pbind (account_from_address api (sender info) st) (\<lambda>account. account_leave_family account st family_head)"

definition try_kick_family_member :: "cosmwasm \<Rightarrow> MessageInfo \<Rightarrow> string \<Rightarrow> vesting_state \<Rightarrow> vcall" where
  "try_kick_family_member api info member st =
     pbind (account_from_address api (sender info) st) (\<lambda>account. account_head_kick_member account st member)"

definition try_update_locked_pledge_cap :: "cosmwasm \<Rightarrow> string \<Rightarrow> PledgeCap \<Rightarrow> MessageInfo \<Rightarrow> vesting_state \<Rightarrow> vcall" where
  "try_update_locked_pledge_cap api address cap info st =
     pbind (ensure_admin info st) (\<lambda>_.
     pbind (account_from_address api address st) (\<lambda>account.
     Ok (save_account (account\<lparr>acc_pledge_cap := Some cap\<rparr>) st, [])))"

definition try_update_mixnode_config :: "cosmwasm \<Rightarrow> MixNodeConfigUpdate \<Rightarrow> MessageInfo \<Rightarrow> vesting_state \<Rightarrow> vcall" where
  "try_update_mixnode_config api new_config info st =
     pbind (account_from_address api (sender info) st) (\<lambda>account. account_update_mixnode_config account new_config st)"

definition try_update_gateway_config :: "cosmwasm \<Rightarrow> GatewayConfigUpdate \<Rightarrow> MessageInfo \<Rightarrow> vesting_state \<Rightarrow> vcall" where
  "try_update_gateway_config api new_config info st =
     pbind (account_from_address api (sender info) st) (\<lambda>account. account_update_gateway_config account new_config st)"

definition try_update_mixnode_cost_params :: "cosmwasm \<Rightarrow> MixNodeCostParams \<Rightarrow> MessageInfo \<Rightarrow> vesting_state \<Rightarrow> vcall" where
  "try_update_mixnode_cost_params api new_costs info st =
     pbind (account_from_address api (sender info) st) (\<lambda>account. account_update_mixnode_cost_params account new_costs st)"

definition try_update_mixnet_address :: "cosmwasm \<Rightarrow> string \<Rightarrow> MessageInfo \<Rightarrow> vesting_state \<Rightarrow> vcall" where
  "try_update_mixnet_address api address info st =
     pbind (ensure_admin info st) (\<lambda>_.
     pbind (validate_addr api address) (\<lambda>mixnet_contract_address.
     Ok (st\<lparr>MIXNET_CONTRACT_ADDRESS := Some mixnet_contract_address\<rparr>, [])))"

definition try_withdraw_vested_coins :: "cosmwasm \<Rightarrow> Coin \<Rightarrow> nat \<Rightarrow> MessageInfo \<Rightarrow> vesting_state \<Rightarrow> vcall" where
  "try_withdraw_vested_coins api a env_time info st =
     pbind (load_denom st) (\<lambda>mix_denom.
     if denom a \<noteq> mix_denom then Err (WrongDenom (denom a) mix_denom)
     else
       pbind (account_from_address api (sender info) st) (\<lambda>account.
       if sender info \<noteq> acc_owner_address account then Err (NotOwner (acc_owner_address account))
       else
         pbind (spendable_coins account None env_time st) (\<lambda>spendable.
         if amount a \<le> amount spendable then
           pbind (panicking (withdraw account a st)) (\<lambda>(new_balance, st).
           Ok (st, [BankSend (acc_owner_address account) [a]]))
         else Err (InsufficientSpendable (acc_owner_address account) (amount spendable)))))"

definition try_transfer_ownership :: "cosmwasm \<Rightarrow> string \<Rightarrow> MessageInfo \<Rightarrow> vesting_state \<Rightarrow> vcall" where
  "try_transfer_ownership api to_address info st =
     pbind (validate_addr api to_address) (\<lambda>to_address.
     pbind (account_from_address api (sender info) st) (\<lambda>account.
     if sender info = acc_owner_address account
     then Ok (transfer_ownership account to_address st, [])
     else Err (NotOwner (acc_owner_address account))))"

definition account_exists :: "cosmwasm \<Rightarrow> string \<Rightarrow> vesting_state \<Rightarrow> bool" where
  "account_exists api address st \<longleftrightarrow> (case account_from_address api address st of Some (Inr _) \<Rightarrow> True | _ \<Rightarrow> False)"

definition try_update_staking_address :: "cosmwasm \<Rightarrow> string option \<Rightarrow> MessageInfo \<Rightarrow> vesting_state \<Rightarrow> vcall" where
  "try_update_staking_address api to_address info st =
     (if (case to_address of Some a \<Rightarrow> account_exists api a st | None \<Rightarrow> False)
      then Err (StakingAccountExists (case to_address of Some a \<Rightarrow> a | None \<Rightarrow> []))
      else
        let to_address = Option.bind to_address
              (\<lambda>x. case addr_validate api x of Inr a \<Rightarrow> Some a | Inl _ \<Rightarrow> None) in
        pbind (account_from_address api (sender info) st) (\<lambda>account.
        if sender info = acc_owner_address account
        then Ok (update_staking_address account to_address st, [])
        else Err (NotOwner (acc_owner_address account))))"

definition try_bond_gateway ::
    "cosmwasm \<Rightarrow> Gateway \<Rightarrow> MessageSignature \<Rightarrow> Coin \<Rightarrow> MessageInfo \<Rightarrow> nat \<Rightarrow> vesting_state \<Rightarrow> vcall" where
  "try_bond_gateway api gateway owner_signature a info env_time st =
     pbind (load_denom st) (\<lambda>mix_denom.
     pbind (Some (validate_funds [a] mix_denom)) (\<lambda>pledge.
     pbind (account_from_address api (sender info) st) (\<lambda>account.
     account_bond_gateway api account gateway owner_signature pledge env_time st)))"

definition try_unbond_gateway :: "cosmwasm \<Rightarrow> MessageInfo \<Rightarrow> vesting_state \<Rightarrow> vcall" where
  "try_unbond_gateway api info st =
     pbind (account_from_address api (sender info) st) (\<lambda>account. account_unbond_gateway account st)"

definition try_track_unbond_gateway :: "cosmwasm \<Rightarrow> string \<Rightarrow> Coin \<Rightarrow> MessageInfo \<Rightarrow> vesting_state \<Rightarrow> vcall" where
  "try_track_unbond_gateway api owner a info st =
     pbind (ensure_mixnet info st) (\<lambda>_.
     pbind (account_from_address api owner st) (\<lambda>account.
     pbind (account_track_unbond_gateway account a st) (\<lambda>st. Ok (st, []))))"

definition try_bond_mixnode ::
    "cosmwasm \<Rightarrow> MixNode \<Rightarrow> MixNodeCostParams \<Rightarrow> MessageSignature \<Rightarrow> Coin \<Rightarrow> MessageInfo \<Rightarrow> nat \<Rightarrow> vesting_state \<Rightarrow> vcall" where
  "try_bond_mixnode api mix_node cost_params owner_signature a info env_time st =
     pbind (load_denom st) (\<lambda>mix_denom.
     pbind (Some (validate_funds [a] mix_denom)) (\<lambda>pledge.
     pbind (account_from_address api (sender info) st) (\<lambda>account.
     account_bond_mixnode api account mix_node cost_params owner_signature pledge env_time st)))"

definition try_pledge_more :: "cosmwasm \<Rightarrow> nat \<Rightarrow> MessageInfo \<Rightarrow> Coin \<Rightarrow> vesting_state \<Rightarrow> vcall" where
  "try_pledge_more api env_time info a st =
     pbind (load_denom st) (\<lambda>mix_denom.
     pbind (Some (validate_funds [a] mix_denom)) (\<lambda>additional_pledge.
     pbind (account_from_address api (sender info) st) (\<lambda>account.
     account_pledge_additional_tokens api account additional_pledge env_time st)))"

definition try_decrease_pledge :: "cosmwasm \<Rightarrow> MessageInfo \<Rightarrow> Coin \<Rightarrow> vesting_state \<Rightarrow> vcall" where
  "try_decrease_pledge api info a st =
     pbind (load_denom st) (\<lambda>mix_denom.
     pbind (Some (validate_funds [a] mix_denom)) (\<lambda>decrease.
     pbind (account_from_address api (sender info) st) (\<lambda>account.
     account_decrease_mixnode_pledge account decrease st)))"

definition try_unbond_mixnode :: "cosmwasm \<Rightarrow> MessageInfo \<Rightarrow> vesting_state \<Rightarrow> vcall" where
  "try_unbond_mixnode api info st =
     pbind (account_from_address api (sender info) st) (\<lambda>account. account_unbond_mixnode account st)"

definition try_track_unbond_mixnode :: "cosmwasm \<Rightarrow> string \<Rightarrow> Coin \<Rightarrow> MessageInfo \<Rightarrow> vesting_state \<Rightarrow> vcall" where
  "try_track_unbond_mixnode api owner a info st =
     pbind (ensure_mixnet info st) (\<lambda>_.
     pbind (account_from_address api owner st) (\<lambda>account.
     pbind (account_track_unbond_mixnode account a st) (\<lambda>st. Ok (st, []))))"

definition try_track_decrease_mixnode_pledge :: "cosmwasm \<Rightarrow> string \<Rightarrow> Coin \<Rightarrow> MessageInfo \<Rightarrow> vesting_state \<Rightarrow> vcall" where
  "try_track_decrease_mixnode_pledge api owner a info st =
     pbind (ensure_mixnet info st) (\<lambda>_.
     pbind (account_from_address api owner st) (\<lambda>account.
     pbind (account_track_decrease_mixnode_pledge account a st) (\<lambda>st. Ok (st, []))))"

definition try_track_reward :: "cosmwasm \<Rightarrow> MessageInfo \<Rightarrow> Coin \<Rightarrow> string \<Rightarrow> vesting_state \<Rightarrow> vcall" where
  "try_track_reward api info a address st =
     pbind (ensure_mixnet info st) (\<lambda>_.
     pbind (account_from_address api address st) (\<lambda>account.
     pbind (track_reward account a st) (\<lambda>st. Ok (st, []))))"

definition try_track_undelegation :: "cosmwasm \<Rightarrow> string \<Rightarrow> MixId \<Rightarrow> Coin \<Rightarrow> MessageInfo \<Rightarrow> vesting_state \<Rightarrow> vcall" where
  "try_track_undelegation api address mix_id a info st =
     pbind (ensure_mixnet info st) (\<lambda>_.
     pbind (account_from_address api address st) (\<lambda>account.
     pbind (track_undelegation account mix_id a st) (\<lambda>st. Ok (st, []))))"

text \<open>The account a staking message acts on: the sender's, or one that permits it.\<close>

definition staking_account :: "cosmwasm \<Rightarrow> string option \<Rightarrow> MessageInfo \<Rightarrow> vesting_state \<Rightarrow> Account vresult" where
  "staking_account api on_behalf_of info st =
     (case on_behalf_of of
        Some account_owner \<Rightarrow>
          pbind (account_from_address api account_owner st) (\<lambda>account.
          pbind (Some (ensure_staking_permission (sender info) account)) (\<lambda>_. Ok account))
      | None \<Rightarrow> account_from_address api (sender info) st)"

definition try_delegate_to_mixnode ::
    "cosmwasm \<Rightarrow> MixId \<Rightarrow> Coin \<Rightarrow> string option \<Rightarrow> MessageInfo \<Rightarrow> nat \<Rightarrow> vesting_state \<Rightarrow> vcall" where
  "try_delegate_to_mixnode api mix_id a on_behalf_of info env_time st =
     pbind (load_denom st) (\<lambda>mix_denom.
     pbind (Some (validate_funds [a] mix_denom)) (\<lambda>a.
     pbind (staking_account api on_behalf_of info st) (\<lambda>account.
     account_delegate_to_mixnode api account mix_id a env_time st)))"

definition try_claim_operator_reward :: "cosmwasm \<Rightarrow> MessageInfo \<Rightarrow> vesting_state \<Rightarrow> vcall" where
  "try_claim_operator_reward api info st =
     pbind (account_from_address api (sender info) st) (\<lambda>account. account_claim_operator_reward account st)"

definition try_claim_delegator_reward :: "cosmwasm \<Rightarrow> MessageInfo \<Rightarrow> MixId \<Rightarrow> vesting_state \<Rightarrow> vcall" where
  "try_claim_delegator_reward api info mix_id st =
     pbind (account_from_address api (sender info) st) (\<lambda>account. account_claim_delegator_reward account mix_id st)"

definition try_undelegate_from_mixnode :: "cosmwasm \<Rightarrow> MixId \<Rightarrow> string option \<Rightarrow> MessageInfo \<Rightarrow> vesting_state \<Rightarrow> vcall" where
  "try_undelegate_from_mixnode api mix_id on_behalf_of info st =
     pbind (staking_account api on_behalf_of info st) (\<lambda>account. account_undelegate_from_mixnode account mix_id st)"

definition try_create_periodic_vesting_account ::
    "cosmwasm \<Rightarrow> string \<Rightarrow> string option \<Rightarrow> VestingSpecification option \<Rightarrow> PledgeCap option \<Rightarrow> MessageInfo \<Rightarrow> nat
      \<Rightarrow> vesting_state \<Rightarrow> vcall" where
  "try_create_periodic_vesting_account api owner_address staking_address vesting_spec cap info env_time st =
     pbind (ensure_admin info st) (\<lambda>_.
     pbind (load_denom st) (\<lambda>mix_denom.
     if account_exists api owner_address st then Err (AccountAlreadyExists owner_address)
     else
       let vesting_spec = (case vesting_spec of Some s \<Rightarrow> s | None \<Rightarrow> vesting_spec_default) in
       pbind (Some (validate_funds (funds info) mix_denom)) (\<lambda>coin.
       pbind (validate_addr api owner_address) (\<lambda>owner_address.
       pbind (case staking_address of
                None \<Rightarrow> Ok None
              | Some a \<Rightarrow>
                  if account_exists api a st then Err (StakingAccountAlreadyExists a)
                  else pbind (validate_addr api a) (\<lambda>a. Ok (Some a))) (\<lambda>staking_address.
       let start_time = (case spec_start_time vesting_spec of Some t \<Rightarrow> t | None \<Rightarrow> timestamp_seconds env_time) in
       pbind (panicking (populate_vesting_periods vesting_spec start_time)) (\<lambda>periods.
       pbind (panicking (timestamp_from_seconds start_time)) (\<lambda>start_time.
       pbind (panicking (save_new owner_address staking_address coin start_time periods cap st)) (\<lambda>st.
       Ok (st, [])))))))))"

section \<open>Entry points\<close>

record InitMsg =
  im_mixnet_contract_address :: string
  im_mix_denom :: string

definition instantiate :: "cosmwasm \<Rightarrow> MessageInfo \<Rightarrow> InitMsg \<Rightarrow> vesting_state \<Rightarrow> vcall" where
  "instantiate api info msg st =
     pbind (validate_addr api (im_mixnet_contract_address msg)) (\<lambda>mixnet_contract_address.
     Ok (st\<lparr>ADMIN := Some (sender info), MIXNET_CONTRACT_ADDRESS := Some mixnet_contract_address,
            MIX_DENOM := Some (im_mix_denom msg)\<rparr>, []))"

datatype ExecuteMsg =
    CreateFamily string
  | JoinFamily MessageSignature FamilyHead
  | LeaveFamily FamilyHead
  | KickFamilyMember IdentityKey
  | TrackReward Coin string
  | ClaimOperatorReward
  | ClaimDelegatorReward MixId
  | UpdateMixnodeCostParams MixNodeCostParams
  | UpdateMixnodeConfig MixNodeConfigUpdate
  | UpdateMixnetAddress string
  | DelegateToMixnode MixId Coin "string option"
  | UndelegateFromMixnode MixId "string option"
  | CreateAccount string "string option" "VestingSpecification option" "PledgeCap option"
  | WithdrawVestedCoins Coin
  | TrackUndelegation string MixId Coin
  | BondMixnode MixNode MixNodeCostParams MessageSignature Coin
  | PledgeMore Coin
  | DecreasePledge Coin
  | UnbondMixnode
  | TrackUnbondMixnode string Coin
  | TrackDecreasePledge string Coin
  | BondGateway Gateway MessageSignature Coin
  | UnbondGateway
  | TrackUnbondGateway string Coin
  | UpdateGatewayConfig GatewayConfigUpdate
  | TransferOwnership string
  | UpdateStakingAddress "string option"
  | UpdateLockedPledgeCap string PledgeCap

fun execute :: "cosmwasm \<Rightarrow> nat \<Rightarrow> MessageInfo \<Rightarrow> ExecuteMsg \<Rightarrow> vesting_state \<Rightarrow> vcall" where
  "execute api env_time info (CreateFamily label) st = try_create_family api info label st"
| "execute api env_time info (JoinFamily join_permit family_head) st = try_join_family api info join_permit family_head st"
| "execute api env_time info (LeaveFamily family_head) st = try_leave_family api info family_head st"
| "execute api env_time info (KickFamilyMember member) st = try_kick_family_member api info member st"
| "execute api env_time info (UpdateLockedPledgeCap address cap) st = try_update_locked_pledge_cap api address cap info st"
| "execute api env_time info (TrackReward a address) st = try_track_reward api info a address st"
| "execute api env_time info ClaimOperatorReward st = try_claim_operator_reward api info st"
| "execute api env_time info (ClaimDelegatorReward mix_id) st = try_claim_delegator_reward api info mix_id st"
| "execute api env_time info (UpdateMixnodeConfig new_config) st = try_update_mixnode_config api new_config info st"
| "execute api env_time info (UpdateMixnodeCostParams new_costs) st = try_update_mixnode_cost_params api new_costs info st"
| "execute api env_time info (UpdateMixnetAddress address) st = try_update_mixnet_address api address info st"
| "execute api env_time info (DelegateToMixnode mix_id a on_behalf_of) st =
     try_delegate_to_mixnode api mix_id a on_behalf_of info env_time st"
| "execute api env_time info (UndelegateFromMixnode mix_id on_behalf_of) st =
     try_undelegate_from_mixnode api mix_id on_behalf_of info st"
| "execute api env_time info (CreateAccount owner_address staking_address vesting_spec cap) st =
     try_create_periodic_vesting_account api owner_address staking_address vesting_spec cap info env_time st"
| "execute api env_time info (WithdrawVestedCoins a) st = try_withdraw_vested_coins api a env_time info st"
| "execute api env_time info (TrackUndelegation owner mix_id a) st = try_track_undelegation api owner mix_id a info st"
| "execute api env_time info (BondMixnode mix_node cost_params owner_signature a) st =
     try_bond_mixnode api mix_node cost_params owner_signature a info env_time st"
| "execute api env_time info (PledgeMore a) st = try_pledge_more api env_time info a st"
| "execute api env_time info (DecreasePledge a) st = try_decrease_pledge api info a st"
| "execute api env_time info UnbondMixnode st = try_unbond_mixnode api info st"
| "execute api env_time info (TrackUnbondMixnode owner a) st = try_track_unbond_mixnode api owner a info st"
| "execute api env_time info (TrackDecreasePledge owner a) st = try_track_decrease_mixnode_pledge api owner a info st"
| "execute api env_time info (BondGateway gateway owner_signature a) st =
     try_bond_gateway api gateway owner_signature a info env_time st"
| "execute api env_time info UnbondGateway st = try_unbond_gateway api info st"
| "execute api env_time info (TrackUnbondGateway owner a) st = try_track_unbond_gateway api owner a info st"
| "execute api env_time info (UpdateGatewayConfig new_config) st = try_update_gateway_config api new_config info st"
| "execute api env_time info (TransferOwnership to_address) st = try_transfer_ownership api to_address info st"
| "execute api env_time info (UpdateStakingAddress to_address) st = try_update_staking_address api to_address info st"

end
