(* ===== verification/Vesting_Ledger.thy ===== *)
theory Vesting_Ledger
  imports Vesting_Contract
begin

text \<open>
  An abstract book of the vesting contract and the proof that the contract implements it. The book
  has, for every account number, the amount free in the contract, the amount staked in the mixnet
  and the amount paid out. Its five actions are the only ways money moves; every successful call
  of \<open>execute\<close> is one of them, and the coins it sends are those the action takes out of the
  contract.
\<close>

section \<open>The book\<close>

record book =
  free :: "nat \<Rightarrow> nat"
  staked :: "nat \<Rightarrow> nat"
  paid :: "nat \<Rightarrow> nat"

datatype action =
    Idle
  | Open nat nat
  | Stake nat nat
  | Pay nat nat
  | Settle nat nat nat

text \<open>
  \<open>Open k n\<close> starts account \<open>k\<close> with \<open>n\<close>, \<open>Stake\<close> and \<open>Pay\<close> move a free amount, \<open>Settle k s n\<close> ends
  a stake of \<open>s\<close> for which the mixnet gave back \<open>n\<close>.
\<close>

fun book_step :: "action \<Rightarrow> book \<Rightarrow> book option" where
  "book_step Idle b = Some b"
| "book_step (Open k n) b =
     (if free b k = 0 \<and> staked b k = 0 \<and> paid b k = 0 then Some (b\<lparr>free := (free b)(k := n)\<rparr>) else None)"
| "book_step (Stake k n) b =
     (if n \<le> free b k then Some (b\<lparr>free := (free b)(k := free b k - n), staked := (staked b)(k := staked b k + n)\<rparr>) else None)"
| "book_step (Pay k n) b =
     (if n \<le> free b k then Some (b\<lparr>free := (free b)(k := free b k - n), paid := (paid b)(k := paid b k + n)\<rparr>) else None)"
| "book_step (Settle k s n) b =
     (if s \<le> staked b k then Some (b\<lparr>free := (free b)(k := free b k + n), staked := (staked b)(k := staked b k - s)\<rparr>) else None)"

text \<open>What an action takes out of the contract and what it brings in.\<close>

fun outgoing :: "action \<Rightarrow> nat" where
  "outgoing (Stake k n) = n"
| "outgoing (Pay k n) = n"
| "outgoing _ = 0"

fun incoming :: "action \<Rightarrow> nat" where
  "incoming (Open k n) = n"
| "incoming (Settle k s n) = n"
| "incoming _ = 0"

section \<open>The book of a state\<close>

definition delegated_where :: "(nat \<times> nat \<times> nat \<Rightarrow> bool) \<Rightarrow> vesting_state \<Rightarrow> nat" where
  "delegated_where P st = sum_list (map snd (filter (\<lambda>e. P (fst e)) (DELEGATIONS st)))"

abbreviation of_account :: "nat \<Rightarrow> nat \<times> nat \<times> nat \<Rightarrow> bool" where
  "of_account k \<equiv> \<lambda>(j, m, t). j = k"

abbreviation of_mix :: "nat \<Rightarrow> nat \<Rightarrow> nat \<times> nat \<times> nat \<Rightarrow> bool" where
  "of_mix k mix_id \<equiv> \<lambda>(j, m, t). j = k \<and> m = mix_id"

fun pledge_amount :: "PledgeData option \<Rightarrow> nat" where
  "pledge_amount None = 0"
| "pledge_amount (Some p) = amount (pd_amount p)"

definition book_of :: "vesting_state \<Rightarrow> book" where
  "book_of st =
     \<lparr>free = (\<lambda>k. load_balance k st),
      staked = (\<lambda>k. delegated_where (of_account k) st + pledge_amount (BOND_PLEDGES st k) + pledge_amount (GATEWAY_PLEDGES st k)),
      paid = (\<lambda>k. load_withdrawn k st)\<rparr>"

text \<open>Which actions a message may cause.\<close>

fun action_for :: "ExecuteMsg \<Rightarrow> action \<Rightarrow> bool" where
  "action_for (CreateAccount _ _ _ _) act \<longleftrightarrow> (\<exists>k n. act = Open k n)"
| "action_for (DelegateToMixnode _ a _) act \<longleftrightarrow> (\<exists>k. act = Stake k (amount a))"
| "action_for (BondMixnode _ _ _ a) act \<longleftrightarrow> (\<exists>k. act = Stake k (amount a))"
| "action_for (PledgeMore a) act \<longleftrightarrow> (\<exists>k. act = Stake k (amount a))"
| "action_for (BondGateway _ _ a) act \<longleftrightarrow> (\<exists>k. act = Stake k (amount a))"
| "action_for (WithdrawVestedCoins a) act \<longleftrightarrow> (\<exists>k. act = Pay k (amount a))"
| "action_for (TrackReward a _) act \<longleftrightarrow> (\<exists>k. act = Settle k 0 (amount a))"
| "action_for (TrackDecreasePledge _ a) act \<longleftrightarrow> (\<exists>k. act = Settle k (amount a) (amount a))"
| "action_for (TrackUndelegation _ _ a) act \<longleftrightarrow> (\<exists>k s. act = Settle k s (amount a))"
| "action_for (TrackUnbondMixnode _ a) act \<longleftrightarrow> (\<exists>k s. act = Settle k s (amount a))"
| "action_for (TrackUnbondGateway _ a) act \<longleftrightarrow> (\<exists>k s. act = Settle k s (amount a))"
| "action_for _ act \<longleftrightarrow> act = Idle"

fun msg_coins :: "CosmosMsg \<Rightarrow> Coin list" where
  "msg_coins (BankSend _ cs) = cs"
| "msg_coins (WasmExecute _ _ cs) = cs"

definition coins_in :: "string \<Rightarrow> Coin list \<Rightarrow> nat" where
  "coins_in d cs = sum_list (map amount (filter (\<lambda>c. denom c = d) cs))"

definition coins_out :: "string \<Rightarrow> CosmosMsg list \<Rightarrow> nat" where
  "coins_out d ms = coins_in d (concat (map msg_coins ms))"

section \<open>Invariant of the storage\<close>

definition last_key :: "vesting_state \<Rightarrow> nat" where
  "last_key st = (case KEY st of Some k \<Rightarrow> k | None \<Rightarrow> 0)"

definition unused :: "nat \<Rightarrow> vesting_state \<Rightarrow> bool" where
  "unused k st \<longleftrightarrow> BALANCES st k = None \<and> WITHDRAWNS st k = None \<and> BOND_PLEDGES st k = None \<and> GATEWAY_PLEDGES st k = None
     \<and> (\<forall>e \<in> set (DELEGATIONS st). fst (fst e) \<noteq> k)"

definition accounts_ok :: "vesting_state \<Rightarrow> bool" where
  "accounts_ok st \<longleftrightarrow> distinct (map fst (ACCOUNTS st))
     \<and> (\<forall>(a, acc) \<in> set (ACCOUNTS st). acc_owner_address acc = a \<and> acc_storage_key acc \<le> last_key st)
     \<and> inj_on (\<lambda>e. acc_storage_key (snd e)) (set (ACCOUNTS st))"

definition vesting_inv :: "vesting_state \<Rightarrow> bool" where
  "vesting_inv st \<longleftrightarrow> accounts_ok st \<and> distinct (map fst (DELEGATIONS st)) \<and> (\<forall>k. last_key st < k \<longrightarrow> unused k st)"

text \<open>A change that concerns the money of one account number only.\<close>

definition moves :: "nat \<Rightarrow> vesting_state \<Rightarrow> vesting_state \<Rightarrow> bool" where
  "moves k st st' \<longleftrightarrow> KEY st' = KEY st \<and> ACCOUNTS st' = ACCOUNTS st \<and> ADMIN st' = ADMIN st
     \<and> MIXNET_CONTRACT_ADDRESS st' = MIXNET_CONTRACT_ADDRESS st \<and> MIX_DENOM st' = MIX_DENOM st
     \<and> distinct (map fst (DELEGATIONS st')) \<and> (\<forall>j. j \<noteq> k \<longrightarrow> unused j st \<longrightarrow> unused j st')"

section \<open>Storage operations and the book\<close>

lemma load_balance_save [simp]:
  "load_balance j (save_balance k v st) = (if j = k then v else load_balance j st)"
  by (simp add: load_balance_def save_balance_def)

lemma load_balance_other [simp]:
  "load_balance j (save_withdrawn k v st) = load_balance j st"
  "load_balance j (save_bond_pledge k p st) = load_balance j st"
  "load_balance j (remove_bond_pledge k st) = load_balance j st"
  "load_balance j (save_gateway_pledge k p st) = load_balance j st"
  "load_balance j (remove_gateway_pledge k st) = load_balance j st"
  "load_balance j (save_account acc st) = load_balance j st"
  "load_balance j (delete_account a st) = load_balance j st"
  "load_balance j (st\<lparr>DELEGATIONS := ds\<rparr>) = load_balance j st"
  "load_balance j (st\<lparr>KEY := key\<rparr>) = load_balance j st"
  by (simp_all add: load_balance_def save_withdrawn_def save_bond_pledge_def remove_bond_pledge_def
        save_gateway_pledge_def remove_gateway_pledge_def save_account_def delete_account_def)

lemma load_withdrawn_simps [simp]:
  "load_withdrawn j (save_withdrawn k v st) = (if j = k then v else load_withdrawn j st)"
  "load_withdrawn j (save_balance k v st) = load_withdrawn j st"
  "load_withdrawn j (save_bond_pledge k p st) = load_withdrawn j st"
  "load_withdrawn j (remove_bond_pledge k st) = load_withdrawn j st"
  "load_withdrawn j (save_gateway_pledge k p st) = load_withdrawn j st"
  "load_withdrawn j (remove_gateway_pledge k st) = load_withdrawn j st"
  "load_withdrawn j (save_account acc st) = load_withdrawn j st"
  "load_withdrawn j (delete_account a st) = load_withdrawn j st"
  "load_withdrawn j (st\<lparr>DELEGATIONS := ds\<rparr>) = load_withdrawn j st"
  "load_withdrawn j (st\<lparr>KEY := key\<rparr>) = load_withdrawn j st"
  by (simp_all add: load_withdrawn_def save_withdrawn_def save_balance_def save_bond_pledge_def remove_bond_pledge_def
        save_gateway_pledge_def remove_gateway_pledge_def save_account_def delete_account_def)

lemma pledges_simps [simp]:
  "BOND_PLEDGES (save_balance k v st) = BOND_PLEDGES st"
  "BOND_PLEDGES (save_withdrawn k v st) = BOND_PLEDGES st"
  "BOND_PLEDGES (save_bond_pledge k p st) = (BOND_PLEDGES st)(k \<mapsto> p)"
  "BOND_PLEDGES (remove_bond_pledge k st) = (BOND_PLEDGES st)(k := None)"
  "BOND_PLEDGES (save_gateway_pledge k p st) = BOND_PLEDGES st"
  "BOND_PLEDGES (remove_gateway_pledge k st) = BOND_PLEDGES st"
  "BOND_PLEDGES (save_account acc st) = BOND_PLEDGES st"
  "BOND_PLEDGES (delete_account a st) = BOND_PLEDGES st"
  "GATEWAY_PLEDGES (save_balance k v st) = GATEWAY_PLEDGES st"
  "GATEWAY_PLEDGES (save_withdrawn k v st) = GATEWAY_PLEDGES st"
  "GATEWAY_PLEDGES (save_bond_pledge k p st) = GATEWAY_PLEDGES st"
  "GATEWAY_PLEDGES (remove_bond_pledge k st) = GATEWAY_PLEDGES st"
  "GATEWAY_PLEDGES (save_gateway_pledge k p st) = (GATEWAY_PLEDGES st)(k \<mapsto> p)"
  "GATEWAY_PLEDGES (remove_gateway_pledge k st) = (GATEWAY_PLEDGES st)(k := None)"
  "GATEWAY_PLEDGES (save_account acc st) = GATEWAY_PLEDGES st"
  "GATEWAY_PLEDGES (delete_account a st) = GATEWAY_PLEDGES st"
  by (simp_all add: save_withdrawn_def save_balance_def save_bond_pledge_def remove_bond_pledge_def
        save_gateway_pledge_def remove_gateway_pledge_def save_account_def delete_account_def)

lemma delegations_simps [simp]:
  "DELEGATIONS (save_balance k v st) = DELEGATIONS st"
  "DELEGATIONS (save_withdrawn k v st) = DELEGATIONS st"
  "DELEGATIONS (save_bond_pledge k p st) = DELEGATIONS st"
  "DELEGATIONS (remove_bond_pledge k st) = DELEGATIONS st"
  "DELEGATIONS (save_gateway_pledge k p st) = DELEGATIONS st"
  "DELEGATIONS (remove_gateway_pledge k st) = DELEGATIONS st"
  "DELEGATIONS (save_account acc st) = DELEGATIONS st"
  "DELEGATIONS (delete_account a st) = DELEGATIONS st"
  by (simp_all add: save_withdrawn_def save_balance_def save_bond_pledge_def remove_bond_pledge_def
        save_gateway_pledge_def remove_gateway_pledge_def save_account_def delete_account_def)

lemma delegated_where_simps [simp]:
  "delegated_where P (save_balance k v st) = delegated_where P st"
  "delegated_where P (save_withdrawn k v st) = delegated_where P st"
  "delegated_where P (save_bond_pledge k p st) = delegated_where P st"
  "delegated_where P (remove_bond_pledge k st) = delegated_where P st"
  "delegated_where P (save_gateway_pledge k p st) = delegated_where P st"
  "delegated_where P (remove_gateway_pledge k st) = delegated_where P st"
  "delegated_where P (save_account acc st) = delegated_where P st"
  "delegated_where P (delete_account a st) = delegated_where P st"
  "delegated_where P (st\<lparr>KEY := key\<rparr>) = delegated_where P st"
  by (simp_all add: delegated_where_def)

lemma delegated_where_total:
  "distinct (map fst (DELEGATIONS st)) \<Longrightarrow> delegated_where P st = amounts.total P (DELEGATIONS st)"
  unfolding delegated_where_def by (rule amounts.sum_list_total)

lemma delegations_where_eq:
  "delegations_where P st = (if delegated_where P st \<le> u128_max then Some (delegated_where P st) else None)"
  unfolding delegations_where_def by (simp add: uint128_sum_eq sum_list_kv_range delegated_where_def)

lemma save_delegation_Ok:
  "save_delegation key a st = Ok st' \<longleftrightarrow>
     (let v = (case map_of (DELEGATIONS st) key of None \<Rightarrow> 0 | Some d \<Rightarrow> d) + a in
      v \<le> u128_max \<and> st' = st\<lparr>DELEGATIONS := AList.update key v (DELEGATIONS st)\<rparr>)"
  by (auto simp: save_delegation_def pbind_eq_Inr panicking_eq_Inr Let_def)

lemma delegated_save:
  assumes "distinct (map fst (DELEGATIONS st))"
  shows "delegated_where P (st\<lparr>DELEGATIONS :=
      AList.update key ((case map_of (DELEGATIONS st) key of None \<Rightarrow> 0 | Some d \<Rightarrow> d) + a) (DELEGATIONS st)\<rparr>)
    = delegated_where P st + (if P key then a else 0)"
proof (cases "P key")
  case True
  with amounts.total_save [OF assms, of P key "(case map_of (DELEGATIONS st) key of None \<Rightarrow> 0 | Some d \<Rightarrow> d) + a"] assms
  show ?thesis by (simp add: delegated_where_total distinct_update)
next
  case False
  with assms show ?thesis by (simp add: delegated_where_total distinct_update amounts.total_save_other)
qed

lemma foldl_remove_delegation:
  "foldl (\<lambda>st t. remove_delegation (k, m, t) st) st ts
    = st\<lparr>DELEGATIONS := filter (\<lambda>e. fst e \<notin> (\<lambda>t. (k, m, t)) ` set ts) (DELEGATIONS st)\<rparr>"
proof (induction ts arbitrary: st)
  case (Cons t ts)
  have "filter (\<lambda>e. fst e \<notin> (\<lambda>t. (k, m, t)) ` set ts) (AList.delete (k, m, t) (DELEGATIONS st))
      = filter (\<lambda>e. fst e \<notin> (\<lambda>t. (k, m, t)) ` set (t # ts)) (DELEGATIONS st)"
    unfolding AList.delete_eq filter_filter by (rule filter_cong) (auto simp: case_prod_beta)
  with Cons show ?case by (simp add: remove_delegation_def)
qed simp

lemma set_kv_range [simp]: "set (kv_range xs) = set xs"
  by (simp add: kv_range_def)

lemma remove_delegations_for_mix_eq:
  "remove_delegations_for_mix self mix_id st
    = st\<lparr>DELEGATIONS := filter (\<lambda>e. \<not> of_mix (acc_storage_key self) mix_id (fst e)) (DELEGATIONS st)\<rparr>"
proof -
  let ?k = "acc_storage_key self" and ?D = "DELEGATIONS st"
  have "filter (\<lambda>e. fst e \<notin> (\<lambda>t. (?k, mix_id, t)) ` set (load_delegation_timestamps ?k mix_id st)) ?D
      = filter (\<lambda>e. \<not> of_mix ?k mix_id (fst e)) ?D"
    by (rule filter_cong) (force simp: load_delegation_timestamps_def image_iff)+
  then show ?thesis by (simp add: remove_delegations_for_mix_def foldl_remove_delegation)
qed

lemma delegations_split:
  fixes ds :: "((nat \<times> nat \<times> nat) \<times> nat) list"
  shows "sum_list (map snd (filter (\<lambda>e. of_account j (fst e)) ds))
    = sum_list (map snd (filter (\<lambda>e. of_account j (fst e)) (filter (\<lambda>e. \<not> of_mix j mix_id (fst e)) ds)))
      + sum_list (map snd (filter (\<lambda>e. of_mix j mix_id (fst e)) ds))"
  by (induction ds) (auto split: if_splits)

lemma delegated_remove:
  "delegated_where (of_account j) (remove_delegations_for_mix self mix_id st)
    = delegated_where (of_account j) st - (if j = acc_storage_key self then delegated_where (of_mix j mix_id) st else 0)"
  "delegated_where (of_mix j mix_id) st \<le> delegated_where (of_account j) st"
proof -
  let ?D = "DELEGATIONS st" and ?k = "acc_storage_key self"
  note split = delegations_split [of _ ?D mix_id]
  show "delegated_where (of_mix j mix_id) st \<le> delegated_where (of_account j) st"
    using split [of j] by (simp add: delegated_where_def)
  show "delegated_where (of_account j) (remove_delegations_for_mix self mix_id st)
    = delegated_where (of_account j) st - (if j = ?k then delegated_where (of_mix j mix_id) st else 0)"
  proof (cases "j = ?k")
    case True
    then show ?thesis using split [of j] by (simp add: delegated_where_def remove_delegations_for_mix_eq)
  next
    case False
    then have "filter (\<lambda>e. of_account j (fst e)) (filter (\<lambda>e. \<not> of_mix ?k mix_id (fst e)) ?D) = filter (\<lambda>e. of_account j (fst e)) ?D"
      unfolding filter_filter by (intro filter_cong) auto
    with False show ?thesis by (simp add: delegated_where_def remove_delegations_for_mix_eq del: filter_filter)
  qed
qed

section \<open>Effects of the account operations\<close>

lemmas storage_defs = save_balance_def save_withdrawn_def save_bond_pledge_def remove_bond_pledge_def
  save_gateway_pledge_def remove_gateway_pledge_def

lemma moves_refl [simp]: "distinct (map fst (DELEGATIONS st)) \<Longrightarrow> moves k st st"
  by (simp add: moves_def)

lemma moves_step [simp]:
  assumes "moves k st st'"
  shows "moves k st (save_balance k v st')"
    and "moves k st (save_withdrawn k v st')"
    and "moves k st (save_bond_pledge k p st')"
    and "moves k st (remove_bond_pledge k st')"
    and "moves k st (save_gateway_pledge k p st')"
    and "moves k st (remove_gateway_pledge k st')"
  using assms by (auto simp: moves_def unused_def storage_defs)

lemma moves_save_delegation:
  "distinct (map fst (DELEGATIONS st)) \<Longrightarrow> save_delegation (k, m, t) a st = Ok st' \<Longrightarrow> moves k st st'"
  by (auto simp: save_delegation_Ok Let_def moves_def unused_def distinct_update kv.set_entries_save)

lemma moves_remove_delegations:
  "distinct (map fst (DELEGATIONS st)) \<Longrightarrow> moves (acc_storage_key self) st (remove_delegations_for_mix self mix_id st)"
  by (auto simp: remove_delegations_for_mix_eq moves_def unused_def distinct_map_filter)

lemma moves_distinct: "moves k st st' \<Longrightarrow> distinct (map fst (DELEGATIONS st'))"
  by (simp add: moves_def)

lemma book_eqI: "\<lbrakk>\<And>j. free b j = free b' j; \<And>j. staked b j = staked b' j; \<And>j. paid b j = paid b' j\<rbrakk> \<Longrightarrow> b = (b' :: book)"
  by (cases b; cases b') auto

lemma book_of_simps [simp]:
  "free (book_of st) = (\<lambda>k. load_balance k st)"
  "paid (book_of st) = (\<lambda>k. load_withdrawn k st)"
  "staked (book_of st) k = delegated_where (of_account k) st + pledge_amount (BOND_PLEDGES st k) + pledge_amount (GATEWAY_PLEDGES st k)"
  by (simp_all add: book_of_def)

text \<open>The change of the book and of the storage by one operation on an account.\<close>

definition books :: "nat \<Rightarrow> action \<Rightarrow> vesting_state \<Rightarrow> vesting_state \<Rightarrow> bool" where
  "books k act st st' \<longleftrightarrow> moves k st st' \<and> book_step act (book_of st) = Some (book_of st')"

lemma booksI_stake:
  assumes "moves k st st'" "n \<le> load_balance k st"
    and "\<And>j. load_balance j st' = (if j = k then load_balance k st - n else load_balance j st)"
    and "\<And>j. staked (book_of st') j = (if j = k then staked (book_of st) k + n else staked (book_of st) j)"
    and "\<And>j. load_withdrawn j st' = load_withdrawn j st"
  shows "books k (Stake k n) st st'"
  using assms by (auto simp: books_def intro!: book_eqI)

lemma booksI_settle:
  assumes "moves k st st'" "s \<le> staked (book_of st) k"
    and "\<And>j. load_balance j st' = (if j = k then load_balance k st + n else load_balance j st)"
    and "\<And>j. staked (book_of st') j = (if j = k then staked (book_of st) k - s else staked (book_of st) j)"
    and "\<And>j. load_withdrawn j st' = load_withdrawn j st"
  shows "books k (Settle k s n) st st'"
  using assms by (auto simp: books_def intro!: book_eqI)

lemma books_idle: "distinct (map fst (DELEGATIONS st)) \<Longrightarrow> books k Idle st st"
  by (simp add: books_def moves_refl)

lemma credit_eq: "credit self a st = Some st' \<longleftrightarrow> load_balance (acc_storage_key self) st + a \<le> u128_max
    \<and> st' = save_balance (acc_storage_key self) (load_balance (acc_storage_key self) st + a) st"
  by (auto simp: credit_def bind_eq_Some_conv)

lemma ensure_valid_additional_stake_Ok:
  "ensure_valid_additional_stake api self c st = Ok b \<Longrightarrow> b = load_balance (acc_storage_key self) st \<and> amount c \<le> b"
  by (auto simp: ensure_valid_additional_stake_def pbind_eq_Inr Let_def split: if_splits)

lemma mixnet_call_Ok: "mixnet_call msg cs st = Ok m \<longleftrightarrow> (\<exists>a. MIXNET_CONTRACT_ADDRESS st = Some a \<and> m = WasmExecute a msg cs)"
  by (auto simp: mixnet_call_def load_mixnet_address_def load_item_def pbind_eq_Inr split: option.splits)

lemma forward_to_mixnet_Ok:
  "forward_to_mixnet msg st = Ok (st', ms) \<Longrightarrow> st' = st \<and> concat (map msg_coins ms) = []"
  by (auto simp: forward_to_mixnet_def pbind_eq_Inr mixnet_call_Ok)

lemma delegate_books:
  assumes "distinct (map fst (DELEGATIONS st))" "account_delegate_to_mixnode api self mix_id c t st = Ok (st', ms)"
  shows "books (acc_storage_key self) (Stake (acc_storage_key self) (amount c)) st st' \<and> concat (map msg_coins ms) = [c]"
proof -
  let ?k = "acc_storage_key self"
  obtain s2 where sd: "save_delegation (?k, mix_id, timestamp_seconds t) (amount c) st = Ok s2"
    and bal: "amount c \<le> load_balance ?k st" and st': "st' = save_balance ?k (load_balance ?k st - amount c) s2"
    and ms: "concat (map msg_coins ms) = [c]"
    using assms(2)
    by (auto dest!: ensure_valid_additional_stake_Ok simp: account_delegate_to_mixnode_def pbind_eq_Inr Let_def mixnet_call_Ok track_delegation_def
        panicking_eq_Inr split: if_splits)
  have mv: "moves ?k st s2" by (rule moves_save_delegation [OF assms(1) sd])
  have "moves ?k st st'" unfolding st' using mv by simp
  moreover have s2: "\<And>P. delegated_where P s2 = delegated_where P st + (if P (?k, mix_id, timestamp_seconds t) then amount c else 0)"
      "BOND_PLEDGES s2 = BOND_PLEDGES st" "GATEWAY_PLEDGES s2 = GATEWAY_PLEDGES st"
      "\<And>j. load_balance j s2 = load_balance j st" "\<And>j. load_withdrawn j s2 = load_withdrawn j st"
    using sd delegated_save [OF assms(1), of _ "(?k, mix_id, timestamp_seconds t)" "amount c"]
    by (auto simp: save_delegation_Ok Let_def option.case_distrib cong: option.case_cong)
  ultimately show ?thesis
    using bal ms by (auto simp: st' intro!: booksI_stake)
qed

lemma pledge_books:
  assumes "distinct (map fst (DELEGATIONS st))" "n \<le> load_balance k st"
  shows "GATEWAY_PLEDGES st k = None \<Longrightarrow> n = amount (pd_amount p) \<Longrightarrow>
           books k (Stake k n) st (save_gateway_pledge k p (save_balance k (load_balance k st - n) st))"
    and "pledge_amount (BOND_PLEDGES st k) + n = amount (pd_amount p) \<Longrightarrow>
           books k (Stake k n) st (save_bond_pledge k p (save_balance k (load_balance k st - n) st))"
  using assms by (auto intro!: booksI_stake)

lemma bond_mixnode_books:
  assumes "distinct (map fst (DELEGATIONS st))" "account_bond_mixnode api self mn cp sg c t st = Ok (st', ms)"
  shows "books (acc_storage_key self) (Stake (acc_storage_key self) (amount c)) st st' \<and> concat (map msg_coins ms) = [c]"
  using assms
  by (auto dest!: ensure_valid_additional_stake_Ok simp: account_bond_mixnode_def pbind_eq_Inr Let_def mixnet_call_Ok panicking_eq_Inr load_bond_pledge_def
      pledge_data_new_def split: if_splits intro!: pledge_books(2))

lemma pledge_more_books:
  assumes "distinct (map fst (DELEGATIONS st))" "account_pledge_additional_tokens api self c t st = Ok (st', ms)"
  shows "books (acc_storage_key self) (Stake (acc_storage_key self) (amount c)) st st' \<and> concat (map msg_coins ms) = [c]"
  using assms
  by (auto dest!: ensure_valid_additional_stake_Ok simp: account_pledge_additional_tokens_def pbind_eq_Inr Let_def mixnet_call_Ok panicking_eq_Inr
      load_bond_pledge_def split: option.splits intro!: pledge_books(2))

lemma bond_gateway_books:
  assumes "distinct (map fst (DELEGATIONS st))" "account_bond_gateway api self g sg c t st = Ok (st', ms)"
  shows "books (acc_storage_key self) (Stake (acc_storage_key self) (amount c)) st st' \<and> concat (map msg_coins ms) = [c]"
  using assms
  by (auto dest!: ensure_valid_additional_stake_Ok simp: account_bond_gateway_def pbind_eq_Inr Let_def mixnet_call_Ok panicking_eq_Inr load_gateway_pledge_def
      pledge_data_new_def split: if_splits intro!: pledge_books(1))

lemma track_undelegation_books:
  assumes "distinct (map fst (DELEGATIONS st))" "track_undelegation self mix_id c st = Ok st'"
  shows "books (acc_storage_key self) (Settle (acc_storage_key self)
           (delegated_where (of_mix (acc_storage_key self) mix_id) st) (amount c)) st st'"
proof -
  let ?k = "acc_storage_key self" and ?s = "remove_delegations_for_mix self mix_id st"
  have "moves ?k st ?s" by (rule moves_remove_delegations [OF assms(1)])
  moreover have s: "BOND_PLEDGES ?s = BOND_PLEDGES st" "GATEWAY_PLEDGES ?s = GATEWAY_PLEDGES st"
      "\<And>j. load_balance j ?s = load_balance j st" "\<And>j. load_withdrawn j ?s = load_withdrawn j st"
    by (simp_all add: remove_delegations_for_mix_eq)
  ultimately show ?thesis
    using assms(2) delegated_remove(2) [of ?k mix_id st]
    by (auto simp: track_undelegation_def panicking_eq_Inr credit_eq delegated_remove(1) intro!: booksI_settle)
qed

lemma track_reward_books:
  assumes "distinct (map fst (DELEGATIONS st))" "track_reward self c st = Ok st'"
  shows "books (acc_storage_key self) (Settle (acc_storage_key self) 0 (amount c)) st st'"
  using assms by (auto simp: track_reward_def panicking_eq_Inr credit_eq intro!: booksI_settle)

lemma track_unbond_mixnode_books:
  assumes "distinct (map fst (DELEGATIONS st))" "account_track_unbond_mixnode self c st = Ok st'"
  shows "books (acc_storage_key self) (Settle (acc_storage_key self)
           (pledge_amount (BOND_PLEDGES st (acc_storage_key self))) (amount c)) st st'"
  using assms by (auto simp: account_track_unbond_mixnode_def pbind_eq_Inr panicking_eq_Inr credit_eq intro!: booksI_settle)

lemma track_unbond_gateway_books:
  assumes "distinct (map fst (DELEGATIONS st))" "account_track_unbond_gateway self c st = Ok st'"
  shows "books (acc_storage_key self) (Settle (acc_storage_key self)
           (pledge_amount (GATEWAY_PLEDGES st (acc_storage_key self))) (amount c)) st st'"
  using assms by (auto simp: account_track_unbond_gateway_def pbind_eq_Inr panicking_eq_Inr credit_eq intro!: booksI_settle)

lemma decrease_bond_pledge_Ok:
  "decrease_bond_pledge k c st = Ok st' \<longleftrightarrow> (\<exists>p. BOND_PLEDGES st k = Some p \<and> amount c < amount (pd_amount p)
     \<and> st' = save_bond_pledge k (p\<lparr>pd_amount := (pd_amount p)\<lparr>amount := amount (pd_amount p) - amount c\<rparr>\<rparr>) st)"
  by (cases "BOND_PLEDGES st k") (auto simp: decrease_bond_pledge_def load_item_def)

lemma track_decrease_books:
  assumes "distinct (map fst (DELEGATIONS st))" "account_track_decrease_mixnode_pledge self c st = Ok st'"
  shows "books (acc_storage_key self) (Settle (acc_storage_key self) (amount c) (amount c)) st st'"
  using assms
  by (auto simp: account_track_decrease_mixnode_pledge_def pbind_eq_Inr panicking_eq_Inr credit_eq decrease_bond_pledge_Ok
      intro!: booksI_settle)

lemma withdraw_books:
  assumes "distinct (map fst (DELEGATIONS st))" "withdraw self c st = Some (nb, st')"
    "amount c \<le> load_balance (acc_storage_key self) st"
  shows "books (acc_storage_key self) (Pay (acc_storage_key self) (amount c)) st st'"
  using assms by (auto simp: books_def withdraw_def Let_def bind_eq_Some_conv intro!: book_eqI)

section \<open>Invariant\<close>

lemma account_from_address_Ok:
  assumes "accounts_ok st" "account_from_address api a st = Ok acc"
  shows "(acc_owner_address acc, acc) \<in> set (ACCOUNTS st)" "addr_validate api a = Inr (acc_owner_address acc)"
    "load_account (acc_owner_address acc) st = Some acc"
proof -
  obtain b where b: "addr_validate api a = Inr b" "map_of (ACCOUNTS st) b = Some acc"
    using assms(2) by (auto simp: account_from_address_def validate_addr_def validate_account_def load_account_def
        pbind_eq_Inr split: sum.splits option.splits)
  with assms(1) have "acc_owner_address acc = b"
    by (auto simp: accounts_ok_def dest!: map_of_SomeD)
  with b show "(acc_owner_address acc, acc) \<in> set (ACCOUNTS st)" "addr_validate api a = Inr (acc_owner_address acc)"
    "load_account (acc_owner_address acc) st = Some acc"
    by (auto dest: map_of_SomeD simp: load_account_def)
qed

lemma account_key: "accounts_ok st \<Longrightarrow> (a, acc) \<in> set (ACCOUNTS st) \<Longrightarrow> acc_storage_key acc \<le> last_key st"
  by (auto simp: accounts_ok_def)

lemma moves_inv: "vesting_inv st \<Longrightarrow> moves k st st' \<Longrightarrow> k \<le> last_key st \<Longrightarrow> vesting_inv st'"
  by (auto simp: vesting_inv_def moves_def accounts_ok_def last_key_def)

text \<open>Replacing the entry of an account by one with the same number.\<close>

lemma accounts_ok_replace:
  assumes "accounts_ok st" "(acc_owner_address acc, acc) \<in> set (ACCOUNTS st)" "acc_storage_key acc' = acc_storage_key acc"
    and "acc_owner_address acc' = acc_owner_address acc \<or> acc_owner_address acc \<notin> fst ` set ds"
    and "set ds \<subseteq> set (ACCOUNTS st)" "distinct (map fst ds)"
  shows "accounts_ok (st\<lparr>ACCOUNTS := AList.update (acc_owner_address acc') acc' ds\<rparr>)"
proof -
  let ?o = "acc_owner_address acc" and ?o' = "acc_owner_address acc'"
  have set: "set (AList.update ?o' acc' ds) = insert (?o', acc') {e \<in> set ds. fst e \<noteq> ?o'}"
    by (rule kv.set_entries_save [OF assms(6)])
  have inj: "inj_on (\<lambda>e. acc_storage_key (snd e)) (set (ACCOUNTS st))" using assms(1) by (simp add: accounts_ok_def)
  have "acc_storage_key (snd e) \<noteq> acc_storage_key acc" if "e \<in> set ds" "fst e \<noteq> ?o'" for e
  proof
    assume "acc_storage_key (snd e) = acc_storage_key acc"
    then have "e = (?o, acc)" using inj_onD [OF inj, of e "(?o, acc)"] that assms(2,5) by auto
    then show False using that assms(4) by force
  qed
  moreover have "inj_on (\<lambda>e. acc_storage_key (snd e)) {e \<in> set ds. fst e \<noteq> ?o'}"
    using inj by (rule inj_on_subset) (use assms(5) in auto)
  ultimately have "inj_on (\<lambda>e. acc_storage_key (snd e)) (insert (?o', acc') {e \<in> set ds. fst e \<noteq> ?o'})"
    using assms(3) by (fastforce simp: inj_on_insert)
  then show ?thesis
    using assms account_key [OF assms(1,2)]
    by (auto simp: accounts_ok_def set distinct_update last_key_def)
qed

lemma inv_accounts: "vesting_inv st \<Longrightarrow> accounts_ok (st\<lparr>ACCOUNTS := as\<rparr>) \<Longrightarrow> vesting_inv (st\<lparr>ACCOUNTS := as\<rparr>)"
  by (simp add: vesting_inv_def unused_def last_key_def)

lemma book_of_accounts [simp]:
  "book_of (st\<lparr>ACCOUNTS := as\<rparr>) = book_of st"
  "book_of (st\<lparr>MIXNET_CONTRACT_ADDRESS := a\<rparr>) = book_of st"
  by (auto simp: load_balance_def load_withdrawn_def delegated_where_def intro!: book_eqI)

lemma delete_set: "distinct (map fst xs) \<Longrightarrow> set (AList.delete k xs) = {e \<in> set xs. fst e \<noteq> k}"
  by (rule kv.set_entries_remove)

text \<open>Every account comes from one with the same grant, or has just been opened.\<close>

definition same_grant :: "Account \<Rightarrow> Account \<Rightarrow> bool" where
  "same_grant acc acc' \<longleftrightarrow> acc_storage_key acc' = acc_storage_key acc \<and> acc_coin acc' = acc_coin acc
     \<and> acc_periods acc' = acc_periods acc"

definition grants_from :: "action \<Rightarrow> vesting_state \<Rightarrow> vesting_state \<Rightarrow> bool" where
  "grants_from act st st' \<longleftrightarrow> (\<forall>e' \<in> set (ACCOUNTS st'). (\<exists>e \<in> set (ACCOUNTS st). same_grant (snd e) (snd e'))
     \<or> act = Open (acc_storage_key (snd e')) (amount (acc_coin (snd e'))))"

lemma same_grant_refl [simp]: "same_grant acc acc"
  by (simp add: same_grant_def)

lemma grants_from_same: "ACCOUNTS st' = ACCOUNTS st \<Longrightarrow> grants_from act st st'"
  unfolding grants_from_def using same_grant_refl by metis

lemma grants_from_update:
  assumes "(a, acc) \<in> set (ACCOUNTS st)" "same_grant acc acc'" "set ds \<subseteq> set (ACCOUNTS st)" "distinct (map fst ds)"
  shows "grants_from act st (st\<lparr>ACCOUNTS := AList.update b acc' ds\<rparr>)"
proof -
  have "\<exists>e \<in> set (ACCOUNTS st). same_grant (snd e) (snd e')" if "e' \<in> set (AList.update b acc' ds)" for e'
  proof (cases "e' = (b, acc')")
    case True
    then show ?thesis using assms(1,2) by (intro bexI [of _ "(a, acc)"]) simp_all
  next
    case False
    then have "e' \<in> set (ACCOUNTS st)" using that assms(3) kv.set_entries_save [OF assms(4), of b acc'] by auto
    then show ?thesis by (intro bexI [of _ e']) simp_all
  qed
  then show ?thesis by (simp add: grants_from_def)
qed

lemma transfer_ownership_inv:
  assumes "vesting_inv st" "(acc_owner_address acc, acc) \<in> set (ACCOUNTS st)"
  shows "vesting_inv (transfer_ownership acc a st)" "book_of (transfer_ownership acc a st) = book_of st"
    "grants_from act st (transfer_ownership acc a st)"
proof -
  let ?ds = "AList.delete (acc_owner_address acc) (ACCOUNTS st)"
  have "accounts_ok (st\<lparr>ACCOUNTS := AList.update (acc_owner_address (acc\<lparr>acc_owner_address := a\<rparr>)) (acc\<lparr>acc_owner_address := a\<rparr>) ?ds\<rparr>)"
    using assms by (intro accounts_ok_replace) (auto simp: vesting_inv_def accounts_ok_def delete_set distinct_delete)
  then show "vesting_inv (transfer_ownership acc a st)"
    using inv_accounts [OF assms(1)] by (simp add: transfer_ownership_def save_account_def delete_account_def Let_def)
  show "grants_from act st (transfer_ownership acc a st)"
    unfolding transfer_ownership_def save_account_def delete_account_def Let_def using assms
    by (simp, intro grants_from_update) (auto simp: same_grant_def delete_set distinct_delete vesting_inv_def accounts_ok_def)
  show "book_of (transfer_ownership acc a st) = book_of st"
    by (simp add: transfer_ownership_def save_account_def delete_account_def Let_def)
qed

lemma update_staking_address_inv:
  assumes "vesting_inv st" "(acc_owner_address acc, acc) \<in> set (ACCOUNTS st)"
  shows "vesting_inv (update_staking_address acc a st)" "book_of (update_staking_address acc a st) = book_of st"
    "grants_from act st (update_staking_address acc a st)"
proof -
  let ?ds = "case acc_staking_address acc of Some s \<Rightarrow> AList.delete s (ACCOUNTS st) | None \<Rightarrow> ACCOUNTS st"
  have eq: "update_staking_address acc a st
      = st\<lparr>ACCOUNTS := AList.update (acc_owner_address (acc\<lparr>acc_staking_address := a\<rparr>)) (acc\<lparr>acc_staking_address := a\<rparr>) ?ds\<rparr>"
    by (simp add: update_staking_address_def save_account_def delete_account_def split: option.splits)
  have "accounts_ok (update_staking_address acc a st)"
    unfolding eq using assms
    by (intro accounts_ok_replace) (auto simp: vesting_inv_def accounts_ok_def delete_set distinct_delete split: option.splits)
  then show "vesting_inv (update_staking_address acc a st)" unfolding eq by (rule inv_accounts [OF assms(1)])
  show "book_of (update_staking_address acc a st) = book_of st" by (simp add: eq)
  show "grants_from act st (update_staking_address acc a st)"
    unfolding eq using assms
    by (intro grants_from_update)
      (auto simp: same_grant_def delete_set distinct_delete vesting_inv_def accounts_ok_def split: option.splits)
qed

lemma save_account_inv:
  assumes "vesting_inv st" "(acc_owner_address acc, acc) \<in> set (ACCOUNTS st)"
    "acc_owner_address acc' = acc_owner_address acc" "same_grant acc acc'"
  shows "vesting_inv (save_account acc' st)" "book_of (save_account acc' st) = book_of st"
    "grants_from act st (save_account acc' st)"
  using assms accounts_ok_replace [of st acc acc' "ACCOUNTS st"] inv_accounts [OF assms(1)]
    grants_from_update [OF assms(2,4), of "ACCOUNTS st"]
  by (auto simp: save_account_def vesting_inv_def accounts_ok_def same_grant_def)

section \<open>Effects of the transactions\<close>

definition realises :: "action \<Rightarrow> vesting_state \<Rightarrow> vesting_state \<Rightarrow> CosmosMsg list \<Rightarrow> bool" where
  "realises act st st' ms \<longleftrightarrow> vesting_inv st' \<and> book_step act (book_of st) = Some (book_of st') \<and> grants_from act st st'
     \<and> ADMIN st' = ADMIN st \<and> MIX_DENOM st' = MIX_DENOM st
     \<and> (\<forall>d. MIX_DENOM st = Some d \<longrightarrow> coins_out d ms = outgoing act)"

lemma inv_distinct: "vesting_inv st \<Longrightarrow> distinct (map fst (DELEGATIONS st))"
  by (simp add: vesting_inv_def)

lemma inv_accounts_ok: "vesting_inv st \<Longrightarrow> accounts_ok st"
  by (simp add: vesting_inv_def)

lemma load_denom_Ok: "load_denom st = Ok d \<longleftrightarrow> MIX_DENOM st = Some d"
  by (auto simp: load_denom_def load_item_def split: option.splits)

lemma validate_funds_single: "validate_funds [a] d = Inr c \<longleftrightarrow> c = a \<and> amount a \<noteq> 0 \<and> denom a = d"
  by (auto simp: validate_funds_def)

lemma realises_idle: "vesting_inv st \<Longrightarrow> concat (map msg_coins ms) = [] \<Longrightarrow> realises Idle st st ms"
  by (simp add: realises_def coins_out_def coins_in_def grants_from_same)

lemma realises_books:
  assumes "vesting_inv st" "account_from_address api a st = Ok acc" "books (acc_storage_key acc) act st st'"
    and "\<And>d. MIX_DENOM st = Some d \<Longrightarrow> coins_in d (concat (map msg_coins ms)) = outgoing act"
  shows "realises act st st' ms"
proof -
  have "acc_storage_key acc \<le> last_key st"
    using assms(1,2) account_from_address_Ok(1) account_key inv_accounts_ok by blast
  then have "vesting_inv st'" using assms(1,3) moves_inv by (auto simp: books_def)
  then show ?thesis using assms(3,4) by (auto simp: realises_def books_def moves_def coins_out_def grants_from_same)
qed

lemma staking_account_Ok:
  "staking_account api b info st = Ok acc \<Longrightarrow> \<exists>a. account_from_address api a st = Ok acc"
  by (auto simp: staking_account_def pbind_eq_Inr split: option.splits)

lemma coins_in_single: "denom c = d \<Longrightarrow> coins_in d [c] = amount c"
  by (simp add: coins_in_def)

lemma realises_stake:
  assumes "vesting_inv st" "account_from_address api x st = Ok acc" "MIX_DENOM st = Some (denom c)"
    and "books (acc_storage_key acc) (Stake (acc_storage_key acc) (amount c)) st st' \<and> concat (map msg_coins ms) = [c]"
  shows "\<exists>k. realises (Stake k (amount c)) st st' ms"
  using assms realises_books [of st api x acc "Stake (acc_storage_key acc) (amount c)" st' ms]
  by (auto simp: coins_in_single)

lemma stake_realises:
  assumes "vesting_inv st"
  shows "try_delegate_to_mixnode api mix_id a b info t st = Ok (st', ms) \<Longrightarrow> \<exists>k. realises (Stake k (amount a)) st st' ms"
    and "try_bond_mixnode api mn cp sg a info t st = Ok (st', ms) \<Longrightarrow> \<exists>k. realises (Stake k (amount a)) st st' ms"
    and "try_pledge_more api t info a st = Ok (st', ms) \<Longrightarrow> \<exists>k. realises (Stake k (amount a)) st st' ms"
    and "try_bond_gateway api g sg a info t st = Ok (st', ms) \<Longrightarrow> \<exists>k. realises (Stake k (amount a)) st st' ms"
proof -
  note d = inv_distinct [OF assms]
  show "\<exists>k. realises (Stake k (amount a)) st st' ms" if "try_delegate_to_mixnode api mix_id a b info t st = Ok (st', ms)"
    using that by (auto simp: try_delegate_to_mixnode_def pbind_eq_Inr load_denom_Ok validate_funds_single
        dest!: staking_account_Ok intro!: realises_stake [OF assms _ _ delegate_books [OF d]])
  show "\<exists>k. realises (Stake k (amount a)) st st' ms" if "try_bond_mixnode api mn cp sg a info t st = Ok (st', ms)"
    using that by (auto simp: try_bond_mixnode_def pbind_eq_Inr load_denom_Ok validate_funds_single
        intro!: realises_stake [OF assms _ _ bond_mixnode_books [OF d]])
  show "\<exists>k. realises (Stake k (amount a)) st st' ms" if "try_pledge_more api t info a st = Ok (st', ms)"
    using that by (auto simp: try_pledge_more_def pbind_eq_Inr load_denom_Ok validate_funds_single
        intro!: realises_stake [OF assms _ _ pledge_more_books [OF d]])
  show "\<exists>k. realises (Stake k (amount a)) st st' ms" if "try_bond_gateway api g sg a info t st = Ok (st', ms)"
    using that by (auto simp: try_bond_gateway_def pbind_eq_Inr load_denom_Ok validate_funds_single
        intro!: realises_stake [OF assms _ _ bond_gateway_books [OF d]])
qed

lemma realises_settle:
  assumes "vesting_inv st" "account_from_address api x st = Ok acc"
    and "books (acc_storage_key acc) (Settle (acc_storage_key acc) s n) st st'"
  shows "realises (Settle (acc_storage_key acc) s n) st st' []"
  using assms realises_books [of st api x acc "Settle (acc_storage_key acc) s n" st' "[]"] by (simp add: coins_in_def)

lemma track_realises:
  assumes "vesting_inv st"
  shows "try_track_reward api info a x st = Ok (st', ms) \<Longrightarrow> \<exists>acc. account_from_address api x st = Ok acc
      \<and> realises (Settle (acc_storage_key acc) 0 (amount a)) st st' ms"
    and "try_track_decrease_mixnode_pledge api x a info st = Ok (st', ms) \<Longrightarrow> \<exists>acc. account_from_address api x st = Ok acc
      \<and> realises (Settle (acc_storage_key acc) (amount a) (amount a)) st st' ms"
    and "try_track_undelegation api x mix_id a info st = Ok (st', ms) \<Longrightarrow> \<exists>acc. account_from_address api x st = Ok acc
      \<and> realises (Settle (acc_storage_key acc) (delegated_where (of_mix (acc_storage_key acc) mix_id) st) (amount a)) st st' ms"
    and "try_track_unbond_mixnode api x a info st = Ok (st', ms) \<Longrightarrow> \<exists>acc. account_from_address api x st = Ok acc
      \<and> realises (Settle (acc_storage_key acc) (pledge_amount (BOND_PLEDGES st (acc_storage_key acc))) (amount a)) st st' ms"
    and "try_track_unbond_gateway api x a info st = Ok (st', ms) \<Longrightarrow> \<exists>acc. account_from_address api x st = Ok acc
      \<and> realises (Settle (acc_storage_key acc) (pledge_amount (GATEWAY_PLEDGES st (acc_storage_key acc))) (amount a)) st st' ms"
  unfolding try_track_reward_def try_track_decrease_mixnode_pledge_def try_track_undelegation_def
    try_track_unbond_mixnode_def try_track_unbond_gateway_def
  by (auto simp: pbind_eq_Inr intro!: realises_settle [OF assms]
      dest!: track_reward_books [OF inv_distinct [OF assms]] track_decrease_books [OF inv_distinct [OF assms]]
        track_undelegation_books [OF inv_distinct [OF assms]] track_unbond_mixnode_books [OF inv_distinct [OF assms]]
        track_unbond_gateway_books [OF inv_distinct [OF assms]])

lemma forward_realises:
  assumes "vesting_inv st" "forward_to_mixnet msg st = Ok (st', ms)"
  shows "realises Idle st st' ms"
  using forward_to_mixnet_Ok [OF assms(2)] realises_idle [OF assms(1)] by simp

lemma spendable_coins_Ok:
  "spendable_coins self bt t st = Ok c \<longleftrightarrow> (\<exists>l d. locked_coins self bt t st = Ok l \<and> MIX_DENOM st = Some d
     \<and> c = \<lparr>denom = d, amount = load_balance (acc_storage_key self) st - amount l\<rparr>)"
  by (auto simp: spendable_coins_def pbind_eq_Inr load_denom_Ok)

lemma withdraw_Ok:
  assumes "try_withdraw_vested_coins api a t info st = Ok (st', ms)"
  obtains acc l nb where "account_from_address api (sender info) st = Ok acc" "acc_owner_address acc = sender info"
    "MIX_DENOM st = Some (denom a)" "locked_coins acc None t st = Ok l"
    "amount a \<le> load_balance (acc_storage_key acc) st - amount l" "withdraw acc a st = Some (nb, st')"
    "ms = [BankSend (sender info) [a]]"
  using assms
  by (auto simp: try_withdraw_vested_coins_def pbind_eq_Inr load_denom_Ok spendable_coins_Ok panicking_eq_Inr
      split: if_splits)

lemma withdraw_realises:
  assumes "vesting_inv st" "try_withdraw_vested_coins api a t info st = Ok (st', ms)"
  shows "\<exists>acc. account_from_address api (sender info) st = Ok acc \<and> realises (Pay (acc_storage_key acc) (amount a)) st st' ms"
proof -
  from assms(2) obtain acc nb and l :: Coin where w: "account_from_address api (sender info) st = Ok acc" "MIX_DENOM st = Some (denom a)"
      "amount a \<le> load_balance (acc_storage_key acc) st - amount l" "withdraw acc a st = Some (nb, st')"
      "ms = [BankSend (sender info) [a]]"
    by (rule withdraw_Ok)
  have "books (acc_storage_key acc) (Pay (acc_storage_key acc) (amount a)) st st'"
    by (rule withdraw_books [OF inv_distinct [OF assms(1)] w(4)]) (use w(3) in simp)
  with w realises_books [OF assms(1) w(1) this, of ms] show ?thesis by (auto simp: coins_in_single)
qed

lemma save_new_Some:
  assumes "save_new owner staking c start periods cap st = Some st'"
  defines "k \<equiv> Suc (last_key st)"
  defines "acc \<equiv> \<lparr>acc_owner_address = owner, acc_staking_address = staking, acc_start_time = start, acc_periods = periods,
    acc_coin = c, acc_storage_key = k, acc_pledge_cap = cap\<rparr>"
  shows "st' = save_balance k (amount c) (save_account acc (st\<lparr>KEY := Some k\<rparr>))"
  using assms by (auto simp: save_new_def generate_storage_key_def bind_eq_Some_conv last_key_def u32_add_def Let_def
      split: if_splits)

lemma unused_book:
  assumes "unused k st"
  shows "load_balance k st = 0" "load_withdrawn k st = 0" "staked (book_of st) k = 0"
proof -
  have "filter (\<lambda>e. of_account k (fst e)) (DELEGATIONS st) = []"
    using assms by (auto simp: unused_def filter_empty_conv)
  then show "load_balance k st = 0" "load_withdrawn k st = 0" "staked (book_of st) k = 0"
    using assms by (simp_all add: unused_def load_balance_def load_withdrawn_def delegated_where_def)
qed

lemma save_new_inv:
  assumes inv: "vesting_inv st" and sn: "save_new owner staking c start periods cap st = Some st'"
    and new: "load_account owner st = None"
  shows "vesting_inv st'" "book_step (Open (Suc (last_key st)) (amount c)) (book_of st) = Some (book_of st')"
    "ADMIN st' = ADMIN st" "MIX_DENOM st' = MIX_DENOM st" "grants_from (Open (Suc (last_key st)) (amount c)) st st'"
proof -
  let ?k = "Suc (last_key st)"
  define acc where "acc = \<lparr>acc_owner_address = owner, acc_staking_address = staking, acc_start_time = start,
    acc_periods = periods, acc_coin = c, acc_storage_key = ?k, acc_pledge_cap = cap\<rparr>"
  have acc: "acc_owner_address acc = owner" "acc_storage_key acc = ?k" "acc_coin acc = c" by (simp_all add: acc_def)
  have st': "st' = save_balance ?k (amount c) (save_account acc (st\<lparr>KEY := Some ?k\<rparr>))"
    unfolding acc_def by (rule save_new_Some [OF sn])
  have fresh: "owner \<notin> fst ` set (ACCOUNTS st)" using new by (simp add: load_account_def map_of_eq_None_iff)
  have ACC: "set (ACCOUNTS st') = insert (owner, acc) (set (ACCOUNTS st))"
    using inv fresh by (auto simp: st' save_balance_def save_account_def acc kv.set_entries_save vesting_inv_def accounts_ok_def)
  have D: "distinct (map fst (ACCOUNTS st'))"
    using inv by (simp add: st' save_balance_def save_account_def distinct_update vesting_inv_def accounts_ok_def)
  have lk: "last_key st' = ?k" by (simp add: st' save_balance_def save_account_def last_key_def)
  have un: "unused j st" if "?k \<le> j" for j using inv that by (simp add: vesting_inv_def)
  have "inj_on (\<lambda>e. acc_storage_key (snd e)) (insert (owner, acc) (set (ACCOUNTS st)))"
    using inv acc by (fastforce simp: inj_on_insert vesting_inv_def accounts_ok_def)
  then have "accounts_ok st'"
    using inv acc D by (auto simp: accounts_ok_def ACC lk vesting_inv_def intro: le_SucI)
  moreover have "unused j st'" if "?k < j" for j
    using un [of j] that by (simp add: unused_def st' save_balance_def save_account_def)
  ultimately show "vesting_inv st'"
    using inv by (simp add: vesting_inv_def lk) (simp add: st' save_balance_def save_account_def)
  show "ADMIN st' = ADMIN st" "MIX_DENOM st' = MIX_DENOM st"
    by (simp_all add: st' save_balance_def save_account_def)
  show "grants_from (Open ?k (amount c)) st st'"
    unfolding grants_from_def ACC using acc same_grant_refl by (metis insert_iff snd_conv)
  show "book_step (Open ?k (amount c)) (book_of st) = Some (book_of st')"
    using unused_book [OF un [of ?k]] by (auto simp: st' intro!: book_eqI)
qed

lemma account_exists_iff: "addr_validate api a = Inr b \<Longrightarrow> account_exists api a st \<longleftrightarrow> load_account b st \<noteq> None"
  by (auto simp: account_exists_def account_from_address_def validate_addr_def validate_account_def split: option.splits)

lemma ensure_admin_Ok: "ensure_admin info st = Ok x \<longleftrightarrow> ADMIN st = Some (sender info)"
  by (auto simp: ensure_admin_def load_admin_def load_item_def split: option.splits)

lemma validate_addr_Ok: "validate_addr api a = Ok b \<longleftrightarrow> addr_validate api a = Inr b"
  by (auto simp: validate_addr_def split: sum.splits)

lemma validate_funds_Ok: "validate_funds cs d = Inr c \<longleftrightarrow> cs = [c] \<and> amount c \<noteq> 0 \<and> denom c = d"
  by (auto simp: validate_funds_def split: list.splits if_splits)

lemma create_Ok:
  assumes "try_create_periodic_vesting_account api owner staking spec cap info t st = Ok (st', ms)"
  shows "ms = [] \<and> ADMIN st = Some (sender info) \<and> (\<exists>c o' s start periods. MIX_DENOM st = Some (denom c)
    \<and> funds info = [c] \<and> addr_validate api owner = Inr o' \<and> load_account o' st = None
    \<and> populate_vesting_periods (case spec of Some s \<Rightarrow> s | None \<Rightarrow> vesting_spec_default) start = Some periods
    \<and> save_new o' s c (start * NANOS) periods cap st = Some st')"
proof -
  let ?spec = "case spec of Some s \<Rightarrow> s | None \<Rightarrow> vesting_spec_default"
  let ?start = "case spec_start_time ?spec of Some t \<Rightarrow> t | None \<Rightarrow> timestamp_seconds t"
  from assms obtain d c o' s periods start where
    adm: "ADMIN st = Some (sender info)" and d: "MIX_DENOM st = Some d" and ex: "\<not> account_exists api owner st"
    and c: "validate_funds (funds info) d = Inr c" and o': "addr_validate api owner = Inr o'"
    and p: "populate_vesting_periods ?spec ?start = Some periods" and ts: "timestamp_from_seconds ?start = Some start"
    and sn: "save_new o' s c start periods cap st = Some st'" and ms: "ms = []"
    by (auto simp: try_create_periodic_vesting_account_def pbind_eq_Inr ensure_admin_Ok load_denom_Ok validate_addr_Ok
        panicking_eq_Inr Let_def split: if_splits)
  have "load_account o' st = None" using ex account_exists_iff [OF o', of st] by simp
  moreover have "start = ?start * NANOS" using ts by (simp add: timestamp_from_seconds_def u64_mul_def split: if_splits)
  ultimately show ?thesis using adm d c o' p sn ms by (auto simp: validate_funds_Ok)
qed

lemma create_realises:
  assumes "vesting_inv st" "try_create_periodic_vesting_account api owner staking spec cap info t st = Ok (st', ms)"
  shows "\<exists>c. MIX_DENOM st = Some (denom c) \<and> funds info = [c] \<and> realises (Open (Suc (last_key st)) (amount c)) st st' ms"
  using create_Ok [OF assms(2)] save_new_inv [OF assms(1)] by (fastforce simp: realises_def coins_out_def coins_in_def)

lemmas forwarding_defs = account_create_family_def account_join_family_def account_leave_family_def
  account_head_kick_member_def account_claim_delegator_reward_def account_undelegate_from_mixnode_def
  account_claim_operator_reward_def account_decrease_mixnode_pledge_def account_unbond_mixnode_def
  account_update_mixnode_config_def account_update_mixnode_cost_params_def account_unbond_gateway_def
  account_update_gateway_config_def

lemmas forwarding_tx_defs = try_create_family_def try_join_family_def try_leave_family_def try_kick_family_member_def
  try_update_mixnode_config_def try_update_gateway_config_def try_update_mixnode_cost_params_def try_unbond_gateway_def
  try_decrease_pledge_def try_unbond_mixnode_def try_claim_operator_reward_def try_claim_delegator_reward_def
  try_undelegate_from_mixnode_def

text \<open>The messages that only pass a request on to the mixnet contract.\<close>

fun forwarded :: "ExecuteMsg \<Rightarrow> bool" where
  "forwarded (CreateFamily _) = True"
| "forwarded (JoinFamily _ _) = True"
| "forwarded (LeaveFamily _) = True"
| "forwarded (KickFamilyMember _) = True"
| "forwarded ClaimOperatorReward = True"
| "forwarded (ClaimDelegatorReward _) = True"
| "forwarded (UpdateMixnodeCostParams _) = True"
| "forwarded (UpdateMixnodeConfig _) = True"
| "forwarded (UndelegateFromMixnode _ _) = True"
| "forwarded (DecreasePledge _) = True"
| "forwarded UnbondMixnode = True"
| "forwarded UnbondGateway = True"
| "forwarded (UpdateGatewayConfig _) = True"
| "forwarded _ = False"

lemma forwarded_execute:
  assumes "forwarded msg" "execute api t info msg st = Ok (st', ms)"
  shows "\<exists>m. forward_to_mixnet m st = Ok (st', ms)"
  using assms
  by (cases msg) (auto simp: forwarding_tx_defs forwarding_defs pbind_eq_Inr split: option.splits if_splits)

lemma inv_mixnet_address: "vesting_inv st \<Longrightarrow> vesting_inv (st\<lparr>MIXNET_CONTRACT_ADDRESS := a\<rparr>)"
  by (simp add: vesting_inv_def accounts_ok_def unused_def last_key_def)

lemma admin_realises:
  assumes "vesting_inv st"
  shows "try_update_locked_pledge_cap api a cap info st = Ok (st', ms) \<Longrightarrow> realises Idle st st' ms"
    and "try_update_mixnet_address api a info st = Ok (st', ms) \<Longrightarrow> realises Idle st st' ms"
    and "try_transfer_ownership api a info st = Ok (st', ms) \<Longrightarrow> realises Idle st st' ms"
    and "try_update_staking_address api b info st = Ok (st', ms) \<Longrightarrow> realises Idle st st' ms"
proof -
  note acc = account_from_address_Ok(1) [OF inv_accounts_ok [OF assms]]
  have coins: "coins_out d [] = 0" for d by (simp add: coins_out_def coins_in_def)
  show "realises Idle st st' ms" if "try_update_locked_pledge_cap api a cap info st = Ok (st', ms)"
    using that save_account_inv [OF assms acc]
    by (auto simp: try_update_locked_pledge_cap_def pbind_eq_Inr realises_def coins same_grant_def)
      (simp_all add: save_account_def)
  show "realises Idle st st' ms" if "try_update_mixnet_address api a info st = Ok (st', ms)"
    using that inv_mixnet_address [OF assms]
    by (auto simp: try_update_mixnet_address_def pbind_eq_Inr realises_def coins grants_from_same)
  show "realises Idle st st' ms" if "try_transfer_ownership api a info st = Ok (st', ms)"
    using that transfer_ownership_inv [OF assms acc]
    by (auto simp: try_transfer_ownership_def pbind_eq_Inr realises_def coins split: if_splits)
      (simp_all add: transfer_ownership_def save_account_def delete_account_def Let_def)
  show "realises Idle st st' ms" if "try_update_staking_address api b info st = Ok (st', ms)"
    using that update_staking_address_inv [OF assms acc]
    by (auto simp: try_update_staking_address_def pbind_eq_Inr realises_def coins Let_def split: if_splits)
      (simp_all add: update_staking_address_def save_account_def delete_account_def Let_def split: option.splits)
qed

lemma execute_realises:
  assumes inv: "vesting_inv st" and ex: "execute api t info msg st = Ok (st', ms)"
  shows "\<exists>act. action_for msg act \<and> realises act st st' ms"
proof (cases "forwarded msg")
  case True
  then have "realises Idle st st' ms" using forwarded_execute [OF True ex] forward_realises [OF inv] by blast
  moreover have "action_for msg Idle" using True by (cases msg) auto
  ultimately show ?thesis by blast
next
  case False
  note effects = admin_realises [OF inv] stake_realises [OF inv] track_realises [OF inv] withdraw_realises [OF inv]
    create_realises [OF inv]
  from False ex show ?thesis by (cases msg) (simp_all, (blast dest: effects)+)
qed

end
