(* ===== verification/Vesting_Schedule.thy ===== *)
theory Vesting_Schedule
  imports Vesting_Ledger
begin

text \<open>
  The vesting schedule: a closed form of the amount that has vested at a time, and what the
  queries for vested, vesting and locked coins return in terms of it.
\<close>

definition period_end :: "VestingPeriod \<Rightarrow> nat" where
  "period_end p = (vp_start_time p + vp_period_seconds p) * NANOS"

definition vested_at :: "Account \<Rightarrow> nat \<Rightarrow> nat" where
  "vested_at acc t =
     (let n = length (acc_periods acc); a = amount (acc_coin acc) in
      if acc_periods acc = [] \<or> timestamp_seconds t < vp_start_time (hd (acc_periods acc)) then 0
      else if period_end (last (acc_periods acc)) < t then a
      else a div n * length (takeWhile (\<lambda>p. period_end p \<le> t) (acc_periods acc)))"

lemma vp_end_time_eq: "vp_end_time p = (if period_end p \<le> u64_max then Some (period_end p) else None)"
proof -
  have "vp_start_time p + vp_period_seconds p \<le> period_end p" by (simp add: period_end_def)
  then show ?thesis
    by (auto simp: vp_end_time_def u64_add_def timestamp_from_seconds_def u64_mul_def period_end_def)
qed

lemma vp_end_time_Some: "vp_end_time p = Some e \<Longrightarrow> e = period_end p"
  by (simp add: vp_end_time_eq split: if_splits)

lemma period_index_Some:
  "period_index t ps i = Some j \<Longrightarrow> j = i + length (takeWhile (\<lambda>p. period_end p \<le> t) ps)"
  by (induction ps arbitrary: i) (fastforce simp: bind_eq_Some_conv dest!: vp_end_time_Some split: if_splits)+

lemma period_index_total:
  "\<forall>p \<in> set ps. period_end p \<le> u64_max \<Longrightarrow>
     period_index t ps i = Some (i + length (takeWhile (\<lambda>p. period_end p \<le> t) ps))"
  by (induction ps arbitrary: i) (auto simp: vp_end_time_eq)

lemma length_takeWhile_mono:
  "(\<And>x. P x \<Longrightarrow> Q x) \<Longrightarrow> length (takeWhile P xs) \<le> length (takeWhile Q xs)"
  by (induction xs) auto

lemma div_mult_length_le: "k \<le> n \<Longrightarrow> a div n * k \<le> (a :: nat)"
  by (metis div_times_less_eq_dividend le_trans mult_le_mono2)

lemma vested_at_le: "vested_at acc t \<le> amount (acc_coin acc)"
  by (simp add: vested_at_def Let_def div_mult_length_le length_takeWhile_le)

lemma vested_at_mono: "t \<le> t' \<Longrightarrow> vested_at acc t \<le> vested_at acc t'"
proof -
  assume le: "t \<le> t'"
  have "timestamp_seconds t \<le> timestamp_seconds t'" using le by (simp add: timestamp_seconds_def div_le_mono)
  moreover have "length (takeWhile (\<lambda>p. period_end p \<le> t) ps) \<le> length (takeWhile (\<lambda>p. period_end p \<le> t') ps)" for ps
    using le by (intro length_takeWhile_mono) simp
  ultimately show ?thesis
    using le by (auto simp: vested_at_def Let_def div_mult_length_le length_takeWhile_le intro: mult_le_mono2)
qed

lemma get_current_vesting_period_Ok:
  "get_current_vesting_period acc t = Ok p \<Longrightarrow> acc_periods acc \<noteq> [] \<and>
     p = (if timestamp_seconds t < vp_start_time (hd (acc_periods acc)) then Before
          else if period_end (last (acc_periods acc)) < t then After
          else In (length (takeWhile (\<lambda>p. period_end p \<le> t) (acc_periods acc))))"
  by (auto simp: get_current_vesting_period_def pbind_eq_Inr panicking_eq_Inr Let_def
      dest!: vp_end_time_Some period_index_Some split: if_splits)

lemma get_vested_coins_Ok:
  assumes "get_vested_coins acc bt t st = Ok c"
  shows "amount c = vested_at acc (case bt of Some b \<Rightarrow> b | None \<Rightarrow> t)" "acc_periods acc \<noteq> []"
  using assms
  by (auto simp: get_vested_coins_def pbind_eq_Inr panicking_eq_Inr vested_at_def Let_def tokens_per_period_def
      num_vesting_periods_def uint128_mul_def dest!: get_current_vesting_period_Ok split: if_splits)

lemma get_vesting_coins_Ok:
  assumes "get_vesting_coins acc bt t st = Ok c"
  shows "amount c = amount (acc_coin acc) - vested_at acc (case bt of Some b \<Rightarrow> b | None \<Rightarrow> t)"
  using assms
  by (auto simp: get_vesting_coins_def get_original_vesting_def pbind_eq_Inr panicking_eq_Inr
      dest!: get_vested_coins_Ok(1) split: sum.splits simp: sbind_def)

lemma total_staked_le:
  assumes "total_staked acc st = Some s"
  shows "s \<le> staked (book_of st) (acc_storage_key acc)"
  using assms
  by (auto simp: total_staked_def total_delegations_def delegations_where_eq bind_eq_Some_conv total_pledged_def
      load_bond_pledge_def load_gateway_pledge_def split: if_splits option.splits)

lemma locked_coins_Ok:
  assumes "locked_coins acc bt t st = Ok l"
  shows "amount (acc_coin acc) - vested_at acc (case bt of Some b \<Rightarrow> b | None \<Rightarrow> t)
    \<le> amount l + staked (book_of st) (acc_storage_key acc)"
  using assms total_staked_le [of acc st] get_vesting_coins_Ok [of acc bt t st]
  by (fastforce simp: locked_coins_def pbind_eq_Inr panicking_eq_Inr)

section \<open>Schedules of the contract\<close>

lemma those_map_eq: "those (map f xs) = Some ys \<Longrightarrow> (\<And>x y. f x = Some y \<Longrightarrow> y = g x) \<Longrightarrow> ys = map g xs"
  by (induction xs arbitrary: ys) (auto split: option.splits)

lemma populate_periods:
  assumes "populate_vesting_periods spec start = Some ps"
  shows "ps = map (\<lambda>i. \<lparr>vp_start_time = start + i * period_seconds spec, vp_period_seconds = period_seconds spec\<rparr>)
    [0..<num_periods spec]"
proof -
  let ?p = "\<lambda>i. \<lparr>vp_start_time = start + i * period_seconds spec, vp_period_seconds = period_seconds spec\<rparr>"
  have "p = ?p i" if "vesting_period_at spec start i = Some p" for i p
    using that by (auto simp: vesting_period_at_def bind_eq_Some_conv u64_mul_def u64_add_def split: if_splits)
  then show ?thesis
    by (rule those_map_eq [OF assms [unfolded populate_vesting_periods_def]])
qed

lemma takeWhile_upt: "length (takeWhile (\<lambda>i. i < m) [0..<n]) = min n m"
  by (induction n) (auto simp: takeWhile_append)

lemma ended_periods:
  assumes "populate_vesting_periods spec start = Some ps" "0 < period_seconds spec" "start * NANOS \<le> t"
  shows "length (takeWhile (\<lambda>p. period_end p \<le> t) ps)
    = min (num_periods spec) ((t - start * NANOS) div (period_seconds spec * NANOS))"
proof -
  let ?s = "period_seconds spec" and ?q = "(t - start * NANOS) div (period_seconds spec * NANOS)"
  have "((start + i * ?s + ?s) * NANOS \<le> t) = (i < ?q)" for i
  proof -
    have "(start + i * ?s + ?s) * NANOS = start * NANOS + Suc i * (?s * NANOS)" by (simp add: algebra_simps)
    then have "((start + i * ?s + ?s) * NANOS \<le> t) = (Suc i * (?s * NANOS) \<le> t - start * NANOS)"
      using assms(3) by linarith
    also have "\<dots> = (Suc i \<le> ?q)" using assms(2) by (subst less_eq_div_iff_mult_less_eq) auto
    finally show ?thesis by (simp add: Suc_le_eq)
  qed
  then show ?thesis
    by (simp add: populate_periods [OF assms(1)] takeWhile_map period_end_def comp_def takeWhile_upt)
qed

section \<open>Properties\<close>

definition example_account :: Account where
  "example_account = \<lparr>acc_owner_address = ''owner'', acc_staking_address = None, acc_start_time = 100 * NANOS,
     acc_periods = [\<lparr>vp_start_time = 100, vp_period_seconds = 10\<rparr>, \<lparr>vp_start_time = 110, vp_period_seconds = 10\<rparr>,
       \<lparr>vp_start_time = 120, vp_period_seconds = 10\<rparr>],
     acc_coin = \<lparr>denom = ''unym'', amount = 1000\<rparr>, acc_storage_key = 1, acc_pledge_cap = None\<rparr>"

definition example_spec :: VestingSpecification where
  "example_spec = \<lparr>spec_start_time = Some 100, spec_period_seconds = Some 10, spec_num_periods = Some 3\<rparr>"

definition empty_state :: vesting_state where
  "empty_state = \<lparr>KEY = None, ACCOUNTS = [], BALANCES = (\<lambda>_. None), WITHDRAWNS = (\<lambda>_. None), BOND_PLEDGES = (\<lambda>_. None),
     GATEWAY_PLEDGES = (\<lambda>_. None), DELEGATIONS = [], ADMIN = None, MIXNET_CONTRACT_ADDRESS = None, MIX_DENOM = None\<rparr>"

definition example_start :: vesting_state where
  "example_start = empty_state\<lparr>ADMIN := Some ''admin'', MIXNET_CONTRACT_ADDRESS := Some ''mixnet'', MIX_DENOM := Some ''unym''\<rparr>"

text \<open>
  C9. The vesting schedule. For an account created with \<open>n\<close> periods of \<open>s\<close> seconds from \<open>start\<close>, the
  vested amount at time \<open>t\<close> is nothing before the start, everything after the end of the last
  period, and in between the whole number of periods that have passed times the \<open>n\<close>-th part,
  rounded down, of the original amount; the computation never panics and never fails. This needs a
  grant of at least one coin per period: for a smaller one, which can be created, the computation
  fails between the start and the end.
\<close>

theorem vested_coins_schedule:
  assumes periods: "populate_vesting_periods spec start = Some (acc_periods acc)"
    and n: "0 < num_periods spec" "num_periods spec \<le> amount (acc_coin acc)" and s: "0 < period_seconds spec"
    and fits: "(start + num_periods spec * period_seconds spec) * NANOS \<le> u64_max" "amount (acc_coin acc) \<le> u128_max"
    and d: "MIX_DENOM st = Some d"
  shows "get_vested_coins acc None t st = Ok \<lparr>denom = d, amount =
    (if t < start * NANOS then 0
     else if (start + num_periods spec * period_seconds spec) * NANOS < t then amount (acc_coin acc)
     else amount (acc_coin acc) div num_periods spec * ((t - start * NANOS) div (period_seconds spec * NANOS)))\<rparr>"
proof -
  let ?ps = "acc_periods acc" and ?n = "num_periods spec" and ?s = "period_seconds spec"
  let ?q = "(t - start * NANOS) div (?s * NANOS)"
  note ps = populate_periods [OF periods]
  have len: "length ?ps = ?n" and ne: "?ps \<noteq> []" using n(1) by (simp_all add: ps)
  have hd: "vp_start_time (hd ?ps) = start" using n(1) by (simp add: ps hd_map)
  have ends: "period_end p \<le> (start + ?n * ?s) * NANOS" if "p \<in> set ?ps" for p
  proof -
    from that obtain i where "i < ?n" and p: "p = \<lparr>vp_start_time = start + i * ?s, vp_period_seconds = ?s\<rparr>" by (auto simp: ps)
    then have "i * ?s + ?s \<le> ?n * ?s" using mult_le_mono1 [of "Suc i" ?n ?s] by simp
    then show ?thesis by (simp add: p period_end_def)
  qed
  have last: "period_end (last ?ps) = (start + ?n * ?s) * NANOS"
    using n(1) by (cases ?n) (simp_all add: ps period_end_def algebra_simps)
  have fit: "period_end p \<le> u64_max" if "p \<in> set ?ps" for p using ends [OF that] fits(1) by simp
  have before: "timestamp_seconds t < start \<longleftrightarrow> t < start * NANOS"
    by (simp add: timestamp_seconds_def div_less_iff_less_mult)
  have period: "get_current_vesting_period acc t = Ok (if t < start * NANOS then Before
      else if (start + ?n * ?s) * NANOS < t then After else In (min ?n ?q))"
    using fits(1) fit ne last ended_periods [OF periods s, of t]
    by (auto simp: get_current_vesting_period_def hd before vp_end_time_eq period_index_total)
  have q: "?q \<le> ?n" if "t \<le> (start + ?n * ?s) * NANOS"
  proof -
    have "t - start * NANOS \<le> ?n * (?s * NANOS)" using that by (simp add: algebra_simps)
    then have "?q \<le> ?n * (?s * NANOS) div (?s * NANOS)" by (rule div_le_mono)
    then show ?thesis using s by simp
  qed
  have mul: "amount (acc_coin acc) div ?n * k \<le> u128_max" if "k \<le> ?n" for k
    using div_mult_length_le [OF that] fits(2) by (rule le_trans)
  show ?thesis
    using n q mul
    by (auto simp: get_vested_coins_def period load_denom_def load_item_def d tokens_per_period_def num_vesting_periods_def len
        Let_def uint128_mul_def min_absorb2)
qed

theorem vested_coins_schedule_witness:
  "get_vested_coins example_account None (115 * NANOS) example_start = Ok \<lparr>denom = ''unym'', amount = 333\<rparr>"
  using vested_coins_schedule [of example_spec 100 example_account example_start "''unym''" "115 * NANOS"]
  by (simp add: example_account_def example_spec_def example_start_def num_periods_def period_seconds_def
      populate_vesting_periods_def vesting_period_at_def u64_mul_def u64_add_def u64_max_def u128_max_def upt_rec)

text \<open>
  C20. Vesting is monotone. Of any account, what has vested at a later time is at least what had
  vested earlier and at most the original amount, and the coins still vesting are exactly the rest.
\<close>

theorem vested_coins_monotone:
  assumes "get_vested_coins acc (Some t) now st = Ok c" "get_vested_coins acc (Some t') now st = Ok c'" "t \<le> t'"
  shows "amount c \<le> amount c' \<and> amount c' \<le> amount (acc_coin acc)
    \<and> (\<exists>v. get_vesting_coins acc (Some t') now st = Ok v \<and> amount v + amount c' = amount (acc_coin acc))"
proof -
  have c: "amount c = vested_at acc t" "amount c' = vested_at acc t'" "acc_periods acc \<noteq> []"
    using get_vested_coins_Ok [OF assms(1)] get_vested_coins_Ok [OF assms(2)] by simp_all
  obtain d where "MIX_DENOM st = Some d"
    using assms(1) by (auto simp: get_vested_coins_def pbind_eq_Inr load_denom_Ok Let_def)
  then have "get_vesting_coins acc (Some t') now st = Ok \<lparr>denom = d, amount = amount (acc_coin acc) - amount c'\<rparr>"
    using c assms(2) vested_at_le [of acc t']
    by (cases "acc_periods acc") (simp_all add: get_vesting_coins_def get_original_vesting_def period_duration_def
        uint128_sub_def load_denom_def load_item_def)
  with c assms(3) show ?thesis by (simp add: vested_at_mono vested_at_le)
qed

lemmas schedule_eval = get_vesting_coins_def get_original_vesting_def period_duration_def uint128_sub_def uint128_mul_def
  get_vested_coins_def get_current_vesting_period_def vp_end_time_eq period_end_def timestamp_seconds_def tokens_per_period_def
  num_vesting_periods_def load_denom_def load_item_def u64_max_def u128_max_def

theorem vested_coins_monotone_witness:
  "\<exists>v. get_vesting_coins example_account (Some (125 * NANOS)) 0 example_start = Ok v \<and> amount v + 666 = 1000"
proof -
  have "get_vested_coins example_account (Some (115 * NANOS)) 0 example_start = Ok \<lparr>denom = ''unym'', amount = 333\<rparr>"
    "get_vested_coins example_account (Some (125 * NANOS)) 0 example_start = Ok \<lparr>denom = ''unym'', amount = 666\<rparr>"
    by (simp_all add: schedule_eval example_account_def example_start_def)
  from vested_coins_monotone [OF this] show ?thesis by (simp add: example_account_def)
qed

end
