(* ===== verification/Vesting_Queries.thy ===== *)
theory Vesting_Queries
  imports Vesting_Contract
begin

text \<open>
  The queries of the vesting contract, \<open>contracts/vesting/src/queries.rs\<close>, and their dispatch. A
  query reads the state and leaves it as it is; its answer is the value the contract serialises.
  The two version queries, whose answers are constants of the build, are left out.
\<close>

section \<open>Responses\<close>

record BaseVestingAccountInfo =
  bi_account_id :: nat
  bi_owner :: Addr

record AccountsResponse =
  ar_accounts :: "BaseVestingAccountInfo list"
  ar_start_next_after :: "Addr option"

record AccountVestingCoins =
  vc_account_id :: nat
  vc_owner :: Addr
  vc_still_vesting :: Coin

record VestingCoinsResponse =
  vr_accounts :: "AccountVestingCoins list"
  vr_start_next_after :: "Addr option"

record VestingDelegation =
  vd_account_id :: nat
  vd_mix_id :: MixId
  vd_block_timestamp :: nat
  vd_amount :: nat

definition vd_storage_key :: "VestingDelegation \<Rightarrow> nat \<times> MixId \<times> nat" where
  "vd_storage_key self = (vd_account_id self, vd_mix_id self, vd_block_timestamp self)"

record DelegationTimesResponse =
  dt_owner :: Addr
  dt_account_id :: nat
  dt_mix_id :: MixId
  dt_delegation_timestamps :: "nat list"

record AllDelegationsResponse =
  ad_delegations :: "VestingDelegation list"
  ad_start_next_after :: "(nat \<times> MixId \<times> nat) option"

section \<open>Queries of one account\<close>

definition try_get_current_vesting_period :: "cosmwasm \<Rightarrow> string \<Rightarrow> nat \<Rightarrow> vesting_state \<Rightarrow> Period vresult" where
  "try_get_current_vesting_period api address env_time st =
     pbind (account_from_address api address st) (\<lambda>account. get_current_vesting_period account env_time)"

definition try_get_mixnode :: "cosmwasm \<Rightarrow> string \<Rightarrow> vesting_state \<Rightarrow> PledgeData option vresult" where
  "try_get_mixnode api address st =
     pbind (account_from_address api address st) (\<lambda>account. Ok (load_bond_pledge (acc_storage_key account) st))"

definition try_get_gateway :: "cosmwasm \<Rightarrow> string \<Rightarrow> vesting_state \<Rightarrow> PledgeData option vresult" where
  "try_get_gateway api address st =
     pbind (account_from_address api address st) (\<lambda>account. Ok (load_gateway_pledge (acc_storage_key account) st))"

definition try_get_account :: "cosmwasm \<Rightarrow> string \<Rightarrow> vesting_state \<Rightarrow> Account vresult" where
  "try_get_account api address st = account_from_address api address st"

definition try_get_locked_coins :: "cosmwasm \<Rightarrow> string \<Rightarrow> nat option \<Rightarrow> nat \<Rightarrow> vesting_state \<Rightarrow> Coin vresult" where
  "try_get_locked_coins api address block_time env_time st =
     pbind (account_from_address api address st) (\<lambda>account. locked_coins account block_time env_time st)"

definition try_get_spendable_coins :: "cosmwasm \<Rightarrow> string \<Rightarrow> nat option \<Rightarrow> nat \<Rightarrow> vesting_state \<Rightarrow> Coin vresult" where
  "try_get_spendable_coins api address block_time env_time st =
     pbind (account_from_address api address st) (\<lambda>account. spendable_coins account block_time env_time st)"

definition try_get_vested_coins :: "cosmwasm \<Rightarrow> string \<Rightarrow> nat option \<Rightarrow> nat \<Rightarrow> vesting_state \<Rightarrow> Coin vresult" where
  "try_get_vested_coins api address block_time env_time st =
     pbind (account_from_address api address st) (\<lambda>account. get_vested_coins account block_time env_time st)"

definition try_get_vesting_coins :: "cosmwasm \<Rightarrow> string \<Rightarrow> nat option \<Rightarrow> nat \<Rightarrow> vesting_state \<Rightarrow> Coin vresult" where
  "try_get_vesting_coins api address block_time env_time st =
     pbind (account_from_address api address st) (\<lambda>account. get_vesting_coins account block_time env_time st)"

definition try_get_start_time :: "cosmwasm \<Rightarrow> string \<Rightarrow> vesting_state \<Rightarrow> nat vresult" where
  "try_get_start_time api address st =
     pbind (account_from_address api address st) (\<lambda>account. Ok (get_start_time account))"

definition try_get_end_time :: "cosmwasm \<Rightarrow> string \<Rightarrow> vesting_state \<Rightarrow> nat vresult" where
  "try_get_end_time api address st =
     pbind (account_from_address api address st) (\<lambda>account. panicking (get_end_time account))"

definition try_get_original_vesting :: "cosmwasm \<Rightarrow> string \<Rightarrow> vesting_state \<Rightarrow> (Coin \<times> nat \<times> nat) vresult" where
  "try_get_original_vesting api address st =
     pbind (account_from_address api address st) (\<lambda>account. Some (get_original_vesting account))"

definition try_get_historical_vesting_staking_reward :: "cosmwasm \<Rightarrow> string \<Rightarrow> vesting_state \<Rightarrow> Coin vresult" where
  "try_get_historical_vesting_staking_reward api address st =
     pbind (account_from_address api address st) (\<lambda>account. get_historical_vested_staking_rewards account st)"

definition try_get_spendable_vested_coins :: "cosmwasm \<Rightarrow> string \<Rightarrow> nat \<Rightarrow> vesting_state \<Rightarrow> Coin vresult" where
  "try_get_spendable_vested_coins api address env_time st =
     pbind (account_from_address api address st) (\<lambda>account. spendable_vested_coins account None env_time st)"

definition try_get_spendable_reward_coins :: "cosmwasm \<Rightarrow> string \<Rightarrow> nat \<Rightarrow> vesting_state \<Rightarrow> Coin vresult" where
  "try_get_spendable_reward_coins api address env_time st =
     pbind (account_from_address api address st) (\<lambda>account. spendable_reward_coins account None env_time st)"

definition try_get_delegated_coins :: "cosmwasm \<Rightarrow> string \<Rightarrow> vesting_state \<Rightarrow> Coin vresult" where
  "try_get_delegated_coins api address st =
     pbind (account_from_address api address st) (\<lambda>account.
     pbind (load_denom st) (\<lambda>d.
     pbind (panicking (total_delegations account st)) (\<lambda>a. Ok \<lparr>denom = d, amount = a\<rparr>)))"

definition try_get_pledged_coins :: "cosmwasm \<Rightarrow> string \<Rightarrow> vesting_state \<Rightarrow> Coin vresult" where
  "try_get_pledged_coins api address st =
     pbind (account_from_address api address st) (\<lambda>account.
     pbind (load_denom st) (\<lambda>d. Ok \<lparr>denom = d, amount = total_pledged account st\<rparr>))"

definition try_get_staked_coins :: "cosmwasm \<Rightarrow> string \<Rightarrow> vesting_state \<Rightarrow> Coin vresult" where
  "try_get_staked_coins api address st =
     pbind (account_from_address api address st) (\<lambda>account.
     pbind (load_denom st) (\<lambda>d.
     pbind (panicking (total_staked account st)) (\<lambda>a. Ok \<lparr>denom = d, amount = a\<rparr>)))"

definition try_get_withdrawn_coins :: "cosmwasm \<Rightarrow> string \<Rightarrow> vesting_state \<Rightarrow> Coin vresult" where
  "try_get_withdrawn_coins api address st =
     pbind (account_from_address api address st) (\<lambda>account.
     pbind (load_denom st) (\<lambda>d. Ok \<lparr>denom = d, amount = load_withdrawn (acc_storage_key account) st\<rparr>))"

definition try_get_delegation_times :: "cosmwasm \<Rightarrow> string \<Rightarrow> MixId \<Rightarrow> vesting_state \<Rightarrow> DelegationTimesResponse vresult" where
  "try_get_delegation_times api address mix_id st =
     pbind (validate_addr api address) (\<lambda>owner.
     pbind (account_from_address api address st) (\<lambda>account.
     Ok \<lparr>dt_owner = owner, dt_account_id = acc_storage_key account, dt_mix_id = mix_id,
         dt_delegation_timestamps = load_delegation_timestamps (acc_storage_key account) mix_id st\<rparr>))"

definition try_get_delegation ::
    "cosmwasm \<Rightarrow> string \<Rightarrow> MixId \<Rightarrow> nat \<Rightarrow> vesting_state \<Rightarrow> VestingDelegation vresult" where
  "try_get_delegation api address mix_id block_timestamp_secs st =
     pbind (account_from_address api address st) (\<lambda>account.
     let storage_key = (acc_storage_key account, mix_id, block_timestamp_secs) in
     pbind (load_item (map_of (DELEGATIONS st) storage_key) ''delegation'') (\<lambda>delegation_amount.
     Ok \<lparr>vd_account_id = acc_storage_key account, vd_mix_id = mix_id,
         vd_block_timestamp = block_timestamp_secs, vd_amount = delegation_amount\<rparr>))"

definition try_get_delegation_amount :: "cosmwasm \<Rightarrow> string \<Rightarrow> MixId \<Rightarrow> vesting_state \<Rightarrow> Coin vresult" where
  "try_get_delegation_amount api address mix_id st =
     pbind (account_from_address api address st) (\<lambda>account.
     pbind (panicking (delegations_where (\<lambda>(k, m, t). k = acc_storage_key account \<and> m = mix_id) st)) (\<lambda>a.
     pbind (load_denom st) (\<lambda>d. Ok \<lparr>denom = d, amount = a\<rparr>)))"

section \<open>Paged queries\<close>

definition start_bound :: "cosmwasm \<Rightarrow> string option \<Rightarrow> Addr option vresult" where
  "start_bound api start_after =
     (case start_after of None \<Rightarrow> Ok None | Some raw \<Rightarrow> pbind (validate_addr api raw) (\<lambda>a. Ok (Some a)))"

definition page_limit :: "nat option \<Rightarrow> nat \<Rightarrow> nat \<Rightarrow> nat" where
  "page_limit limit standard maximum = min (case limit of Some l \<Rightarrow> l | None \<Rightarrow> standard) maximum"

text \<open>\<open>accounts.last().map(\<dots>)\<close>\<close>

definition last_map :: "('a \<Rightarrow> 'b) \<Rightarrow> 'a list \<Rightarrow> 'b option" where
  "last_map f xs = (if xs = [] then None else Some (f (last xs)))"

definition try_get_all_accounts :: "cosmwasm \<Rightarrow> string option \<Rightarrow> nat option \<Rightarrow> vesting_state \<Rightarrow> AccountsResponse vresult" where
  "try_get_all_accounts api start_after limit st =
     (let limit = page_limit limit 150 250 in
      pbind (start_bound api start_after) (\<lambda>start.
      let accounts = map (\<lambda>(_, account). \<lparr>bi_account_id = acc_storage_key account, bi_owner = acc_owner_address account\<rparr>)
            (take limit (kv_after start (ACCOUNTS st))) in
      Ok \<lparr>ar_accounts = accounts, ar_start_next_after = last_map bi_owner accounts\<rparr>))"

text \<open>Collecting the results of a fallible function, up to the first failure or panic.\<close>

fun collect_results :: "('a \<Rightarrow> ('e + 'b) option) \<Rightarrow> 'a list \<Rightarrow> ('e + 'b list) option" where
  "collect_results f [] = Ok []"
| "collect_results f (x # xs) = pbind (f x) (\<lambda>y. pbind (collect_results f xs) (\<lambda>ys. Ok (y # ys)))"

definition try_get_all_accounts_vesting_coins ::
    "cosmwasm \<Rightarrow> nat \<Rightarrow> string option \<Rightarrow> nat option \<Rightarrow> vesting_state \<Rightarrow> VestingCoinsResponse vresult" where
  "try_get_all_accounts_vesting_coins api env_time start_after limit st =
     (let limit = page_limit limit 150 250 in
      pbind (start_bound api start_after) (\<lambda>start.
      pbind (collect_results (\<lambda>(_, account).
               pbind (get_vesting_coins account None env_time st) (\<lambda>still_vesting.
               Ok \<lparr>vc_account_id = acc_storage_key account, vc_owner = acc_owner_address account,
                   vc_still_vesting = still_vesting\<rparr>))
             (take limit (kv_after start (ACCOUNTS st)))) (\<lambda>accounts.
      Ok \<lparr>vr_accounts = accounts, vr_start_next_after = last_map vc_owner accounts\<rparr>)))"

definition try_get_all_delegations ::
    "(nat \<times> MixId \<times> nat) option \<Rightarrow> nat option \<Rightarrow> vesting_state \<Rightarrow> AllDelegationsResponse vresult" where
  "try_get_all_delegations start_after limit st =
     (let limit = page_limit limit 100 200;
          delegations = map (\<lambda>((account_id, mix_id, block_timestamp), a).
              \<lparr>vd_account_id = account_id, vd_mix_id = mix_id, vd_block_timestamp = block_timestamp, vd_amount = a\<rparr>)
            (kv_after start_after (DELEGATIONS st)) in
      Ok \<lparr>ad_delegations = delegations,
          ad_start_next_after = (if length delegations < limit then None else last_map vd_storage_key delegations)\<rparr>)"

section \<open>Dispatch\<close>

datatype QueryMsg =
    GetAccountsPaged "string option" "nat option"
  | GetAccountsVestingCoinsPaged "string option" "nat option"
  | LockedCoins string "nat option"
  | SpendableCoins string "nat option"
  | GetVestedCoins string "nat option"
  | GetVestingCoins string "nat option"
  | GetStartTime string
  | GetEndTime string
  | GetOriginalVesting string
  | GetHistoricalVestingStakingReward string
  | GetSpendableVestedCoins string
  | GetSpendableRewardCoins string
  | GetDelegatedCoins string
  | GetPledgedCoins string
  | GetStakedCoins string
  | GetWithdrawnCoins string
  | GetAccount string
  | GetMixnode string
  | GetGateway string
  | GetCurrentVestingPeriod string
  | GetDelegation string MixId nat
  | GetTotalDelegationAmount string MixId
  | GetDelegationTimes string MixId
  | GetAllDelegations "(nat \<times> MixId \<times> nat) option" "nat option"

datatype QueryValue =
    AccountsValue AccountsResponse
  | VestingCoinsValue VestingCoinsResponse
  | CoinValue Coin
  | TimestampValue nat
  | OriginalVestingValue Coin nat nat
  | AccountValue Account
  | PledgeValue "PledgeData option"
  | PeriodValue Period
  | DelegationValue VestingDelegation
  | DelegationTimesValue DelegationTimesResponse
  | AllDelegationsValue AllDelegationsResponse

definition answer :: "('a \<Rightarrow> QueryValue) \<Rightarrow> 'a vresult \<Rightarrow> QueryValue vresult" where
  "answer f r = pbind r (\<lambda>x. Ok (f x))"

fun query :: "cosmwasm \<Rightarrow> nat \<Rightarrow> QueryMsg \<Rightarrow> vesting_state \<Rightarrow> QueryValue vresult" where
  "query api env_time (GetAccountsPaged start_next_after limit) st =
     answer AccountsValue (try_get_all_accounts api start_next_after limit st)"
| "query api env_time (GetAccountsVestingCoinsPaged start_next_after limit) st =
     answer VestingCoinsValue (try_get_all_accounts_vesting_coins api env_time start_next_after limit st)"
| "query api env_time (LockedCoins a block_time) st = answer CoinValue (try_get_locked_coins api a block_time env_time st)"
| "query api env_time (SpendableCoins a block_time) st = answer CoinValue (try_get_spendable_coins api a block_time env_time st)"
| "query api env_time (GetVestedCoins a block_time) st = answer CoinValue (try_get_vested_coins api a block_time env_time st)"
| "query api env_time (GetVestingCoins a block_time) st = answer CoinValue (try_get_vesting_coins api a block_time env_time st)"
| "query api env_time (GetStartTime a) st = answer TimestampValue (try_get_start_time api a st)"
| "query api env_time (GetEndTime a) st = answer TimestampValue (try_get_end_time api a st)"
| "query api env_time (GetOriginalVesting a) st =
     answer (\<lambda>(c, n, d). OriginalVestingValue c n d) (try_get_original_vesting api a st)"
| "query api env_time (GetHistoricalVestingStakingReward a) st =
     answer CoinValue (try_get_historical_vesting_staking_reward api a st)"
| "query api env_time (GetSpendableVestedCoins a) st = answer CoinValue (try_get_spendable_vested_coins api a env_time st)"
| "query api env_time (GetSpendableRewardCoins a) st = answer CoinValue (try_get_spendable_reward_coins api a env_time st)"
| "query api env_time (GetDelegatedCoins a) st = answer CoinValue (try_get_delegated_coins api a st)"
| "query api env_time (GetPledgedCoins a) st = answer CoinValue (try_get_pledged_coins api a st)"
| "query api env_time (GetStakedCoins a) st = answer CoinValue (try_get_staked_coins api a st)"
| "query api env_time (GetWithdrawnCoins a) st = answer CoinValue (try_get_withdrawn_coins api a st)"
| "query api env_time (GetAccount a) st = answer AccountValue (try_get_account api a st)"
| "query api env_time (GetMixnode a) st = answer PledgeValue (try_get_mixnode api a st)"
| "query api env_time (GetGateway a) st = answer PledgeValue (try_get_gateway api a st)"
| "query api env_time (GetCurrentVestingPeriod a) st = answer PeriodValue (try_get_current_vesting_period api a env_time st)"
| "query api env_time (GetDelegation a mix_id t) st = answer DelegationValue (try_get_delegation api a mix_id t st)"
| "query api env_time (GetTotalDelegationAmount a mix_id) st = answer CoinValue (try_get_delegation_amount api a mix_id st)"
| "query api env_time (GetDelegationTimes a mix_id) st = answer DelegationTimesValue (try_get_delegation_times api a mix_id st)"
| "query api env_time (GetAllDelegations start_after limit) st =
     answer AllDelegationsValue (try_get_all_delegations start_after limit st)"

end
