(* ===== verification/Vesting_Safety.thy ===== *)
theory Vesting_Safety
  imports Vesting_Schedule Vesting_Queries
begin

text \<open>
  Runs of the vesting contract and what holds in all of them: the invariant of the storage, that
  the contract can always pay what it owes, that the unvested part of a grant is never withdrawn,
  and who may do what. Nothing is assumed of what the mixnet contract reports.
\<close>

section \<open>Runs\<close>

text \<open>The amount that the mixnet contract sends along with its tracking messages.\<close>

fun returned :: "ExecuteMsg \<Rightarrow> nat" where
  "returned (TrackReward a _) = amount a"
| "returned (TrackUndelegation _ _ a) = amount a"
| "returned (TrackUnbondMixnode _ a) = amount a"
| "returned (TrackDecreasePledge _ a) = amount a"
| "returned (TrackUnbondGateway _ a) = amount a"
| "returned _ = 0"

text \<open>
  The stake of account \<open>k\<close> that a tracking message clears from the records, and the part of it
  that does not come back with the message. The mixnet contract does not promise that this part
  is zero: it reports only the latest delegation when the node is unbonding, while the records of
  all delegations to that node are cleared.
\<close>

fun cleared_stake :: "cosmwasm \<Rightarrow> vesting_state \<Rightarrow> ExecuteMsg \<Rightarrow> nat \<Rightarrow> nat" where
  "cleared_stake api st (TrackUndelegation owner mix_id a) k =
     (case account_from_address api owner st of
        Some (Inr acc) \<Rightarrow> if acc_storage_key acc = k then delegated_where (of_mix k mix_id) st else 0
      | _ \<Rightarrow> 0)"
| "cleared_stake api st (TrackUnbondMixnode owner a) k =
     (case account_from_address api owner st of
        Some (Inr acc) \<Rightarrow> if acc_storage_key acc = k then pledge_amount (BOND_PLEDGES st k) else 0
      | _ \<Rightarrow> 0)"
| "cleared_stake api st (TrackUnbondGateway owner a) k =
     (case account_from_address api owner st of
        Some (Inr acc) \<Rightarrow> if acc_storage_key acc = k then pledge_amount (GATEWAY_PLEDGES st k) else 0
      | _ \<Rightarrow> 0)"
| "cleared_stake api st _ k = 0"

definition kept_back :: "cosmwasm \<Rightarrow> vesting_state \<Rightarrow> ExecuteMsg \<Rightarrow> nat \<Rightarrow> nat" where
  "kept_back api st msg k = cleared_stake api st msg k - returned msg"

definition bank_after :: "vesting_state \<Rightarrow> MessageInfo \<Rightarrow> ExecuteMsg \<Rightarrow> CosmosMsg list \<Rightarrow> nat \<Rightarrow> nat" where
  "bank_after st info msg ms bank =
     (case MIX_DENOM st of
        Some d \<Rightarrow> bank + coins_in d (funds info) + returned msg - coins_out d ms
      | None \<Rightarrow> bank)"

text \<open>
  \<open>vesting_run api st bank now\<close>: after some calls since its instantiation the contract is in state
  \<open>st\<close>, holds \<open>bank\<close> coins of its denomination, and the time of the last block is \<open>now\<close>. A failed
  call changes nothing.
\<close>

inductive vesting_run :: "cosmwasm \<Rightarrow> vesting_state \<Rightarrow> nat \<Rightarrow> nat \<Rightarrow> bool" for api where
  start: "instantiate api info msg empty_state = Ok (st, ms) \<Longrightarrow> vesting_run api st 0 now"
| call: "\<lbrakk>vesting_run api st bank now; now \<le> t; execute api t info msg st = Ok (st', ms)\<rbrakk>
    \<Longrightarrow> vesting_run api st' (bank_after st info msg ms bank) t"

text \<open>
  \<open>staking_run api st kept now\<close>: the same runs, with what the mixnet contract kept of the stake of
  each account so far.
\<close>

inductive staking_run :: "cosmwasm \<Rightarrow> vesting_state \<Rightarrow> (nat \<Rightarrow> nat) \<Rightarrow> nat \<Rightarrow> bool" for api where
  start: "instantiate api info msg empty_state = Ok (st, ms) \<Longrightarrow> staking_run api st (\<lambda>_. 0) now"
| call: "\<lbrakk>staking_run api st kept now; now \<le> t; execute api t info msg st = Ok (st', ms)\<rbrakk>
    \<Longrightarrow> staking_run api st' (\<lambda>k. kept k + kept_back api st msg k) t"

definition total_free :: "vesting_state \<Rightarrow> nat" where
  "total_free st = (\<Sum>k\<le>last_key st. load_balance k st)"

text \<open>What the contract holds of an account, free or staked.\<close>

definition cover :: "vesting_state \<Rightarrow> nat \<Rightarrow> nat" where
  "cover st k = free (book_of st) k + staked (book_of st) k"

text \<open>What is still vesting of every account is in the contract, staked, or was kept by the mixnet contract.\<close>

definition grants_covered :: "vesting_state \<Rightarrow> (nat \<Rightarrow> nat) \<Rightarrow> nat \<Rightarrow> bool" where
  "grants_covered st kept t \<longleftrightarrow> (\<forall>e \<in> set (ACCOUNTS st).
     amount (acc_coin (snd e)) - vested_at (snd e) t \<le> cover st (acc_storage_key (snd e)) + kept (acc_storage_key (snd e)))"

section \<open>The invariant and the money of the contract\<close>

lemma instantiate_Ok:
  "instantiate api info msg empty_state = Ok (st, ms) \<Longrightarrow> vesting_inv st \<and> ACCOUNTS st = [] \<and> total_free st = 0
     \<and> MIX_DENOM st = Some (im_mix_denom msg) \<and> ADMIN st = Some (sender info)"
  by (auto simp: instantiate_def pbind_eq_Inr empty_state_def vesting_inv_def accounts_ok_def unused_def last_key_def
      total_free_def load_balance_def)

lemma total_free_wide:
  assumes "vesting_inv st" "last_key st \<le> n"
  shows "total_free st = (\<Sum>k\<le>n. load_balance k st)"
  unfolding total_free_def
proof (rule sum.mono_neutral_left)
  show "\<forall>k \<in> {..n} - {..last_key st}. load_balance k st = 0"
    using assms(1) unused_book(1) by (auto simp: vesting_inv_def)
qed (use assms(2) in auto)

fun action_key :: "action \<Rightarrow> nat" where
  "action_key Idle = 0"
| "action_key (Open k _) = k"
| "action_key (Stake k _) = k"
| "action_key (Pay k _) = k"
| "action_key (Settle k _ _) = k"

lemma sum_update:
  fixes f :: "nat \<Rightarrow> nat"
  assumes "k \<le> n" "g = f(k := v)" "v + x = f k + y"
  shows "(\<Sum>j\<le>n. g j) + x = (\<Sum>j\<le>n. f j) + y"
  using assms sum.remove [of "{..n}" k g] sum.remove [of "{..n}" k f] by simp

lemma book_step_free:
  assumes "book_step act b = Some b'" "action_key act \<le> n"
  shows "(\<Sum>k\<le>n. free b' k) + outgoing act = (\<Sum>k\<le>n. free b k) + incoming act"
proof (cases act)
  case Idle
  with assms show ?thesis by simp
next
  case (Open k v)
  with assms show ?thesis by (intro sum_update [of k]) (auto split: if_splits)
next
  case (Stake k v)
  with assms show ?thesis by (intro sum_update [of k]) (auto split: if_splits)
next
  case (Pay k v)
  with assms show ?thesis by (intro sum_update [of k]) (auto split: if_splits)
next
  case (Settle k s v)
  with assms show ?thesis by (intro sum_update [of k]) (auto split: if_splits)
qed

lemma realises_free:
  assumes "vesting_inv st" "realises act st st' ms"
  shows "total_free st' + outgoing act = total_free st + incoming act"
proof -
  let ?n = "last_key st + last_key st' + action_key act"
  have "total_free st' = (\<Sum>k\<le>?n. load_balance k st')" "total_free st = (\<Sum>k\<le>?n. load_balance k st)"
    using assms by (intro total_free_wide; simp add: realises_def)+
  then show ?thesis using assms book_step_free [of act "book_of st" "book_of st'" ?n] by (simp add: realises_def)
qed

lemma execute_incoming:
  assumes "vesting_inv st" "execute api t info msg st = Ok (st', ms)" "MIX_DENOM st = Some d"
  shows "\<exists>act. action_for msg act \<and> realises act st st' ms \<and> incoming act \<le> coins_in d (funds info) + returned msg"
proof (cases "\<exists>a b c e. msg = CreateAccount a b c e")
  case True
  with create_realises [OF assms(1)] assms(2,3) show ?thesis by (fastforce simp: coins_in_single)
next
  case False
  from execute_realises [OF assms(1,2)] obtain act where "action_for msg act" "realises act st st' ms" by blast
  moreover have "incoming act \<le> returned msg" using False \<open>action_for msg act\<close> by (cases msg) auto
  ultimately show ?thesis using trans_le_add2 by blast
qed

lemma execute_solvent:
  assumes "vesting_inv st" "execute api t info msg st = Ok (st', ms)" "MIX_DENOM st = Some d" "total_free st \<le> bank"
  shows "vesting_inv st' \<and> MIX_DENOM st' = Some d \<and> ADMIN st' = ADMIN st \<and> coins_out d ms \<le> bank
    \<and> total_free st' \<le> bank_after st info msg ms bank"
proof -
  obtain act where act: "action_for msg act" "realises act st st' ms" "incoming act \<le> coins_in d (funds info) + returned msg"
    using execute_incoming [OF assms(1-3)] by blast
  have sum: "total_free st' + outgoing act = total_free st + incoming act" by (rule realises_free [OF assms(1) act(2)])
  have out: "coins_out d ms = outgoing act" using act(2) assms(3) by (simp add: realises_def)
  have "outgoing act \<le> total_free st"
  proof (cases "incoming act = 0")
    case True
    then show ?thesis using sum by simp
  next
    case False
    then have "outgoing act = 0" by (cases act) auto
    then show ?thesis by simp
  qed
  then have "coins_out d ms \<le> bank" using assms(4) out by simp
  moreover have "total_free st' \<le> bank_after st info msg ms bank"
    using sum out assms(3,4) act(3) by (simp add: bank_after_def)
  ultimately show ?thesis using act(2) assms(3) by (simp add: realises_def)
qed

lemma vesting_run_inv:
  "vesting_run api st bank now \<Longrightarrow> vesting_inv st \<and> total_free st \<le> bank \<and> (\<exists>d. MIX_DENOM st = Some d)"
proof (induction rule: vesting_run.induct)
  case (start info msg st ms now)
  from instantiate_Ok [OF start] show ?case by simp
next
  case (call st bank now t info msg st' ms)
  with execute_solvent [OF _ call(3)] show ?case by blast
qed

lemma staking_run_vesting_run: "staking_run api st kept now \<Longrightarrow> \<exists>bank. vesting_run api st bank now"
  by (induction rule: staking_run.induct) (blast intro: vesting_run.intros)+

lemma staking_run_inv: "staking_run api st kept now \<Longrightarrow> vesting_inv st"
  using staking_run_vesting_run vesting_run_inv by blast

section \<open>Grants\<close>

text \<open>The action gives back the stake it clears, up to \<open>kb\<close>.\<close>

fun settles_within :: "(nat \<Rightarrow> nat) \<Rightarrow> action \<Rightarrow> bool" where
  "settles_within kb (Settle k s n) \<longleftrightarrow> s \<le> n + kb k"
| "settles_within kb _ \<longleftrightarrow> True"

lemma cover_step:
  assumes "book_step act (book_of st) = Some (book_of st')" "settles_within kb act" "\<forall>n. act \<noteq> Pay k n"
  shows "cover st k \<le> cover st' k + kb k"
proof -
  obtain b b' where b: "b = book_of st" "b' = book_of st'" by simp
  have "free b k + staked b k \<le> free b' k + staked b' k + kb k"
    using assms unfolding b [symmetric] by (cases act) (auto split: if_splits)
  then show ?thesis by (simp only: cover_def b)
qed

lemma vested_at_same_grant: "same_grant acc acc' \<Longrightarrow> vested_at acc' t = vested_at acc t"
  by (simp add: same_grant_def vested_at_def Let_def)

lemma grants_covered_step:
  assumes cov: "grants_covered st kept now" and t: "now \<le> t" and r: "realises act st st' ms" and s: "settles_within kb act"
    and pay: "\<And>k n e. act = Pay k n \<Longrightarrow> e \<in> set (ACCOUNTS st) \<Longrightarrow> acc_storage_key (snd e) = k \<Longrightarrow>
      amount (acc_coin (snd e)) - vested_at (snd e) t \<le> cover st' k + kept k"
  shows "grants_covered st' (\<lambda>k. kept k + kb k) t"
  unfolding grants_covered_def
proof
  fix e' assume e': "e' \<in> set (ACCOUNTS st')"
  have step: "book_step act (book_of st) = Some (book_of st')" using r by (simp add: realises_def)
  let ?k = "acc_storage_key (snd e')"
  show "amount (acc_coin (snd e')) - vested_at (snd e') t \<le> cover st' ?k + (kept ?k + kb ?k)"
  proof (cases "act = Open ?k (amount (acc_coin (snd e')))")
    case True
    then have "book_of st' = (book_of st)\<lparr>free := (free (book_of st))(?k := amount (acc_coin (snd e')))\<rparr>"
      using step by (simp split: if_splits)
    then show ?thesis by (simp only: cover_def) simp
  next
    case False
    with e' r obtain e where e: "e \<in> set (ACCOUNTS st)" "same_grant (snd e) (snd e')"
      unfolding realises_def grants_from_def by blast
    have k: "acc_storage_key (snd e) = ?k" "acc_coin (snd e) = acc_coin (snd e')" using e(2) by (simp_all add: same_grant_def)
    show ?thesis
    proof (cases "\<exists>n. act = Pay ?k n")
      case True
      then have "amount (acc_coin (snd e)) - vested_at (snd e) t \<le> cover st' ?k + kept ?k" using pay e(1) k(1) by blast
      then show ?thesis using k(2) vested_at_same_grant [OF e(2)] by simp
    next
      case False
      have "amount (acc_coin (snd e)) - vested_at (snd e) now \<le> cover st ?k + kept ?k"
        using cov e(1) k(1) unfolding grants_covered_def by metis
      moreover have "cover st ?k \<le> cover st' ?k + kb ?k" using cover_step [OF step s] False by blast
      ultimately show ?thesis
        using vested_at_mono [OF t, of "snd e"] vested_at_same_grant [OF e(2)] k(2) by simp
    qed
  qed
qed

lemma execute_settles_within:
  assumes "vesting_inv st" "execute api t info msg st = Ok (st', ms)" "\<And>a. msg \<noteq> WithdrawVestedCoins a"
  shows "\<exists>act. realises act st st' ms \<and> settles_within (kept_back api st msg) act \<and> (\<forall>k n. act \<noteq> Pay k n)"
proof -
  note tr = track_realises [OF assms(1)]
  have settle: "\<exists>act. realises act st st' ms \<and> settles_within (kept_back api st msg) act \<and> (\<forall>k n. act \<noteq> Pay k n)"
    if "realises (Settle k s n) st st' ms" "s \<le> n + kept_back api st msg k" for k s n
    using that by (intro exI [of _ "Settle k s n"]) simp
  consider (und) x m a where "msg = TrackUndelegation x m a" | (mix) x a where "msg = TrackUnbondMixnode x a"
    | (gw) x a where "msg = TrackUnbondGateway x a"
    | (other) "\<And>x m a. msg \<noteq> TrackUndelegation x m a" "\<And>x a. msg \<noteq> TrackUnbondMixnode x a" "\<And>x a. msg \<noteq> TrackUnbondGateway x a"
    by blast
  then show ?thesis
  proof cases
    case und
    with assms(2) tr(3) [of api x m a info st' ms] show ?thesis by (auto simp: kept_back_def intro!: settle)
  next
    case mix
    with assms(2) tr(4) [of api x a info st' ms] show ?thesis by (auto simp: kept_back_def intro!: settle)
  next
    case gw
    with assms(2) tr(5) [of api x a info st' ms] show ?thesis by (auto simp: kept_back_def intro!: settle)
  next
    case other
    obtain act where act: "action_for msg act" "realises act st st' ms" using execute_realises [OF assms(1,2)] by blast
    have "settles_within (kept_back api st msg) act \<and> (\<forall>k n. act \<noteq> Pay k n)"
      using act(1) other assms(3) by (cases msg) auto
    with act(2) show ?thesis by blast
  qed
qed

text \<open>A withdrawal leaves the unvested part of the grant alone, whatever the mixnet contract kept.\<close>

lemma withdraw_leaves_unvested:
  assumes inv: "vesting_inv st" and w: "try_withdraw_vested_coins api c t info st = Ok (st', ms)"
    and acc: "account_from_address api (sender info) st = Ok acc"
  shows "0 < amount c \<Longrightarrow> amount (acc_coin acc) - vested_at acc t \<le> cover st' (acc_storage_key acc)"
    and "amount c = 0 \<Longrightarrow> cover st' (acc_storage_key acc) = cover st (acc_storage_key acc)"
proof -
  let ?k = "acc_storage_key acc"
  from w obtain nb and l :: Coin where l: "locked_coins acc None t st = Ok l" "amount c \<le> load_balance ?k st - amount l"
      "withdraw acc c st = Some (nb, st')"
    by (rule withdraw_Ok) (use acc in auto)
  have st': "load_balance ?k st' = load_balance ?k st - amount c" "staked (book_of st') ?k = staked (book_of st) ?k"
    using l(3) by (auto simp: withdraw_def bind_eq_Some_conv Let_def)
  then show "amount c = 0 \<Longrightarrow> cover st' ?k = cover st ?k" by (simp add: cover_def)
  have locked: "amount (acc_coin acc) - vested_at acc t \<le> amount l + staked (book_of st) ?k"
    using locked_coins_Ok [OF l(1)] by simp
  assume "0 < amount c"
  then have "amount l \<le> load_balance ?k st - amount c" using l(2) by linarith
  then show "amount (acc_coin acc) - vested_at acc t \<le> cover st' ?k" using locked st' unfolding cover_def by simp
qed

lemma withdraw_covered:
  assumes inv: "vesting_inv st" and w: "try_withdraw_vested_coins api c t info st = Ok (st', ms)"
    and cov: "grants_covered st kept now" "now \<le> t"
  shows "grants_covered st' (\<lambda>k. kept k + 0) t"
proof -
  obtain acc where acc: "account_from_address api (sender info) st = Ok acc"
    and r: "realises (Pay (acc_storage_key acc) (amount c)) st st' ms"
    using withdraw_realises [OF inv w] by blast
  let ?k = "acc_storage_key acc"
  have mem: "(acc_owner_address acc, acc) \<in> set (ACCOUNTS st)"
    by (rule account_from_address_Ok(1) [OF inv_accounts_ok [OF inv] acc])
  have "amount (acc_coin acc) - vested_at acc now \<le> cover st ?k + kept ?k"
    using cov(1) mem unfolding grants_covered_def by force
  then have "amount (acc_coin acc) - vested_at acc t \<le> cover st' ?k + kept ?k"
    using withdraw_leaves_unvested [OF inv w acc] vested_at_mono [OF cov(2), of acc] by (cases "amount c = 0") linarith+
  moreover have "snd e = acc" if "e \<in> set (ACCOUNTS st)" "acc_storage_key (snd e) = ?k" for e
    using inv that mem inj_onD [of "\<lambda>e. acc_storage_key (snd e)" "set (ACCOUNTS st)" e "(acc_owner_address acc, acc)"]
    by (auto simp: vesting_inv_def accounts_ok_def)
  ultimately show ?thesis by (intro grants_covered_step [OF cov r]) auto
qed

lemma execute_covered:
  assumes "vesting_inv st" "execute api t info msg st = Ok (st', ms)" "grants_covered st kept now" "now \<le> t"
  shows "grants_covered st' (\<lambda>k. kept k + kept_back api st msg k) t"
proof (cases "\<exists>a. msg = WithdrawVestedCoins a")
  case True
  with assms(2) withdraw_covered [OF assms(1) _ assms(3,4)] show ?thesis by (auto simp: kept_back_def)
next
  case False
  with execute_settles_within [OF assms(1,2)] obtain act where "realises act st st' ms"
    "settles_within (kept_back api st msg) act" "\<forall>k n. act \<noteq> Pay k n"
    by blast
  then show ?thesis by (intro grants_covered_step [OF assms(3,4)]) auto
qed

lemma staking_run_covered: "staking_run api st kept now \<Longrightarrow> grants_covered st kept now"
proof (induction rule: staking_run.induct)
  case (start info msg st ms now)
  from instantiate_Ok [OF start] show ?case by (simp add: grants_covered_def)
next
  case (call st kept now t info msg st' ms)
  then show ?case using execute_covered staking_run_inv by blast
qed

section \<open>Properties\<close>

definition example_api :: cosmwasm where
  "example_api = \<lparr>addr_validate = Inr, decimal_mul = (\<lambda>p n. Some (p * n div DECIMAL_ONE))\<rparr>"

definition example_created :: vesting_state where
  "example_created = example_start\<lparr>KEY := Some 1, ACCOUNTS := [(''owner'', example_account)], BALANCES := [1 \<mapsto> 1000]\<rparr>"

definition example_creation :: ExecuteMsg where
  "example_creation = CreateAccount ''owner'' None (Some example_spec) None"

abbreviation unym :: "nat \<Rightarrow> Coin" where "unym n \<equiv> \<lparr>denom = ''unym'', amount = n\<rparr>"

lemmas vesting_eval = example_api_def example_created_def example_creation_def example_start_def example_spec_def
  example_account_def empty_state_def ensure_admin_def load_admin_def account_exists_def account_from_address_def
  validate_addr_def validate_account_def load_account_def validate_funds_def num_periods_def period_seconds_def
  populate_vesting_periods_def vesting_period_at_def u64_mul_def u64_add_def u32_add_def u32_max_def
  timestamp_from_seconds_def save_new_def generate_storage_key_def save_account_def save_balance_def

lemma example_instantiate:
  "instantiate example_api \<lparr>sender = ''admin'', funds = []\<rparr> \<lparr>im_mixnet_contract_address = ''mixnet'', im_mix_denom = ''unym''\<rparr>
      empty_state = Ok (example_start, [])"
  by (simp add: instantiate_def validate_addr_def example_api_def example_start_def)

lemma example_start_run: "vesting_run example_api example_start 0 0"
  by (rule vesting_run.start, rule example_instantiate)

lemma example_create:
  "execute example_api (90 * NANOS) \<lparr>sender = ''admin'', funds = [unym 1000]\<rparr> example_creation example_start
    = Ok (example_created, [])"
  by (simp add: example_creation_def try_create_periodic_vesting_account_def vesting_eval schedule_eval upt_rec Let_def)

lemma example_run: "vesting_run example_api example_created 1000 (90 * NANOS)"
  using vesting_run.call [OF example_start_run _ example_create]
  by (simp add: bank_after_def coins_in_def coins_out_def example_start_def example_creation_def)

lemma example_withdraw:
  "\<exists>st'. execute example_api (115 * NANOS) \<lparr>sender = ''owner'', funds = []\<rparr> (WithdrawVestedCoins (unym 300)) example_created
    = Ok (st', [BankSend ''owner'' [unym 300]])"
  by (simp add: try_withdraw_vested_coins_def spendable_coins_def locked_coins_def total_staked_def total_delegations_def
      delegations_where_eq delegated_where_def total_pledged_def load_bond_pledge_def load_gateway_pledge_def withdraw_def
      load_balance_def load_withdrawn_def save_withdrawn_def uint128_add_def vesting_eval schedule_eval Let_def)

text \<open>
  C5. The vesting contract implements the book. Whatever message succeeds, its effect on the
  balances, delegations, pledges and withdrawals is one action of the book, on one account, that the
  message allows, and the coins it sends are exactly those the action takes out of the contract.
\<close>

theorem vesting_refines_book:
  assumes "vesting_inv st" "execute api t info msg st = Ok (st', ms)" "MIX_DENOM st = Some d"
  shows "\<exists>act. action_for msg act \<and> book_step act (book_of st) = Some (book_of st') \<and> coins_out d ms = outgoing act"
  using execute_realises [OF assms(1,2)] assms(3) by (auto simp: realises_def)

theorem vesting_refines_book_witness:
  "\<exists>st' act. action_for (WithdrawVestedCoins (unym 300)) act \<and> book_step act (book_of example_created) = Some (book_of st')
    \<and> outgoing act = 300"
proof -
  obtain st' where ex: "execute example_api (115 * NANOS) \<lparr>sender = ''owner'', funds = []\<rparr> (WithdrawVestedCoins (unym 300))
      example_created = Ok (st', [BankSend ''owner'' [unym 300]])"
    using example_withdraw by blast
  have inv: "vesting_inv example_created" "MIX_DENOM example_created = Some ''unym''"
    using vesting_run_inv [OF example_run] by (simp_all add: example_created_def example_start_def)
  from vesting_refines_book [OF inv(1) ex inv(2)] show ?thesis by (auto simp: coins_out_def coins_in_def)
qed

text \<open>
  C8. Invariant of the storage. In every state the contract can reach, each account is stored under
  its owner's address, no two accounts share a number, all numbers are at most the counter, and
  nothing is recorded for a number not given out yet.
\<close>

theorem vesting_storage_invariant:
  assumes "vesting_run api st bank now"
  shows "distinct (map fst (ACCOUNTS st)) \<and> distinct (map fst (DELEGATIONS st))
    \<and> (\<forall>(a, acc) \<in> set (ACCOUNTS st). acc_owner_address acc = a \<and> acc_storage_key acc \<le> last_key st)
    \<and> inj_on (\<lambda>e. acc_storage_key (snd e)) (set (ACCOUNTS st))
    \<and> (\<forall>k > last_key st. unused k st)"
  using vesting_run_inv [OF assms] by (auto simp: vesting_inv_def accounts_ok_def)

theorem vesting_storage_invariant_witness:
  "unused 2 example_created \<and> acc_owner_address example_account = ''owner'' \<and> acc_storage_key example_account \<le> 1"
  using vesting_storage_invariant [OF example_run] by (simp add: example_created_def last_key_def)

text \<open>
  C7. Solvency. When the mixnet contract sends the coins its tracking messages announce (as the
  theory \<open>Contract_Interaction\<close> shows of it), the contract always holds at least the sum of all free
  balances, so every bank transfer and every stake of a successful call can be paid.
\<close>

theorem vesting_solvent:
  assumes "vesting_run api st bank now" "MIX_DENOM st = Some d"
  shows "(\<Sum>k\<le>last_key st. load_balance k st) \<le> bank
    \<and> (\<forall>t info msg st' ms. execute api t info msg st = Ok (st', ms) \<longrightarrow> coins_out d ms \<le> bank)"
  using vesting_run_inv [OF assms(1)] execute_solvent [OF _ _ assms(2)] by (auto simp: total_free_def)

theorem vesting_solvent_witness:
  "(\<Sum>k\<le>last_key example_created. load_balance k example_created) \<le> 1000"
  using vesting_solvent [OF example_run, of "''unym''"] by (simp add: example_created_def example_start_def)

text \<open>
  C6. Unvested grants stay. In every run, whatever the mixnet contract reports, the grant of an
  account is covered by what has vested, what the contract holds for the account, what is recorded
  as staked, and what the mixnet contract kept of stakes it reported as returned. And no owner gets
  at coins that have not vested: after a successful withdrawal of a positive amount, the grant
  minus what has vested is still in the contract or staked, without counting what was kept.
\<close>

theorem unvested_coins_stay:
  assumes "staking_run api st kept now" "(a, acc) \<in> set (ACCOUNTS st)"
  shows "amount (acc_coin acc) \<le> vested_at acc now + free (book_of st) (acc_storage_key acc)
      + staked (book_of st) (acc_storage_key acc) + kept (acc_storage_key acc)
    \<and> (\<forall>t info c st' ms. execute api t info (WithdrawVestedCoins c) st = Ok (st', ms)
        \<and> account_from_address api (sender info) st = Ok acc \<and> 0 < amount c \<longrightarrow>
        amount (acc_coin acc) \<le> vested_at acc t + free (book_of st') (acc_storage_key acc)
          + staked (book_of st') (acc_storage_key acc))"
proof
  show "amount (acc_coin acc) \<le> vested_at acc now + free (book_of st) (acc_storage_key acc)
      + staked (book_of st) (acc_storage_key acc) + kept (acc_storage_key acc)"
    using staking_run_covered [OF assms(1)] assms(2) unfolding grants_covered_def cover_def by force
qed (use withdraw_leaves_unvested(1) [OF staking_run_inv [OF assms(1)]] in \<open>force simp: cover_def\<close>)

text \<open>
  A run in which the mixnet contract keeps part of the stake: of two delegations to one node, 60
  and 30 coins, it returns only the second.
\<close>

lemmas staking_eval = try_delegate_to_mixnode_def staking_account_def account_delegate_to_mixnode_def
  ensure_valid_additional_stake_def total_staked_def total_delegations_def delegations_where_eq delegated_where_def
  total_pledged_def load_bond_pledge_def load_gateway_pledge_def absolute_pledge_cap_def pledge_cap_def
  pledge_cap_default_def decimal_percent_def num_subdelegations_for_mix_def count_subdelegations_for_mix_def
  load_delegation_timestamps_def kv_range_def mixnet_call_def load_mixnet_address_def track_delegation_def
  save_delegation_def load_balance_def uint128_add_def DECIMAL_ONE_def

definition example_delegated :: "(nat \<times> nat) list \<Rightarrow> nat \<Rightarrow> vesting_state" where
  "example_delegated ds n = example_created\<lparr>BALANCES := [1 \<mapsto> n], DELEGATIONS := map (\<lambda>(t, v). ((1, 7, t), v)) ds\<rparr>"

lemma example_delegations:
  "\<exists>ms. execute example_api (91 * NANOS) \<lparr>sender = ''owner'', funds = []\<rparr> (DelegateToMixnode 7 (unym 60) None) example_created
    = Ok (example_delegated [(91, 60)] 940, ms)"
  "\<exists>ms. execute example_api (92 * NANOS) \<lparr>sender = ''owner'', funds = []\<rparr> (DelegateToMixnode 7 (unym 30) None)
      (example_delegated [(91, 60)] 940)
    = Ok (example_delegated [(91, 60), (92, 30)] 910, ms)"
  by (simp_all add: example_delegated_def staking_eval vesting_eval schedule_eval Let_def)

lemma example_short_return:
  "execute example_api (93 * NANOS) \<lparr>sender = ''mixnet'', funds = []\<rparr> (TrackUndelegation ''owner'' 7 (unym 30))
      (example_delegated [(91, 60), (92, 30)] 910) = Ok (example_delegated [] 940, [])"
  by (simp add: example_delegated_def try_track_undelegation_def ensure_mixnet_def track_undelegation_def credit_def
     remove_delegations_for_mix_def remove_delegation_def staking_eval vesting_eval schedule_eval Let_def)

lemma example_kept:
  "kept_back example_api (example_delegated [(91, 60), (92, 30)] 910) (TrackUndelegation ''owner'' 7 (unym 30)) k
    = (if k = 1 then 60 else 0)"
  by (simp add: kept_back_def delegated_where_def example_delegated_def vesting_eval schedule_eval)

lemma example_short_run: "staking_run example_api (example_delegated [] 940) (\<lambda>k. if k = 1 then 60 else 0) (93 * NANOS)"
proof -
  have zero: "kept_back example_api st (DelegateToMixnode m c b) = (\<lambda>_. 0)"
    "kept_back example_api st example_creation = (\<lambda>_. 0)" for st m c b
    by (auto simp: kept_back_def example_creation_def)
  have start: "staking_run example_api example_start (\<lambda>_. 0) 0"
    by (rule staking_run.start, rule example_instantiate)
  have "staking_run example_api example_created (\<lambda>_. 0) (90 * NANOS)"
    using staking_run.call [OF start _ example_create] by (simp add: zero)
  then have "staking_run example_api (example_delegated [(91, 60)] 940) (\<lambda>_. 0) (91 * NANOS)"
    using staking_run.call [of example_api example_created "\<lambda>_. 0" "90 * NANOS" "91 * NANOS"] example_delegations(1)
    by (fastforce simp: zero)
  then have "staking_run example_api (example_delegated [(91, 60), (92, 30)] 910) (\<lambda>_. 0) (92 * NANOS)"
    using staking_run.call [of example_api "example_delegated [(91, 60)] 940" "\<lambda>_. 0" "91 * NANOS" "92 * NANOS"]
      example_delegations(2) by (fastforce simp: zero)
  from staking_run.call [OF this _ example_short_return] show ?thesis by (simp add: example_kept)
qed

lemma example_short_withdraw:
  "\<exists>st'. execute example_api (115 * NANOS) \<lparr>sender = ''owner'', funds = []\<rparr> (WithdrawVestedCoins (unym 200))
      (example_delegated [] 940) = Ok (st', [BankSend ''owner'' [unym 200]])"
  by (simp add: example_delegated_def try_withdraw_vested_coins_def spendable_coins_def locked_coins_def withdraw_def
      load_withdrawn_def save_withdrawn_def staking_eval vesting_eval schedule_eval Let_def)

theorem unvested_coins_stay_witness:
  "1000 \<le> vested_at example_account (93 * NANOS) + free (book_of (example_delegated [] 940)) 1
     + staked (book_of (example_delegated [] 940)) 1 + 60
   \<and> free (book_of (example_delegated [] 940)) 1 = 940
   \<and> (\<exists>st'. execute example_api (115 * NANOS) \<lparr>sender = ''owner'', funds = []\<rparr> (WithdrawVestedCoins (unym 200))
         (example_delegated [] 940) = Ok (st', [BankSend ''owner'' [unym 200]])
       \<and> 1000 \<le> vested_at example_account (115 * NANOS) + free (book_of st') 1 + staked (book_of st') 1)"
proof -
  have key: "acc_storage_key example_account = 1" "amount (acc_coin example_account) = 1000"
    by (simp_all add: example_account_def)
  have mem: "(''owner'', example_account) \<in> set (ACCOUNTS (example_delegated [] 940))"
    "account_from_address example_api ''owner'' (example_delegated [] 940) = Ok example_account"
    by (simp_all add: example_delegated_def vesting_eval)
  note stay = unvested_coins_stay [OF example_short_run mem(1), unfolded key]
  obtain st' where w: "execute example_api (115 * NANOS) \<lparr>sender = ''owner'', funds = []\<rparr> (WithdrawVestedCoins (unym 200))
      (example_delegated [] 940) = Ok (st', [BankSend ''owner'' [unym 200]])"
    using example_short_withdraw by blast
  moreover have "1000 \<le> vested_at example_account (115 * NANOS) + free (book_of st') 1 + staked (book_of st') 1"
    using conjunct2 [OF stay, rule_format, OF conjI [OF w]] mem(2) by simp
  moreover have "free (book_of (example_delegated [] 940)) 1 = 940"
    by (simp add: example_delegated_def load_balance_def)
  ultimately show ?thesis using conjunct1 [OF stay] by simp
qed
text \<open>Who may send a message.\<close>

fun permitted :: "cosmwasm \<Rightarrow> vesting_state \<Rightarrow> Addr \<Rightarrow> ExecuteMsg \<Rightarrow> bool" where
  "permitted api st who (CreateAccount _ _ _ _) \<longleftrightarrow> ADMIN st = Some who"
| "permitted api st who (UpdateLockedPledgeCap _ _) \<longleftrightarrow> ADMIN st = Some who"
| "permitted api st who (UpdateMixnetAddress _) \<longleftrightarrow> ADMIN st = Some who"
| "permitted api st who (TrackReward _ _) \<longleftrightarrow> MIXNET_CONTRACT_ADDRESS st = Some who"
| "permitted api st who (TrackUndelegation _ _ _) \<longleftrightarrow> MIXNET_CONTRACT_ADDRESS st = Some who"
| "permitted api st who (TrackUnbondMixnode _ _) \<longleftrightarrow> MIXNET_CONTRACT_ADDRESS st = Some who"
| "permitted api st who (TrackDecreasePledge _ _) \<longleftrightarrow> MIXNET_CONTRACT_ADDRESS st = Some who"
| "permitted api st who (TrackUnbondGateway _ _) \<longleftrightarrow> MIXNET_CONTRACT_ADDRESS st = Some who"
| "permitted api st who (DelegateToMixnode _ _ (Some owner)) \<longleftrightarrow>
     (\<exists>acc. account_from_address api owner st = Ok acc \<and> acc_staking_address acc = Some who)"
| "permitted api st who (UndelegateFromMixnode _ (Some owner)) \<longleftrightarrow>
     (\<exists>acc. account_from_address api owner st = Ok acc \<and> acc_staking_address acc = Some who)"
| "permitted api st who _ \<longleftrightarrow> account_exists api who st"

lemma account_exists_Ok: "account_from_address api a st = Ok acc \<Longrightarrow> account_exists api a st"
  by (simp add: account_exists_def)

lemma ensure_mixnet_Ok: "ensure_mixnet info st = Ok x \<longleftrightarrow> MIXNET_CONTRACT_ADDRESS st = Some (sender info)"
  by (auto simp: ensure_mixnet_def load_mixnet_address_def load_item_def split: option.splits)

lemma staking_account_permitted:
  "staking_account api b info st = Ok acc \<Longrightarrow> permitted api st (sender info) (DelegateToMixnode m a b)
     \<and> permitted api st (sender info) (UndelegateFromMixnode m b)"
  by (auto simp: staking_account_def pbind_eq_Inr ensure_staking_permission_def account_exists_Ok split: option.splits if_splits)

lemmas owner_tx_defs = try_withdraw_vested_coins_def try_transfer_ownership_def try_update_staking_address_def
  try_bond_mixnode_def try_pledge_more_def try_bond_gateway_def

lemmas admin_tx_defs = try_update_locked_pledge_cap_def try_update_mixnet_address_def

lemmas track_tx_defs = try_track_reward_def try_track_undelegation_def try_track_unbond_mixnode_def
  try_track_decrease_mixnode_pledge_def try_track_unbond_gateway_def

lemma execute_permitted:
  assumes "execute api t info msg st = Ok (st', ms)"
  shows "permitted api st (sender info) msg"
proof (cases msg)
  case (CreateAccount a b c d)
  with assms create_Ok [of api a b c d info t st st' ms] show ?thesis by simp
next
  case (DelegateToMixnode m a b)
  with assms show ?thesis
    by (auto simp: try_delegate_to_mixnode_def pbind_eq_Inr simp del: permitted.simps dest: staking_account_permitted)
next
  case (UndelegateFromMixnode m b)
  with assms show ?thesis
    by (auto simp: try_undelegate_from_mixnode_def pbind_eq_Inr simp del: permitted.simps dest: staking_account_permitted)
qed (use assms in \<open>auto simp: owner_tx_defs admin_tx_defs track_tx_defs forwarding_tx_defs pbind_eq_Inr Let_def
  ensure_admin_Ok ensure_mixnet_Ok account_exists_Ok split: if_splits\<close>)

text \<open>
  C19. Authorisation. A call succeeds only when its sender may make it: the administrator creates
  accounts, sets caps and the address of the mixnet contract; only that contract reports returned
  coins; staking on behalf of an account needs the permission of its owner; everything else needs
  an account of the sender's own. No message changes the administrator.
\<close>

theorem vesting_authorised:
  assumes "vesting_inv st" "execute api t info msg st = Ok (st', ms)"
  shows "permitted api st (sender info) msg \<and> ADMIN st' = ADMIN st"
  using execute_permitted [OF assms(2)] execute_realises [OF assms] by (auto simp: realises_def)

theorem vesting_authorised_witness:
  "permitted example_api example_start ''admin'' example_creation \<and> ADMIN example_created = Some ''admin''
    \<and> \<not> permitted example_api example_start ''owner'' example_creation"
  using vesting_authorised [OF conjunct1 [OF vesting_run_inv [OF example_start_run]] example_create]
  by (simp add: example_start_def example_creation_def)

section \<open>Accounts that get lost\<close>

lemma distinct_account_keys:
  assumes "accounts_ok st" "load_account a st = Some acc" "load_account b st = Some acc'" "a \<noteq> b"
  shows "acc_storage_key acc \<noteq> acc_storage_key acc'"
proof
  have "(a, acc) \<in> set (ACCOUNTS st)" "(b, acc') \<in> set (ACCOUNTS st)"
    using assms(2,3) by (auto simp: load_account_def dest: map_of_SomeD)
  moreover assume "acc_storage_key acc = acc_storage_key acc'"
  ultimately have "(a, acc) = (b, acc')"
    using assms(1) inj_onD [of "\<lambda>e. acc_storage_key (snd e)" "set (ACCOUNTS st)" "(a, acc)" "(b, acc')"] by (simp add: accounts_ok_def)
  then show False using assms(4) by simp
qed

lemma key_at_other_address:
  assumes "accounts_ok st" "load_account y st = Some other" "e \<in> set (ACCOUNTS st)" "fst e \<noteq> y"
  shows "acc_storage_key (snd e) \<noteq> acc_storage_key other"
proof -
  have "load_account (fst e) st = Some (snd e)"
    using assms(1,3) by (simp add: load_account_def accounts_ok_def)
  then show ?thesis using distinct_account_keys [OF assms(1) _ assms(2)] assms(4) by blast
qed

text \<open>
  C22. A transfer can destroy an account. When an owner transfers their account to an address that
  has an account already, the call succeeds and the account of the receiving address is gone: no
  address has its number any more, while its balance is still in the contract.
\<close>

theorem transfer_overwrites_account:
  assumes "vesting_inv st" "execute api t info (TransferOwnership x) st = Ok (st', ms)"
    and "addr_validate api x = Inr y" "load_account y st = Some other" "y \<noteq> sender info"
  shows "(\<forall>e \<in> set (ACCOUNTS st'). acc_storage_key (snd e) \<noteq> acc_storage_key other)
    \<and> free (book_of st') (acc_storage_key other) = free (book_of st) (acc_storage_key other)"
proof -
  note ok = inv_accounts_ok [OF assms(1)]
  have D: "distinct (map fst (ACCOUNTS st))" using ok by (simp add: accounts_ok_def)
  obtain acc where acc: "account_from_address api (sender info) st = Ok acc" "acc_owner_address acc = sender info"
    and st': "st' = transfer_ownership acc y st"
    using assms(2,3) by (auto simp: try_transfer_ownership_def pbind_eq_Inr validate_addr_Ok split: if_splits)
  note mem = account_from_address_Ok [OF ok acc(1)]
  have "acc_storage_key acc \<noteq> acc_storage_key other"
    using distinct_account_keys [OF ok mem(3) assms(4)] acc(2) assms(5) by simp
  moreover have "set (ACCOUNTS st') \<subseteq> insert (y, acc\<lparr>acc_owner_address := y\<rparr>) {e \<in> set (ACCOUNTS st). fst e \<noteq> y}"
    unfolding st' transfer_ownership_def save_account_def delete_account_def Let_def
    using kv.set_entries_save [OF distinct_delete [OF D], of y] by (auto simp: delete_set [OF D])
  ultimately have "\<forall>e \<in> set (ACCOUNTS st'). acc_storage_key (snd e) \<noteq> acc_storage_key other"
    using key_at_other_address [OF ok assms(4)] by fastforce
  moreover have "book_of st' = book_of st" unfolding st' by (rule transfer_ownership_inv(2) [OF assms(1) mem(1)])
  ultimately show ?thesis by simp
qed

definition example_two :: vesting_state where
  "example_two = example_created\<lparr>KEY := Some 2,
     ACCOUNTS := [(''owner'', example_account), (''other'', example_account\<lparr>acc_owner_address := ''other'', acc_storage_key := 2\<rparr>)],
     BALANCES := [1 \<mapsto> 1000, 2 \<mapsto> 500]\<rparr>"

theorem transfer_overwrites_account_witness:
  "\<exists>st'. execute example_api 0 \<lparr>sender = ''owner'', funds = []\<rparr> (TransferOwnership ''other'') example_two = Ok (st', [])
    \<and> 2 \<notin> acc_storage_key ` snd ` set (ACCOUNTS st') \<and> free (book_of st') 2 = 500"
proof -
  let ?other = "example_account\<lparr>acc_owner_address := ''other'', acc_storage_key := 2\<rparr>"
  obtain st' where ex: "execute example_api 0 \<lparr>sender = ''owner'', funds = []\<rparr> (TransferOwnership ''other'') example_two
      = Ok (st', [])"
    by (simp add: try_transfer_ownership_def example_two_def vesting_eval)
  have "vesting_inv example_two"
    by (auto simp: vesting_inv_def accounts_ok_def unused_def last_key_def example_two_def example_created_def example_start_def
        empty_state_def example_account_def)
  from transfer_overwrites_account [OF this ex, of "''other''" ?other] ex show ?thesis
    by (auto simp: example_two_def load_account_def example_api_def example_account_def load_balance_def)
qed

text \<open>
  Changing the staking address deletes whatever account is stored under the previous one, also an
  account that was opened there in the meantime.
\<close>

lemma staking_update_deletes_account:
  assumes "vesting_inv st" "execute api t info (UpdateStakingAddress x) st = Ok (st', ms)"
    and "account_from_address api (sender info) st = Ok acc" "acc_staking_address acc = Some s" "s \<noteq> sender info"
  shows "load_account s st' = None"
proof -
  have D: "distinct (map fst (ACCOUNTS st))" using assms(1) by (simp add: vesting_inv_def accounts_ok_def)
  obtain y where st': "st' = update_staking_address acc y st" "acc_owner_address acc = sender info"
    using assms(2,3) by (auto simp: try_update_staking_address_def pbind_eq_Inr Let_def split: if_splits)
  then show ?thesis
    using assms(4,5) D
    by (simp add: update_staking_address_def save_account_def delete_account_def load_account_def update_conv' delete_conv')
qed

section \<open>Listing all accounts\<close>

text \<open>A client that follows \<open>start_next_after\<close> until it gets an empty page.\<close>

fun follow_pages :: "cosmwasm \<Rightarrow> nat option \<Rightarrow> vesting_state \<Rightarrow> nat \<Rightarrow> string option \<Rightarrow> BaseVestingAccountInfo list option" where
  "follow_pages api limit st 0 start = None"
| "follow_pages api limit st (Suc n) start =
     (case try_get_all_accounts api start limit st of
        Some (Inr r) \<Rightarrow>
          if ar_accounts r = [] then Some []
          else map_option (append (ar_accounts r)) (follow_pages api limit st n (ar_start_next_after r))
      | _ \<Rightarrow> None)"

definition account_info :: "Addr \<times> Account \<Rightarrow> BaseVestingAccountInfo" where
  "account_info = (\<lambda>(_, account). \<lparr>bi_account_id = acc_storage_key account, bi_owner = acc_owner_address account\<rparr>)"

lemma filter_greater_sorted:
  fixes xs :: "('k :: linorder \<times> 'v) list"
  assumes "sorted (map fst xs)" "distinct (map fst xs)" "i < length xs"
  shows "filter (\<lambda>e. fst (xs ! i) < fst e) xs = drop (Suc i) xs"
proof -
  have sorted: "sorted_wrt (<) (map fst xs)" using assms(1,2) by (simp add: strict_sorted_iff)
  have lt: "fst (xs ! a) < fst (xs ! b)" if "a < b" "b < length xs" for a b
    using sorted_wrt_nth_less [OF sorted that(1)] that by simp
  have "\<not> fst (xs ! i) < fst e" if "e \<in> set (take (Suc i) xs)" for e
  proof -
    from that obtain j where j: "j < Suc i" "e = xs ! j" using assms(3) by (auto simp: in_set_conv_nth)
    then show ?thesis using lt [of j i] assms(3) by (cases "j = i") auto
  qed
  then have "filter (\<lambda>e. fst (xs ! i) < fst e) (take (Suc i) xs) = []" by (simp add: filter_empty_conv)
  moreover have "fst (xs ! i) < fst e" if "e \<in> set (drop (Suc i) xs)" for e
  proof -
    from that obtain j where j: "j < length xs - Suc i" "e = xs ! (Suc i + j)" by (auto simp: in_set_conv_nth)
    then have "Suc i + j < length xs" by linarith
    then show ?thesis using lt [of i "Suc i + j"] j(2) by simp
  qed
  then have "filter (\<lambda>e. fst (xs ! i) < fst e) (drop (Suc i) xs) = drop (Suc i) xs" by (simp add: filter_id_conv)
  ultimately show ?thesis
    using filter_append [of "\<lambda>e. fst (xs ! i) < fst e" "take (Suc i) xs" "drop (Suc i) xs"] by simp
qed

lemma last_page:
  assumes "i < length xs" "0 < m"
  shows "last (take m (drop i xs)) = xs ! (min (i + m) (length xs) - 1)"
proof -
  have "i + (min (length xs - i) m - 1) = min (i + m) (length xs) - 1" using assms by linarith
  then show ?thesis using assms by (simp add: last_conv_nth)
qed

lemma page_append: "take m (drop i xs) @ drop (min (i + m) (length xs)) xs = drop i xs"
proof -
  have "drop (min (i + m) (length xs)) xs = drop m (drop i xs)" by (simp add: min_def add.commute)
  then show ?thesis by (simp only: append_take_drop_id)
qed

lemma follow_pages_from:
  assumes ok: "accounts_ok st" and l: "limit \<noteq> Some 0" and api: "\<forall>(a, acc) \<in> set (ACCOUNTS st). addr_validate api a = Inr a"
    and n: "length (ACCOUNTS st) - i < n" "i \<le> length (ACCOUNTS st)"
    and start: "start = (if i = 0 then None else Some (fst (kv_range (ACCOUNTS st) ! (i - 1))))"
  shows "follow_pages api limit st n start = Some (map account_info (drop i (kv_range (ACCOUNTS st))))"
  using n start
proof (induction n arbitrary: i start)
  case (Suc n)
  let ?L = "kv_range (ACCOUNTS st)" and ?m = "page_limit limit 150 250"
  have len: "length ?L = length (ACCOUNTS st)" by (simp add: kv_range_def)
  have m: "0 < ?m" using l by (auto simp: page_limit_def split: option.splits)
  have D: "distinct (map fst ?L)"
    using ok by (auto simp: accounts_ok_def kv_range_def distinct_map inj_on_def)
  have S: "sorted (map fst ?L)" by (simp add: kv_range_def)
  have after: "pbind (start_bound api start) f = f start \<and> kv_after start (ACCOUNTS st) = drop i ?L" for f :: "Addr option \<Rightarrow> AccountsResponse vresult"
  proof (cases "i = 0")
    case True
    then show ?thesis using Suc.prems by (simp add: start_bound_def kv_after_def)
  next
    case False
    then have i: "i - 1 < length ?L" using Suc.prems len by simp
    then have "?L ! (i - 1) \<in> set (ACCOUNTS st)" using nth_mem [OF i] by simp
    then have "addr_validate api (fst (?L ! (i - 1))) = Inr (fst (?L ! (i - 1)))" using api by auto
    then show ?thesis
      using False Suc.prems filter_greater_sorted [OF S D i] by (simp add: start_bound_def kv_after_def validate_addr_def)
  qed
  let ?page = "map account_info (take ?m (drop i ?L))"
  have page: "try_get_all_accounts api start limit st
      = Ok \<lparr>ar_accounts = ?page, ar_start_next_after = last_map bi_owner ?page\<rparr>"
    unfolding try_get_all_accounts_def account_info_def [symmetric] using after by (simp add: Let_def)
  show ?case
  proof (cases "i = length ?L")
    case True
    then show ?thesis by (simp add: page)
  next
    case False
    then have i: "i < length ?L" using Suc.prems len by simp
    let ?i = "min (i + ?m) (length ?L)"
    have last: "last ?page = account_info (?L ! (?i - 1))"
      using i m last_page [OF i m] by (simp add: last_map)
    have owner: "bi_owner (account_info e) = fst e" if "e \<in> set ?L" for e
      using ok that by (auto simp: accounts_ok_def account_info_def)
    have "follow_pages api limit st n (Some (fst (?L ! (?i - 1)))) = Some (map account_info (drop ?i ?L))"
    proof (rule Suc.IH)
      have lt: "i < ?i" using i m by linarith
      then show "length (ACCOUNTS st) - ?i < n" using Suc.prems(1) i len by linarith
      show "?i \<le> length (ACCOUNTS st)" by (simp add: len)
      show "Some (fst (?L ! (?i - 1))) = (if ?i = 0 then None else Some (fst (?L ! (?i - 1))))" using lt by (cases "?i = 0") (use lt in linarith, simp only: if_False)
    qed
    moreover have "?page \<noteq> []" using i m by (cases ?L) auto
    moreover have "?page @ map account_info (drop ?i ?L) = map account_info (drop i ?L)"
      by (simp only: page_append flip: map_append)
    ultimately show ?thesis
      using owner [OF nth_mem, of "?i - 1"] i m by (simp add: page last_map_def last)
  qed
qed simp

text \<open>
  C21. Paging through all accounts. In every reachable state, a client that asks for accounts with
  any non-zero page size and follows \<open>start_next_after\<close> gets an empty page after finitely many
  requests, and the pages together list every account once, in the order of the addresses. The
  address check is assumed to accept the addresses stored in the contract and to leave them as they
  are.
\<close>

theorem accounts_paging_complete:
  assumes "vesting_run api st bank now" "limit \<noteq> Some 0" "\<forall>(a, acc) \<in> set (ACCOUNTS st). addr_validate api a = Inr a"
  shows "follow_pages api limit st (Suc (length (ACCOUNTS st))) None = Some (map account_info (kv_range (ACCOUNTS st)))"
  using follow_pages_from [of st limit api 0 "Suc (length (ACCOUNTS st))"] vesting_run_inv [OF assms(1)] assms(2,3)
  by (simp add: inv_accounts_ok del: follow_pages.simps)

theorem accounts_paging_complete_witness:
  "follow_pages example_api (Some 1) example_created 2 None = Some [\<lparr>bi_account_id = 1, bi_owner = ''owner''\<rparr>]"
  using accounts_paging_complete [OF example_run, of "Some 1"]
  by (simp add: example_created_def example_api_def account_info_def kv_range_def example_account_def numeral_2_eq_2)

end
