(* ===== verification/Mixnet_Types.thy ===== *)
theory Mixnet_Types
  imports Vesting_Contract
begin

text \<open>
  The data of the mixnet contract, \<open>common/cosmwasm-smart-contracts/mixnet-contract/src\<close>: errors,
  reward parameters (\<open>reward_params.rs\<close>), delegations (\<open>delegation.rs\<close>), bonds (\<open>mixnode.rs\<close>,
  \<open>gateway.rs\<close>), epochs and intervals (\<open>interval.rs\<close>) and pending events (\<open>pending_events.rs\<close>).
  The types the messages of the vesting contract carry are those of \<open>Vesting_Contract\<close>.

  A \<open>Decimal\<close> of \<open>cosmwasm_std\<close> is a natural number, its value times \<open>DECIMAL_ONE\<close>. Sums and
  differences of decimals are those of their 128-bit atomics; products, quotients and conversions
  are fields of the record \<open>mixnet_api\<close>, as are the date operations of the \<open>time\<close> crate, base58
  and the verification of signatures. An instant is its number of nanoseconds since the Unix epoch,
  a \<open>Duration\<close> its number of nanoseconds. Numbers of type \<open>u32\<close> and \<open>u64\<close> are natural numbers with
  checked operations.
\<close>

section \<open>Libraries\<close>

type_synonym decimal = nat
type_synonym EpochId = nat
type_synonym IntervalId = nat
type_synonym BlockHeight = nat
type_synonym EpochEventId = nat
type_synonym IntervalEventId = nat
type_synonym Nonce = nat

record mixnet_api = cosmwasm +
  dec_mul :: "decimal \<Rightarrow> decimal \<Rightarrow> decimal option"
  dec_div :: "decimal \<Rightarrow> decimal \<Rightarrow> decimal option"
  dec_from_ratio :: "nat \<Rightarrow> nat \<Rightarrow> decimal option"
  dec_from_atomics :: "nat \<Rightarrow> decimal option"
  date_from_unix :: "int \<Rightarrow> int option"
  date_add :: "int \<Rightarrow> nat \<Rightarrow> int option"
  date_unix :: "int \<Rightarrow> int"

text \<open>
  The documented arithmetic of \<open>Decimal\<close>: 18 digits, rounding down, with a panic (an error for
  \<open>from_atomics\<close>) if the result does not fit or the divisor is zero.
\<close>

definition fits :: "nat \<Rightarrow> nat option" where
  "fits x = (if x \<le> u128_max then Some x else None)"

definition decimals_ok :: "'a mixnet_api_scheme \<Rightarrow> bool" where
  "decimals_ok api \<longleftrightarrow>
     (\<forall>a b. dec_mul api a b = fits (a * b div DECIMAL_ONE) \<and>
            dec_div api a b = (if b = 0 then None else fits (a * DECIMAL_ONE div b)) \<and>
            dec_from_ratio api a b = (if b = 0 then None else fits (a * DECIMAL_ONE div b)) \<and>
            dec_from_atomics api a = fits (a * DECIMAL_ONE) \<and>
            decimal_mul api a b = fits (a * b div DECIMAL_ONE))"

definition u32_sub :: "nat \<Rightarrow> nat \<Rightarrow> nat option" where
  "u32_sub a b = (if b \<le> a then Some (a - b) else None)"

text \<open>\<open>IntoBaseDecimal\<close>, \<open>truncate_decimal\<close> and the operations of \<open>Percent\<close>.\<close>

definition into_base_decimal :: "'a mixnet_api_scheme \<Rightarrow> nat \<Rightarrow> StdError + decimal" where
  "into_base_decimal api n =
     (case dec_from_atomics api n of
        None \<Rightarrow> Inl (StdGeneric (''Decimal range exceeded for '' @ nat_to_string n @ '' with 0 decimal places.''))
      | Some d \<Rightarrow> Inr d)"

definition truncate_decimal :: "'a mixnet_api_scheme \<Rightarrow> decimal \<Rightarrow> nat option" where
  "truncate_decimal api a = decimal_mul api a 1"

definition truncate_reward_amount :: "'a mixnet_api_scheme \<Rightarrow> decimal \<Rightarrow> nat option" where
  "truncate_reward_amount api reward = truncate_decimal api reward"

definition truncate_reward :: "'a mixnet_api_scheme \<Rightarrow> decimal \<Rightarrow> string \<Rightarrow> Coin option" where
  "truncate_reward api reward d =
     Option.bind (truncate_reward_amount api reward) (\<lambda>a. Some \<lparr>denom = d, amount = a\<rparr>)"

fun percent_value :: "Percent \<Rightarrow> decimal" where
  "percent_value (Percent p) = p"

definition percent_is_zero :: "Percent \<Rightarrow> bool" where
  "percent_is_zero p \<longleftrightarrow> percent_value p = 0"

definition percent_mul_decimal :: "'a mixnet_api_scheme \<Rightarrow> Percent \<Rightarrow> decimal \<Rightarrow> decimal option" where
  "percent_mul_decimal api self rhs = dec_mul api (percent_value self) rhs"

definition decimal_mul_percent :: "'a mixnet_api_scheme \<Rightarrow> decimal \<Rightarrow> Percent \<Rightarrow> decimal option" where
  "decimal_mul_percent api self rhs = percent_mul_decimal api rhs self"

section \<open>Epoch states and errors\<close>

datatype EpochState = InProgress | Rewarding MixId MixId | ReconcilingEvents | AdvancingEpoch

datatype VerificationError = VerificationError string
datatype ApiVerifierError = Verification VerificationError | VerifierStd StdError

datatype MixnetContractError =
    FailedMigration string
  | StdErr StdError
  | OverflowDecimalSubtraction decimal decimal
  | OverflowSubtraction nat nat
  | InsufficientPledge Coin Coin
  | InvalidPledgeReduction nat nat nat string
  | PendingPledgeChange EpochEventId
  | InsufficientDelegation Coin Coin
  | MixNodeBondNotFound MixId
  | NoAssociatedMixNodeBond Addr
  | NoAssociatedGatewayBond Addr
  | AlreadyOwnsMixnode
  | AlreadyOwnsGateway
  | DuplicateGateway Addr
  | Unauthorized
  | NoBondFound
  | EmptyDelegation
  | WrongDenom string string
  | MultipleDenoms
  | ProxyMismatch string string
  | ProxyIsNotVestingContract Addr Addr
  | SenderIsNotVestingContract Addr Addr
  | MalformedEd25519IdentityKey string
  | MalformedEd25519Signature string
  | InvalidEd25519Signature
  | EpochInProgress nat int int
  | MixnodeAlreadyRewarded MixId EpochId
  | MixnodeNotInRewardedSet MixId EpochId
  | MixnodeIsUnbonding MixId
  | MixnodeHasUnbonded MixId
  | InconsistentState string
  | NoMixnodeDelegationFound MixId string "string option"
  | EmptyParamsChangeMsg
  | InvalidActiveSetSize
  | InvalidRewardedSetSize
  | ZeroActiveSet
  | ZeroRewardedSet
  | UnexpectedActiveSetSize nat nat
  | UnexpectedRewardedSetSize nat nat
  | DuplicateRewardedSetNode MixId
  | FamilyDoesNotExist string
  | FamilyLabelDoesNotExist string
  | FamilyWithLabelExists string
  | InvalidLayer byte
  | FamilyCanHaveOnlyOne
  | AlreadyMemberOfFamily string
  | CantJoinOwnFamily IdentityKey IdentityKey
  | CantLeaveOwnFamily IdentityKey IdentityKey
  | NotAMember IdentityKey IdentityKey
  | NotImplemented
  | EpochsInIntervalZero
  | EpochDurationZero
  | ZeroCoinAmount
  | RewardingValidatorMismatch Addr Addr
  | EpochAdvancementInProgress EpochState
  | UnexpectedNonRewardingEpochState EpochState
  | RewardingOutOfOrder MixId MixId
  | EpochNotInEventReconciliationState EpochState
  | EpochNotInAdvancementState EpochState
  | SemVerFailure string string
  | SignatureVerificationFailure ApiVerifierError

type_synonym 'a mresult = "(MixnetContractError + 'a) option"

text \<open>The conversion of \<open>StdError\<close> by the question mark.\<close>

definition std :: "(StdError + 'a) \<Rightarrow> 'a mresult" where
  "std r = Some (map_sum StdErr id r)"

section \<open>Reward parameters\<close>

record IntervalRewardParams =
  reward_pool :: decimal
  staking_supply :: decimal
  staking_supply_scale_factor :: Percent
  epoch_reward_budget :: decimal
  stake_saturation_point :: decimal
  sybil_resistance :: Percent
  active_set_work_factor :: decimal
  interval_pool_emission :: Percent

record RewardingParams =
  interval_params :: IntervalRewardParams
  rewarded_set_size :: nat
  active_set_size :: nat

record NodeRewardParams =
  performance :: Percent
  in_active_set :: bool

record IntervalRewardingParamsUpdate =
  upd_reward_pool :: "decimal option"
  upd_staking_supply :: "decimal option"
  upd_staking_supply_scale_factor :: "Percent option"
  upd_sybil_resistance_percent :: "Percent option"
  upd_active_set_work_factor :: "decimal option"
  upd_interval_pool_emission :: "Percent option"
  upd_rewarded_set_size :: "nat option"

definition dec_rewarded_set_size :: "'a mixnet_api_scheme \<Rightarrow> RewardingParams \<Rightarrow> decimal option" where
  "dec_rewarded_set_size api self = unwrap (into_base_decimal api (rewarded_set_size self))"

definition dec_active_set_size :: "'a mixnet_api_scheme \<Rightarrow> RewardingParams \<Rightarrow> decimal option" where
  "dec_active_set_size api self = unwrap (into_base_decimal api (active_set_size self))"

definition dec_standby_set_size :: "'a mixnet_api_scheme \<Rightarrow> RewardingParams \<Rightarrow> decimal option" where
  "dec_standby_set_size api self =
     Option.bind (u32_sub (rewarded_set_size self) (active_set_size self)) (\<lambda>n. unwrap (into_base_decimal api n))"

definition standby_node_work :: "'a mixnet_api_scheme \<Rightarrow> RewardingParams \<Rightarrow> decimal option" where
  "standby_node_work api self =
     (let f = active_set_work_factor (interval_params self) in
      Option.bind (dec_rewarded_set_size api self) (\<lambda>k.
      Option.bind (dec_standby_set_size api self) (\<lambda>k_r.
      Option.bind (dec_mul api f k) (\<lambda>fk.
      Option.bind (uint128_sub f DECIMAL_ONE) (\<lambda>f1.
      Option.bind (dec_mul api f1 k_r) (\<lambda>fk_r.
      Option.bind (uint128_sub fk fk_r) (\<lambda>d.
      dec_div api DECIMAL_ONE d)))))))"

definition active_node_work :: "'a mixnet_api_scheme \<Rightarrow> RewardingParams \<Rightarrow> decimal option" where
  "active_node_work api self =
     Option.bind (standby_node_work api self) (dec_mul api (active_set_work_factor (interval_params self)))"

definition apply_epochs_in_interval_change :: "'a mixnet_api_scheme \<Rightarrow> RewardingParams \<Rightarrow> nat \<Rightarrow> RewardingParams option" where
  "apply_epochs_in_interval_change api self new_epochs_in_interval =
     (let iv = interval_params self in
      Option.bind (unwrap (into_base_decimal api new_epochs_in_interval)) (\<lambda>n.
      Option.bind (dec_div api (reward_pool iv) n) (\<lambda>q.
      Option.bind (decimal_mul_percent api q (interval_pool_emission iv)) (\<lambda>budget.
      Some (self\<lparr>interval_params := iv\<lparr>epoch_reward_budget := budget\<rparr>\<rparr>)))))"

definition try_change_active_set_size :: "RewardingParams \<Rightarrow> nat \<Rightarrow> MixnetContractError + RewardingParams" where
  "try_change_active_set_size self new_active_set_size =
     (if new_active_set_size = 0 then Inl ZeroActiveSet
      else if rewarded_set_size self < new_active_set_size then Inl InvalidActiveSetSize
      else Inr (self\<lparr>active_set_size := new_active_set_size\<rparr>))"

definition contains_updates :: "IntervalRewardingParamsUpdate \<Rightarrow> bool" where
  "contains_updates self \<longleftrightarrow>
     upd_reward_pool self \<noteq> None \<or> upd_staking_supply self \<noteq> None \<or> upd_staking_supply_scale_factor self \<noteq> None
     \<or> upd_sybil_resistance_percent self \<noteq> None \<or> upd_active_set_work_factor self \<noteq> None
     \<or> upd_interval_pool_emission self \<noteq> None \<or> upd_rewarded_set_size self \<noteq> None"

definition or_keep :: "'a option \<Rightarrow> 'a \<Rightarrow> 'a" where
  "or_keep new old = (case new of Some v \<Rightarrow> v | None \<Rightarrow> old)"

definition update_interval_params :: "IntervalRewardingParamsUpdate \<Rightarrow> IntervalRewardParams \<Rightarrow> IntervalRewardParams" where
  "update_interval_params updates iv =
     iv\<lparr>reward_pool := or_keep (upd_reward_pool updates) (reward_pool iv),
        staking_supply := or_keep (upd_staking_supply updates) (staking_supply iv),
        staking_supply_scale_factor := or_keep (upd_staking_supply_scale_factor updates) (staking_supply_scale_factor iv),
        sybil_resistance := or_keep (upd_sybil_resistance_percent updates) (sybil_resistance iv),
        active_set_work_factor := or_keep (upd_active_set_work_factor updates) (active_set_work_factor iv),
        interval_pool_emission := or_keep (upd_interval_pool_emission updates) (interval_pool_emission iv)\<rparr>"

definition update_rewarded_set_size :: "IntervalRewardingParamsUpdate \<Rightarrow> RewardingParams \<Rightarrow> MixnetContractError + RewardingParams" where
  "update_rewarded_set_size updates self =
     (case upd_rewarded_set_size updates of
        None \<Rightarrow> Inr self
      | Some n \<Rightarrow>
          if n = 0 then Inl ZeroRewardedSet
          else if n < active_set_size self then Inl InvalidRewardedSetSize
          else Inr (self\<lparr>rewarded_set_size := n\<rparr>))"

definition recompute_epoch_budget :: "'a mixnet_api_scheme \<Rightarrow> nat \<Rightarrow> RewardingParams \<Rightarrow> RewardingParams mresult" where
  "recompute_epoch_budget api epochs_in_interval self =
     (let iv = interval_params self in
      pbind (std (into_base_decimal api epochs_in_interval)) (\<lambda>n.
      pbind (panicking (dec_div api (reward_pool iv) n)) (\<lambda>q.
      pbind (panicking (decimal_mul_percent api q (interval_pool_emission iv))) (\<lambda>budget.
      Ok (self\<lparr>interval_params := iv\<lparr>epoch_reward_budget := budget\<rparr>\<rparr>)))))"

definition recompute_saturation_point :: "'a mixnet_api_scheme \<Rightarrow> RewardingParams \<Rightarrow> RewardingParams mresult" where
  "recompute_saturation_point api self =
     (let iv = interval_params self in
      pbind (std (into_base_decimal api (rewarded_set_size self))) (\<lambda>k.
      pbind (panicking (dec_div api (staking_supply iv) k)) (\<lambda>point.
      Ok (self\<lparr>interval_params := iv\<lparr>stake_saturation_point := point\<rparr>\<rparr>))))"

definition try_apply_updates ::
    "'a mixnet_api_scheme \<Rightarrow> RewardingParams \<Rightarrow> IntervalRewardingParamsUpdate \<Rightarrow> nat \<Rightarrow> RewardingParams mresult" where
  "try_apply_updates api self updates epochs_in_interval =
     (if \<not> contains_updates updates then Err EmptyParamsChangeMsg
      else
        let budget = upd_reward_pool updates \<noteq> None \<or> upd_interval_pool_emission updates \<noteq> None;
            saturation = upd_staking_supply updates \<noteq> None \<or> upd_rewarded_set_size updates \<noteq> None;
            self = self\<lparr>interval_params := update_interval_params updates (interval_params self)\<rparr>
        in
        pbind (Some (update_rewarded_set_size updates self)) (\<lambda>self.
        pbind (if budget then recompute_epoch_budget api epochs_in_interval self else Ok self) (\<lambda>self.
        if saturation then recompute_saturation_point api self else Ok self)))"

record InitialRewardingParams =
  initial_reward_pool :: decimal
  initial_staking_supply :: decimal
  initial_staking_supply_scale_factor :: Percent
  initial_sybil_resistance :: Percent
  initial_active_set_work_factor :: decimal
  initial_interval_pool_emission :: Percent
  initial_rewarded_set_size :: nat
  initial_active_set_size :: nat

definition into_rewarding_params ::
    "'a mixnet_api_scheme \<Rightarrow> InitialRewardingParams \<Rightarrow> nat \<Rightarrow> RewardingParams mresult" where
  "into_rewarding_params api self epochs_in_interval =
     pbind (std (into_base_decimal api epochs_in_interval)) (\<lambda>n.
     pbind (panicking (dec_div api (initial_reward_pool self) n)) (\<lambda>q.
     pbind (panicking (decimal_mul_percent api q (initial_interval_pool_emission self))) (\<lambda>budget.
     pbind (std (into_base_decimal api (initial_rewarded_set_size self))) (\<lambda>k.
     pbind (panicking (dec_div api (initial_staking_supply self) k)) (\<lambda>point.
     Ok \<lparr>interval_params =
           \<lparr>reward_pool = initial_reward_pool self,
            staking_supply = initial_staking_supply self,
            staking_supply_scale_factor = initial_staking_supply_scale_factor self,
            epoch_reward_budget = budget,
            stake_saturation_point = point,
            sybil_resistance = initial_sybil_resistance self,
            active_set_work_factor = initial_active_set_work_factor self,
            interval_pool_emission = initial_interval_pool_emission self\<rparr>,
         rewarded_set_size = initial_rewarded_set_size self,
         active_set_size = initial_active_set_size self\<rparr>)))))"

section \<open>Delegations\<close>

definition TOKEN_SUPPLY :: nat where "TOKEN_SUPPLY = 1000000000000000"
definition UNIT_DELEGATION_BASE :: decimal where "UNIT_DELEGATION_BASE = 1000000000 * 1000000000000000000"

record Delegation =
  del_owner :: Addr
  del_mix_id :: MixId
  cumulative_reward_ratio :: decimal
  del_amount :: Coin
  del_height :: nat
  del_proxy :: "Addr option"

definition delegation_new ::
    "Addr \<Rightarrow> MixId \<Rightarrow> decimal \<Rightarrow> Coin \<Rightarrow> nat \<Rightarrow> Addr option \<Rightarrow> Delegation option" where
  "delegation_new owner mix_id ratio a height proxy =
     (if amount a \<le> TOKEN_SUPPLY
      then Some \<lparr>del_owner = owner, del_mix_id = mix_id, cumulative_reward_ratio = ratio, del_amount = a,
                 del_height = height, del_proxy = proxy\<rparr>
      else None)"

definition dec_amount :: "'a mixnet_api_scheme \<Rightarrow> Delegation \<Rightarrow> StdError + decimal" where
  "dec_amount api self = into_base_decimal api (amount (del_amount self))"

section \<open>Bonds\<close>

datatype Layer = One | Two | Three

fun layer_try_from :: "byte \<Rightarrow> MixnetContractError + Layer" where
  "layer_try_from i =
     (if i = 1 then Inr One else if i = 2 then Inr Two else if i = 3 then Inr Three else Inl (InvalidLayer i))"

fun layer_to_u8 :: "Layer \<Rightarrow> byte" where
  "layer_to_u8 One = 1"
| "layer_to_u8 Two = 2"
| "layer_to_u8 Three = 3"

datatype RewardedSetNodeStatus = Active | Standby

definition is_active :: "RewardedSetNodeStatus \<Rightarrow> bool" where
  "is_active self \<longleftrightarrow> self = Active"

record MixNodeBond =
  bond_mix_id :: MixId
  bond_owner :: Addr
  original_pledge :: Coin
  bond_layer :: Layer
  bond_mix_node :: MixNode
  bond_proxy :: "Addr option"
  bonding_height :: nat
  is_unbonding :: bool

definition mixnode_bond_new ::
    "MixId \<Rightarrow> Addr \<Rightarrow> Coin \<Rightarrow> Layer \<Rightarrow> MixNode \<Rightarrow> Addr option \<Rightarrow> nat \<Rightarrow> MixNodeBond" where
  "mixnode_bond_new mix_id owner pledge layer mix_node proxy height =
     \<lparr>bond_mix_id = mix_id, bond_owner = owner, original_pledge = pledge, bond_layer = layer,
      bond_mix_node = mix_node, bond_proxy = proxy, bonding_height = height, is_unbonding = False\<rparr>"

definition bond_identity :: "MixNodeBond \<Rightarrow> IdentityKey" where
  "bond_identity self = mn_identity_key (bond_mix_node self)"

record UnbondedMixnode =
  unbonded_identity_key :: IdentityKey
  unbonded_owner :: Addr
  unbonded_proxy :: "Addr option"
  unbonding_height :: nat

record PendingMixNodeChanges =
  pledge_change :: "EpochEventId option"

definition pending_changes_default :: PendingMixNodeChanges where
  "pending_changes_default = \<lparr>pledge_change = None\<rparr>"

record GatewayBond =
  gb_pledge_amount :: Coin
  gb_owner :: Addr
  gb_block_height :: nat
  gb_gateway :: Gateway
  gb_proxy :: "Addr option"

definition gateway_bond_new :: "Coin \<Rightarrow> Addr \<Rightarrow> nat \<Rightarrow> Gateway \<Rightarrow> Addr option \<Rightarrow> GatewayBond" where
  "gateway_bond_new pledge owner height gateway proxy =
     \<lparr>gb_pledge_amount = pledge, gb_owner = owner, gb_block_height = height, gb_gateway = gateway, gb_proxy = proxy\<rparr>"

definition gateway_identity :: "GatewayBond \<Rightarrow> IdentityKey" where
  "gateway_identity self = gw_identity_key (gb_gateway self)"

record LayerDistribution =
  layer1 :: nat
  layer2 :: nat
  layer3 :: nat

definition layer_distribution_default :: LayerDistribution where
  "layer_distribution_default = \<lparr>layer1 = 0, layer2 = 0, layer3 = 0\<rparr>"

fun layer_count :: "LayerDistribution \<Rightarrow> Layer \<Rightarrow> nat" where
  "layer_count self One = layer1 self"
| "layer_count self Two = layer2 self"
| "layer_count self Three = layer3 self"

text \<open>\<open>min_by_key\<close> returns the first of several minima.\<close>

definition choose_with_fewest :: "LayerDistribution \<Rightarrow> Layer" where
  "choose_with_fewest self =
     (if layer1 self \<le> layer2 self \<and> layer1 self \<le> layer3 self then One
      else if layer2 self \<le> layer3 self then Two
      else Three)"

fun increment_layer_count :: "LayerDistribution \<Rightarrow> Layer \<Rightarrow> LayerDistribution option" where
  "increment_layer_count self One = map_option (\<lambda>n. self\<lparr>layer1 := n\<rparr>) (u64_add (layer1 self) 1)"
| "increment_layer_count self Two = map_option (\<lambda>n. self\<lparr>layer2 := n\<rparr>) (u64_add (layer2 self) 1)"
| "increment_layer_count self Three = map_option (\<lambda>n. self\<lparr>layer3 := n\<rparr>) (u64_add (layer3 self) 1)"

fun decrement_layer_count :: "LayerDistribution \<Rightarrow> Layer \<Rightarrow> MixnetContractError + LayerDistribution" where
  "decrement_layer_count self One =
     (if layer1 self = 0 then Inl (OverflowSubtraction (layer1 self) 1) else Inr (self\<lparr>layer1 := layer1 self - 1\<rparr>))"
| "decrement_layer_count self Two =
     (if layer2 self = 0 then Inl (OverflowSubtraction (layer2 self) 1) else Inr (self\<lparr>layer2 := layer2 self - 1\<rparr>))"
| "decrement_layer_count self Three =
     (if layer3 self = 0 then Inl (OverflowSubtraction (layer3 self) 1) else Inr (self\<lparr>layer3 := layer3 self - 1\<rparr>))"

section \<open>Epochs and intervals\<close>

record Env =
  block_height :: nat
  block_time :: nat

record EpochStatus =
  being_advanced_by :: Addr
  epoch_state :: EpochState

definition epoch_status_new :: "Addr \<Rightarrow> EpochStatus" where
  "epoch_status_new by = \<lparr>being_advanced_by = by, epoch_state = InProgress\<rparr>"

definition update_last_rewarded :: "EpochStatus \<Rightarrow> MixId \<Rightarrow> MixnetContractError + EpochStatus \<times> bool" where
  "update_last_rewarded self new_last_rewarded =
     (case epoch_state self of
        Rewarding last_rewarded final_node_id \<Rightarrow>
          if new_last_rewarded \<le> last_rewarded then Inl (RewardingOutOfOrder last_rewarded new_last_rewarded)
          else Inr (self\<lparr>epoch_state := Rewarding new_last_rewarded final_node_id\<rparr>, new_last_rewarded = final_node_id)
      | state \<Rightarrow> Inl (UnexpectedNonRewardingEpochState state))"

definition ensure_is_in_event_reconciliation_state :: "EpochStatus \<Rightarrow> MixnetContractError + unit" where
  "ensure_is_in_event_reconciliation_state self =
     (if epoch_state self \<noteq> ReconcilingEvents then Inl (EpochNotInEventReconciliationState (epoch_state self)) else Inr ())"

definition ensure_is_in_advancement_state :: "EpochStatus \<Rightarrow> MixnetContractError + unit" where
  "ensure_is_in_advancement_state self =
     (if epoch_state self \<noteq> AdvancingEpoch then Inl (EpochNotInAdvancementState (epoch_state self)) else Inr ())"

record Interval =
  interval_id :: IntervalId
  epochs_in_interval :: nat
  current_epoch_start :: int
  current_epoch_id :: EpochId
  epoch_length :: nat
  total_elapsed_epochs :: EpochId

definition duration_from_secs :: "nat \<Rightarrow> nat" where
  "duration_from_secs s = s * NANOS"

definition duration_as_secs :: "nat \<Rightarrow> nat" where
  "duration_as_secs d = d div NANOS"

definition u32_mul_duration :: "nat \<Rightarrow> nat \<Rightarrow> nat option" where
  "u32_mul_duration k d = (if duration_as_secs (k * d) \<le> u64_max then Some (k * d) else None)"

definition block_seconds :: "Env \<Rightarrow> int" where
  "block_seconds env = int (timestamp_seconds (block_time env))"

definition init_interval :: "'a mixnet_api_scheme \<Rightarrow> nat \<Rightarrow> nat \<Rightarrow> Env \<Rightarrow> Interval option" where
  "init_interval api epochs len env =
     Option.bind (date_from_unix api (block_seconds env)) (\<lambda>start.
     Some \<lparr>interval_id = 0, epochs_in_interval = epochs, current_epoch_start = start, current_epoch_id = 0,
           epoch_length = len, total_elapsed_epochs = 0\<rparr>)"

definition force_change_epochs_in_interval :: "Interval \<Rightarrow> nat \<Rightarrow> Interval option" where
  "force_change_epochs_in_interval self epochs =
     (let self = self\<lparr>epochs_in_interval := epochs\<rparr> in
      if current_epoch_id self \<ge> epochs then
        if epochs = 0 then None
        else
          Option.bind (u32_add (interval_id self) (current_epoch_id self div epochs)) (\<lambda>i.
          Some (self\<lparr>interval_id := i, current_epoch_id := current_epoch_id self mod epochs\<rparr>))
      else Some self)"

definition change_epoch_length :: "Interval \<Rightarrow> nat \<Rightarrow> Interval" where
  "change_epoch_length self len = self\<lparr>epoch_length := len\<rparr>"

definition current_epoch_absolute_id :: "Interval \<Rightarrow> EpochId" where
  "current_epoch_absolute_id self = total_elapsed_epochs self"

definition current_epoch_end :: "'a mixnet_api_scheme \<Rightarrow> Interval \<Rightarrow> int option" where
  "current_epoch_end api self = date_add api (current_epoch_start self) (epoch_length self)"

definition epochs_until_interval_end :: "Interval \<Rightarrow> nat option" where
  "epochs_until_interval_end self = u32_sub (epochs_in_interval self) (current_epoch_id self)"

definition current_interval_end :: "'a mixnet_api_scheme \<Rightarrow> Interval \<Rightarrow> int option" where
  "current_interval_end api self =
     Option.bind (epochs_until_interval_end self) (\<lambda>n.
     Option.bind (u32_mul_duration n (epoch_length self)) (\<lambda>d.
     date_add api (current_epoch_start self) d))"

definition current_epoch_start_unix_timestamp :: "'a mixnet_api_scheme \<Rightarrow> Interval \<Rightarrow> int" where
  "current_epoch_start_unix_timestamp api self = date_unix api (current_epoch_start self)"

definition current_epoch_end_unix_timestamp :: "'a mixnet_api_scheme \<Rightarrow> Interval \<Rightarrow> int option" where
  "current_epoch_end_unix_timestamp api self = map_option (date_unix api) (current_epoch_end api self)"

definition current_interval_end_unix_timestamp :: "'a mixnet_api_scheme \<Rightarrow> Interval \<Rightarrow> int option" where
  "current_interval_end_unix_timestamp api self = map_option (date_unix api) (current_interval_end api self)"

definition is_current_epoch_over :: "'a mixnet_api_scheme \<Rightarrow> Interval \<Rightarrow> Env \<Rightarrow> bool option" where
  "is_current_epoch_over api self env =
     map_option (\<lambda>e. e \<le> block_seconds env) (current_epoch_end_unix_timestamp api self)"

definition is_current_interval_over :: "'a mixnet_api_scheme \<Rightarrow> Interval \<Rightarrow> Env \<Rightarrow> bool option" where
  "is_current_interval_over api self env =
     map_option (\<lambda>e. e \<le> block_seconds env) (current_interval_end_unix_timestamp api self)"

definition secs_until_current_interval_end :: "'a mixnet_api_scheme \<Rightarrow> Interval \<Rightarrow> Env \<Rightarrow> int option" where
  "secs_until_current_interval_end api self env =
     Option.bind (is_current_interval_over api self env) (\<lambda>over.
       if over then Some 0
       else map_option (\<lambda>e. e - block_seconds env) (current_interval_end_unix_timestamp api self))"

definition advance_epoch :: "'a mixnet_api_scheme \<Rightarrow> Interval \<Rightarrow> Interval option" where
  "advance_epoch api self =
     Option.bind (u32_sub (epochs_in_interval self) 1) (\<lambda>last.
     if current_epoch_id self = last then
       Option.bind (u32_add (interval_id self) 1) (\<lambda>i.
       Option.bind (current_epoch_end api self) (\<lambda>start.
       Option.bind (u32_add (total_elapsed_epochs self) 1) (\<lambda>total.
       Some (self\<lparr>interval_id := i, current_epoch_start := start, current_epoch_id := 0, total_elapsed_epochs := total\<rparr>))))
     else
       Option.bind (current_epoch_end api self) (\<lambda>start.
       Option.bind (u32_add (current_epoch_id self) 1) (\<lambda>e.
       Option.bind (u32_add (total_elapsed_epochs self) 1) (\<lambda>total.
       Some (self\<lparr>current_epoch_start := start, current_epoch_id := e, total_elapsed_epochs := total\<rparr>)))))"

section \<open>Pending events\<close>

datatype PendingEpochEventKind =
    EvDelegate Addr MixId Coin "Addr option"
  | EvUndelegate Addr MixId "Addr option"
  | EvPledgeMore MixId Coin
  | EvDecreasePledge MixId Coin
  | EvUnbondMixnode MixId
  | EvUpdateActiveSetSize nat

record PendingEpochEventData =
  ee_created_at :: BlockHeight
  ee_kind :: PendingEpochEventKind

datatype PendingIntervalEventKind =
    EvChangeMixCostParams MixId MixNodeCostParams
  | EvUpdateRewardingParams IntervalRewardingParamsUpdate
  | EvUpdateIntervalConfig nat nat

record PendingIntervalEventData =
  ie_created_at :: BlockHeight
  ie_kind :: PendingIntervalEventKind

end
