(* ===== verification/Mixnet_Rewarding.thy ===== *)
theory Mixnet_Rewarding
  imports Mixnet_Types Complex_Main
begin

text \<open>
  Rewards of a mixnode: \<open>MixNodeRewarding\<close> of \<open>mixnet-contract/src/mixnode.rs\<close> with the stake of
  its operator and of all its delegators, and the parameters of \<open>reward_params.rs\<close>.

  The lemmas give the value of every operation under the documented arithmetic of decimals. The
  rewards of one epoch stay within its budget, the split of a reward loses nothing, and the
  delegators' part of a node always covers what its delegations are worth.
\<close>

section \<open>Operations\<close>

record RewardDistribution =
  dist_operator :: decimal
  dist_delegates :: decimal

record MixNodeRewarding =
  cost_params :: MixNodeCostParams
  operator :: decimal
  delegates :: decimal
  total_unit_reward :: decimal
  unit_delegation :: decimal
  last_rewarded_epoch :: EpochId
  unique_delegations :: nat

definition initialise_new :: "'a mixnet_api_scheme \<Rightarrow> MixNodeCostParams \<Rightarrow> Coin \<Rightarrow> EpochId \<Rightarrow> MixNodeRewarding mresult" where
  "initialise_new api costs initial_pledge current_epoch =
     (if amount initial_pledge \<le> TOKEN_SUPPLY then
        pbind (std (into_base_decimal api (amount initial_pledge))) (\<lambda>pledge.
        Ok \<lparr>cost_params = costs, operator = pledge, delegates = 0, total_unit_reward = 0,
            unit_delegation = UNIT_DELEGATION_BASE, last_rewarded_epoch = current_epoch, unique_delegations = 0\<rparr>)
      else None)"

definition still_bonded :: "MixNodeRewarding \<Rightarrow> bool" where
  "still_bonded self \<longleftrightarrow> operator self \<noteq> 0"

definition operator_pledge_with_reward :: "'a mixnet_api_scheme \<Rightarrow> MixNodeRewarding \<Rightarrow> string \<Rightarrow> Coin option" where
  "operator_pledge_with_reward api self d = truncate_reward api (operator self) d"

definition pending_operator_reward :: "'a mixnet_api_scheme \<Rightarrow> MixNodeRewarding \<Rightarrow> Coin \<Rightarrow> Coin option" where
  "pending_operator_reward api self pledge =
     Option.bind (truncate_reward api (operator self) (denom pledge)) (\<lambda>reward_with_pledge.
     Option.bind (uint128_sub (amount reward_with_pledge) (amount pledge)) (\<lambda>a.
     Some \<lparr>denom = denom reward_with_pledge, amount = a\<rparr>))"

definition pending_detailed_operator_reward :: "'a mixnet_api_scheme \<Rightarrow> MixNodeRewarding \<Rightarrow> Coin \<Rightarrow> (StdError + decimal) option" where
  "pending_detailed_operator_reward api self pledge =
     pbind (Some (into_base_decimal api (amount pledge))) (\<lambda>initial_dec.
     if operator self < initial_dec then None
     else panicking (uint128_sub (operator self) initial_dec))"

definition withdraw_operator_reward :: "'a mixnet_api_scheme \<Rightarrow> MixNodeRewarding \<Rightarrow> Coin \<Rightarrow> (MixNodeRewarding \<times> Coin) mresult" where
  "withdraw_operator_reward api self pledge =
     pbind (std (into_base_decimal api (amount pledge))) (\<lambda>initial_dec.
     if operator self < initial_dec then None
     else
       pbind (panicking (uint128_sub (operator self) initial_dec)) (\<lambda>diff.
       pbind (panicking (truncate_reward api diff (denom pledge))) (\<lambda>coin.
       Ok (self\<lparr>operator := initial_dec\<rparr>, coin))))"

definition full_reward_ratio :: "MixNodeRewarding \<Rightarrow> decimal" where
  "full_reward_ratio self = total_unit_reward self"

definition determine_delegation_reward :: "'a mixnet_api_scheme \<Rightarrow> MixNodeRewarding \<Rightarrow> Delegation \<Rightarrow> (StdError + decimal) option" where
  "determine_delegation_reward api self delegation =
     (let starting_ratio = cumulative_reward_ratio delegation; ending_ratio = full_reward_ratio self in
      pbind (panicking (uint128_add starting_ratio (unit_delegation self))) (\<lambda>adjust.
      pbind (panicking (uint128_sub ending_ratio starting_ratio)) (\<lambda>diff.
      pbind (Some (dec_amount api delegation)) (\<lambda>a.
      pbind (panicking (dec_mul api diff a)) (\<lambda>product.
      panicking (dec_div api product adjust))))))"

definition pending_delegator_reward :: "'a mixnet_api_scheme \<Rightarrow> MixNodeRewarding \<Rightarrow> Delegation \<Rightarrow> (StdError + Coin) option" where
  "pending_delegator_reward api self delegation =
     pbind (determine_delegation_reward api self delegation) (\<lambda>reward.
     panicking (truncate_reward api reward (denom (del_amount delegation))))"

text \<open>The conversion of the errors of a fallible computation by the question mark.\<close>

definition std_result :: "(StdError + 'b) option \<Rightarrow> 'b mresult" where
  "std_result r = map_option (map_sum StdErr id) r"

definition decrease_delegates_decimal :: "MixNodeRewarding \<Rightarrow> decimal \<Rightarrow> MixnetContractError + MixNodeRewarding" where
  "decrease_delegates_decimal self a =
     (if delegates self < a then Inl (OverflowDecimalSubtraction (delegates self) a)
      else Inr (self\<lparr>delegates := delegates self - a\<rparr>))"

definition decrease_operator_decimal :: "MixNodeRewarding \<Rightarrow> decimal \<Rightarrow> MixnetContractError + MixNodeRewarding" where
  "decrease_operator_decimal self a =
     (if operator self < a then Inl (OverflowDecimalSubtraction (operator self) a)
      else Inr (self\<lparr>operator := operator self - a\<rparr>))"

definition withdraw_delegator_reward ::
    "'a mixnet_api_scheme \<Rightarrow> MixNodeRewarding \<Rightarrow> Delegation \<Rightarrow> (MixNodeRewarding \<times> Delegation \<times> Coin) mresult" where
  "withdraw_delegator_reward api self delegation =
     pbind (std_result (determine_delegation_reward api self delegation)) (\<lambda>reward.
     pbind (Some (decrease_delegates_decimal self reward)) (\<lambda>self.
     let delegation = delegation\<lparr>cumulative_reward_ratio := full_reward_ratio self\<rparr> in
     pbind (panicking (truncate_reward api reward (denom (del_amount delegation)))) (\<lambda>coin.
     Ok (self, delegation, coin))))"

definition node_bond :: "MixNodeRewarding \<Rightarrow> decimal option" where
  "node_bond self = uint128_add (operator self) (delegates self)"

definition pledge_saturation :: "'a mixnet_api_scheme \<Rightarrow> MixNodeRewarding \<Rightarrow> RewardingParams \<Rightarrow> decimal option" where
  "pledge_saturation api self params =
     (if stake_saturation_point (interval_params params) < operator self then Some DECIMAL_ONE
      else dec_div api (operator self) (stake_saturation_point (interval_params params)))"

definition bond_saturation :: "'a mixnet_api_scheme \<Rightarrow> MixNodeRewarding \<Rightarrow> RewardingParams \<Rightarrow> decimal option" where
  "bond_saturation api self params =
     Option.bind (node_bond self) (\<lambda>bond.
     if stake_saturation_point (interval_params params) < bond then Some DECIMAL_ONE
     else dec_div api bond (stake_saturation_point (interval_params params)))"

definition uncapped_bond_saturation :: "'a mixnet_api_scheme \<Rightarrow> MixNodeRewarding \<Rightarrow> RewardingParams \<Rightarrow> decimal option" where
  "uncapped_bond_saturation api self params =
     Option.bind (node_bond self) (\<lambda>bond. dec_div api bond (stake_saturation_point (interval_params params)))"

definition node_reward :: "'a mixnet_api_scheme \<Rightarrow> MixNodeRewarding \<Rightarrow> RewardingParams \<Rightarrow> NodeRewardParams \<Rightarrow> decimal option" where
  "node_reward api self params node_params =
     (let alpha = percent_value (sybil_resistance (interval_params params)) in
      Option.bind (if in_active_set node_params then active_node_work api params else standby_node_work api params) (\<lambda>work.
      Option.bind (dec_mul api (epoch_reward_budget (interval_params params)) (percent_value (performance node_params))) (\<lambda>b.
      Option.bind (bond_saturation api self params) (\<lambda>bond_sat.
      Option.bind (dec_mul api b bond_sat) (\<lambda>b.
      Option.bind (pledge_saturation api self params) (\<lambda>pledge_sat.
      Option.bind (dec_mul api alpha pledge_sat) (\<lambda>p.
      Option.bind (dec_rewarded_set_size api params) (\<lambda>k.
      Option.bind (dec_div api p k) (\<lambda>p.
      Option.bind (uint128_add work p) (\<lambda>w.
      Option.bind (dec_mul api b w) (\<lambda>b.
      Option.bind (uint128_add DECIMAL_ONE alpha) (\<lambda>d.
      dec_div api b d))))))))))))"

definition epoch_operating_cost :: "'a mixnet_api_scheme \<Rightarrow> MixNodeCostParams \<Rightarrow> nat \<Rightarrow> decimal option" where
  "epoch_operating_cost api self epochs = dec_from_ratio api (amount (interval_operating_cost self)) epochs"

text \<open>The debug assertion on the split is not part of release builds; see \<open>reward_split_exact\<close>.\<close>

definition determine_reward_split ::
    "'a mixnet_api_scheme \<Rightarrow> MixNodeRewarding \<Rightarrow> decimal \<Rightarrow> Percent \<Rightarrow> nat \<Rightarrow> RewardDistribution option" where
  "determine_reward_split api self reward node_performance epochs =
     Option.bind (epoch_operating_cost api (cost_params self) epochs) (\<lambda>cost.
     Option.bind (dec_mul api cost (percent_value node_performance)) (\<lambda>node_cost.
     if node_cost < reward then
       let profit_margin = percent_value (profit_margin_percent (cost_params self)) in
       Option.bind (uint128_sub reward node_cost) (\<lambda>profit.
       Option.bind (node_bond self) (\<lambda>bond.
       Option.bind (dec_div api (operator self) bond) (\<lambda>operator_share.
       Option.bind (uint128_sub DECIMAL_ONE profit_margin) (\<lambda>rest.
       Option.bind (dec_mul api rest operator_share) (\<lambda>share.
       Option.bind (uint128_add profit_margin share) (\<lambda>part.
       Option.bind (dec_mul api profit part) (\<lambda>op.
       Option.bind (uint128_sub profit op) (\<lambda>rest.
       Option.bind (uint128_add op node_cost) (\<lambda>op.
       Some \<lparr>dist_operator = op, dist_delegates = rest\<rparr>)))))))))
     else Some \<lparr>dist_operator = reward, dist_delegates = 0\<rparr>))"

definition calculate_epoch_reward ::
    "'a mixnet_api_scheme \<Rightarrow> MixNodeRewarding \<Rightarrow> RewardingParams \<Rightarrow> NodeRewardParams \<Rightarrow> nat \<Rightarrow> RewardDistribution option" where
  "calculate_epoch_reward api self params node_params epochs =
     Option.bind (node_reward api self params node_params) (\<lambda>reward.
     determine_reward_split api self reward (performance node_params) epochs)"

definition delegator_share :: "'a mixnet_api_scheme \<Rightarrow> MixNodeRewarding \<Rightarrow> decimal \<Rightarrow> decimal option" where
  "delegator_share api self a = (if delegates self = 0 then Some 0 else dec_div api a (delegates self))"

definition distribute_rewards ::
    "'a mixnet_api_scheme \<Rightarrow> MixNodeRewarding \<Rightarrow> RewardDistribution \<Rightarrow> EpochId \<Rightarrow> MixNodeRewarding option" where
  "distribute_rewards api self distribution absolute_epoch_id =
     Option.bind (uint128_add (unit_delegation self) (total_unit_reward self)) (\<lambda>unit.
     Option.bind (delegator_share api self unit) (\<lambda>share.
     Option.bind (dec_mul api (dist_delegates distribution) share) (\<lambda>unit_delegation_reward.
     Option.bind (uint128_add (operator self) (dist_operator distribution)) (\<lambda>op.
     Option.bind (uint128_add (delegates self) (dist_delegates distribution)) (\<lambda>del.
     Option.bind (uint128_add (total_unit_reward self) unit_delegation_reward) (\<lambda>total.
     Some (self\<lparr>operator := op, delegates := del, total_unit_reward := total,
                last_rewarded_epoch := absolute_epoch_id\<rparr>)))))))"

definition epoch_rewarding ::
    "'a mixnet_api_scheme \<Rightarrow> MixNodeRewarding \<Rightarrow> RewardingParams \<Rightarrow> NodeRewardParams \<Rightarrow> nat \<Rightarrow> EpochId \<Rightarrow> MixNodeRewarding option" where
  "epoch_rewarding api self params node_params epochs absolute_epoch_id =
     Option.bind (calculate_epoch_reward api self params node_params epochs) (\<lambda>distribution.
     distribute_rewards api self distribution absolute_epoch_id)"

definition increase_delegates_uint128 :: "'a mixnet_api_scheme \<Rightarrow> MixNodeRewarding \<Rightarrow> nat \<Rightarrow> MixNodeRewarding mresult" where
  "increase_delegates_uint128 api self a =
     pbind (std (into_base_decimal api a)) (\<lambda>d.
     pbind (panicking (uint128_add (delegates self) d)) (\<lambda>new.
     Ok (self\<lparr>delegates := new\<rparr>)))"

definition add_base_delegation :: "'a mixnet_api_scheme \<Rightarrow> MixNodeRewarding \<Rightarrow> nat \<Rightarrow> MixNodeRewarding mresult" where
  "add_base_delegation api self a =
     pbind (increase_delegates_uint128 api self a) (\<lambda>self.
     pbind (panicking (u32_add (unique_delegations self) 1)) (\<lambda>n.
     Ok (self\<lparr>unique_delegations := n\<rparr>)))"

definition increase_operator_uint128 :: "'a mixnet_api_scheme \<Rightarrow> MixNodeRewarding \<Rightarrow> nat \<Rightarrow> MixNodeRewarding mresult" where
  "increase_operator_uint128 api self a =
     pbind (std (into_base_decimal api a)) (\<lambda>d.
     pbind (panicking (uint128_add (operator self) d)) (\<lambda>new.
     Ok (self\<lparr>operator := new\<rparr>)))"

definition decrease_operator_uint128 :: "'a mixnet_api_scheme \<Rightarrow> MixNodeRewarding \<Rightarrow> nat \<Rightarrow> MixNodeRewarding mresult" where
  "decrease_operator_uint128 api self a =
     pbind (std (into_base_decimal api a)) (\<lambda>d.
     if operator self < d then Err (OverflowDecimalSubtraction (operator self) d)
     else Ok (self\<lparr>operator := operator self - d\<rparr>))"

definition decrement_unique_delegations :: "MixNodeRewarding \<Rightarrow> MixnetContractError + MixNodeRewarding" where
  "decrement_unique_delegations self =
     (if unique_delegations self = 0 then Inl (OverflowSubtraction 0 1)
      else Inr (self\<lparr>unique_delegations := unique_delegations self - 1\<rparr>))"

definition decrease_delegates_uint128 :: "'a mixnet_api_scheme \<Rightarrow> MixNodeRewarding \<Rightarrow> nat \<Rightarrow> MixNodeRewarding mresult" where
  "decrease_delegates_uint128 api self a =
     pbind (std (into_base_decimal api a)) (\<lambda>d. Some (decrease_delegates_decimal self d))"

definition remove_delegation_uint128 :: "'a mixnet_api_scheme \<Rightarrow> MixNodeRewarding \<Rightarrow> nat \<Rightarrow> MixNodeRewarding mresult" where
  "remove_delegation_uint128 api self a =
     pbind (decrease_delegates_uint128 api self a) (\<lambda>self. Some (decrement_unique_delegations self))"

definition remove_delegation_decimal :: "MixNodeRewarding \<Rightarrow> decimal \<Rightarrow> MixNodeRewarding mresult" where
  "remove_delegation_decimal self a =
     pbind (Some (decrease_delegates_decimal self a)) (\<lambda>self.
     pbind (Some (decrement_unique_delegations self)) (\<lambda>self.
     if unique_delegations self = 0 then
       pbind (panicking (uint128_add (operator self) (delegates self))) (\<lambda>op.
       Ok (self\<lparr>operator := op, delegates := 0\<rparr>))
     else Ok self))"

definition undelegate :: "'a mixnet_api_scheme \<Rightarrow> MixNodeRewarding \<Rightarrow> Delegation \<Rightarrow> (MixNodeRewarding \<times> Coin) mresult" where
  "undelegate api self delegation =
     pbind (std_result (determine_delegation_reward api self delegation)) (\<lambda>reward.
     pbind (std (dec_amount api delegation)) (\<lambda>a.
     pbind (panicking (uint128_add reward a)) (\<lambda>full_amount.
     pbind (remove_delegation_decimal self full_amount) (\<lambda>self.
     pbind (panicking (truncate_reward api full_amount (denom (del_amount delegation)))) (\<lambda>coin.
     Ok (self, coin))))))"

section \<open>Values of the operations\<close>

lemma fits_eq [simp]: "fits x = Some y \<longleftrightarrow> y = x \<and> x \<le> u128_max"
  by (auto simp: fits_def)

lemma fits_None [simp]: "fits x = None \<longleftrightarrow> u128_max < x"
  by (auto simp: fits_def)

lemma DECIMAL_ONE_pos [simp]: "0 < DECIMAL_ONE" "DECIMAL_ONE \<noteq> 0"
  by (simp_all add: DECIMAL_ONE_def)

lemma decimals_mul: "decimals_ok api \<Longrightarrow> dec_mul api a b = fits (a * b div DECIMAL_ONE)"
  by (simp add: decimals_ok_def)

lemma decimals_div: "decimals_ok api \<Longrightarrow> dec_div api a b = (if b = 0 then None else fits (a * DECIMAL_ONE div b))"
  by (simp add: decimals_ok_def)

lemma decimals_from_ratio:
  "decimals_ok api \<Longrightarrow> dec_from_ratio api a b = (if b = 0 then None else fits (a * DECIMAL_ONE div b))"
  by (simp add: decimals_ok_def)

lemma decimals_truncate: "decimals_ok api \<Longrightarrow> truncate_decimal api a = fits (a div DECIMAL_ONE)"
  by (simp add: decimals_ok_def truncate_decimal_def)

lemma into_base_decimal_Inr:
  "decimals_ok api \<Longrightarrow> into_base_decimal api n = Inr d \<longleftrightarrow> d = n * DECIMAL_ONE \<and> n * DECIMAL_ONE \<le> u128_max"
  by (auto simp: into_base_decimal_def decimals_ok_def fits_def)

lemma into_base_decimal_fits:
  "decimals_ok api \<Longrightarrow> n * DECIMAL_ONE \<le> u128_max \<Longrightarrow> into_base_decimal api n = Inr (n * DECIMAL_ONE)"
  by (simp add: into_base_decimal_Inr)

lemma std_simps [simp]: "std (Inr x) = Ok x" "std (Inl e) = Err (StdErr e)"
  by (simp_all add: std_def)

lemma std_result_simps [simp]:
  "std_result None = None" "std_result (Some (Inr x)) = Ok x" "std_result (Some (Inl e)) = Err (StdErr e)"
  by (simp_all add: std_result_def)

lemma std_eq_Inr: "std r = Some (Inr x) \<longleftrightarrow> r = Inr x"
  by (cases r) auto

lemma std_result_eq_Inr: "std_result r = Some (Inr x) \<longleftrightarrow> r = Some (Inr x)"
  by (auto simp: std_result_def)

lemmas decimal_values = decimals_mul decimals_div decimals_from_ratio decimals_truncate into_base_decimal_Inr

lemmas result_eqs = pbind_eq_Inr panicking_eq_Inr std_eq_Inr std_result_eq_Inr bind_eq_Some_conv

lemma u32_sub_eq [simp]: "u32_sub a b = Some c \<longleftrightarrow> c = a - b \<and> b \<le> a"
  by (auto simp: u32_sub_def)

lemma u32_add_eq [simp]: "u32_add a b = Some c \<longleftrightarrow> c = a + b \<and> a + b \<le> u32_max"
  by (auto simp: u32_add_def)

lemma div_mult_le': "a div b * b \<le> (a :: nat)"
  by simp

text \<open>The work of a node in reserve and of an active node.\<close>

lemma standby_node_work_bound:
  assumes "decimals_ok api" "standby_node_work api P = Some w"
  shows "active_set_size P \<le> rewarded_set_size P"
    and "w * (active_set_work_factor (interval_params P) * active_set_size P
              + DECIMAL_ONE * (rewarded_set_size P - active_set_size P)) \<le> DECIMAL_ONE * DECIMAL_ONE"
proof -
  define f where "f = active_set_work_factor (interval_params P)"
  define k where "k = rewarded_set_size P"
  define a where "a = active_set_size P"
  have le: "a \<le> k" and one: "DECIMAL_ONE \<le> f" and
      w: "w = DECIMAL_ONE * DECIMAL_ONE div (f * k - (f - DECIMAL_ONE) * (k - a))"
    using assms
    by (auto simp: standby_node_work_def Let_def bind_eq_Some_conv dec_rewarded_set_size_def dec_standby_set_size_def
        decimal_values f_def k_def a_def mult.assoc [symmetric] split: if_splits)
  have "f * k - (f - DECIMAL_ONE) * (k - a) = f * a + DECIMAL_ONE * (k - a)"
  proof -
    obtain g where g: "f = g + DECIMAL_ONE" using one by (metis le_add_diff_inverse2)
    obtain s where s: "k = a + s" using le by (metis le_add_diff_inverse)
    show ?thesis by (simp add: g s algebra_simps)
  qed
  then show "w * (active_set_work_factor (interval_params P) * active_set_size P
              + DECIMAL_ONE * (rewarded_set_size P - active_set_size P)) \<le> DECIMAL_ONE * DECIMAL_ONE"
    unfolding w f_def [symmetric] k_def [symmetric] a_def [symmetric] by simp
  show "active_set_size P \<le> rewarded_set_size P" using le by (simp add: a_def k_def)
qed

lemma active_node_work_bound:
  assumes "decimals_ok api" "active_node_work api P = Some w"
  obtains s where "standby_node_work api P = Some s" "w * DECIMAL_ONE \<le> active_set_work_factor (interval_params P) * s"
  using assms by (auto simp: active_node_work_def bind_eq_Some_conv decimal_values)

lemma mult_div_le_left: "b \<le> c \<Longrightarrow> a * b div c \<le> (a :: nat)"
  by (cases "c = 0") (auto intro: order_trans [OF div_le_mono [of "a * b" "a * c" c]])

lemma saturation_le: "a \<le> b \<Longrightarrow> a * DECIMAL_ONE div b \<le> DECIMAL_ONE"
  using mult_div_le_left [of a b DECIMAL_ONE] by (simp add: mult.commute)

lemma pledge_saturation_le:
  "decimals_ok api \<Longrightarrow> pledge_saturation api r P = Some s \<Longrightarrow> s \<le> DECIMAL_ONE"
  by (auto simp: pledge_saturation_def decimals_div saturation_le not_less split: if_splits)

lemma bond_saturation_le:
  "decimals_ok api \<Longrightarrow> bond_saturation api r P = Some s \<Longrightarrow> s \<le> DECIMAL_ONE"
  by (auto simp: bond_saturation_def bind_eq_Some_conv decimals_div saturation_le not_less split: if_splits)

section \<open>The rewards of an epoch\<close>

lemma node_reward_bound:
  assumes ok: "decimals_ok api" and r: "node_reward api node P np = Some r"
    and perf: "percent_value (performance np) \<le> DECIMAL_ONE"
  obtains work p where
    "(if in_active_set np then active_node_work api P else standby_node_work api P) = Some work"
    "p * rewarded_set_size P \<le> percent_value (sybil_resistance (interval_params P))"
    "r * (DECIMAL_ONE + percent_value (sybil_resistance (interval_params P)))
       \<le> epoch_reward_budget (interval_params P) * (work + p)"
proof -
  define \<alpha> where "\<alpha> = percent_value (sybil_resistance (interval_params P))"
  define B where "B = epoch_reward_budget (interval_params P)"
  define q where "q = percent_value (performance np)"
  define k where "k = rewarded_set_size P"
  obtain work bs ps where
      work: "(if in_active_set np then active_node_work api P else standby_node_work api P) = Some work"
    and bs: "bond_saturation api node P = Some bs" and ps: "pledge_saturation api node P = Some ps"
    and k: "k \<noteq> 0"
    and r_eq: "r = B * q div DECIMAL_ONE * bs div DECIMAL_ONE
        * (work + \<alpha> * ps div DECIMAL_ONE * DECIMAL_ONE div (k * DECIMAL_ONE)) div DECIMAL_ONE * DECIMAL_ONE
        div (DECIMAL_ONE + \<alpha>)"
    using r
    by (auto simp: node_reward_def Let_def bind_eq_Some_conv dec_rewarded_set_size_def decimal_values [OF ok]
        \<alpha>_def B_def q_def k_def split: if_splits)
  define p where "p = \<alpha> * ps div DECIMAL_ONE div k"
  define b where "b = B * q div DECIMAL_ONE * bs div DECIMAL_ONE"
  have "b \<le> B" unfolding b_def
    using mult_div_le_left [of q DECIMAL_ONE B] mult_div_le_left [of bs DECIMAL_ONE "B * q div DECIMAL_ONE"]
      perf bond_saturation_le [OF ok bs] by (simp add: q_def)
  moreover have "r * (DECIMAL_ONE + \<alpha>) \<le> b * (work + p)"
  proof -
    have "r = b * (work + p) div DECIMAL_ONE * DECIMAL_ONE div (DECIMAL_ONE + \<alpha>)"
      by (simp add: r_eq b_def p_def)
    then have "r * (DECIMAL_ONE + \<alpha>) \<le> b * (work + p) div DECIMAL_ONE * DECIMAL_ONE"
      by (simp only: div_mult_le')
    also have "\<dots> \<le> b * (work + p)" by (rule div_mult_le')
    finally show ?thesis .
  qed
  moreover have "p * k \<le> \<alpha>"
    unfolding p_def using div_mult_le' [of "\<alpha> * ps div DECIMAL_ONE" k]
      mult_div_le_left [of ps DECIMAL_ONE \<alpha>] pledge_saturation_le [OF ok ps] by linarith
  ultimately have "p * k \<le> \<alpha>" "r * (DECIMAL_ONE + \<alpha>) \<le> B * (work + p)"
    using mult_le_mono1 [of b B "work + p"] by (auto intro: order_trans)
  then show ?thesis using that [OF work] by (simp add: \<alpha>_def B_def k_def)
qed

text \<open>Summing over the nodes of the rewarded set.\<close>

fun node_rewards :: "'a mixnet_api_scheme \<Rightarrow> RewardingParams \<Rightarrow> (MixNodeRewarding \<times> NodeRewardParams) list \<Rightarrow> decimal list option" where
  "node_rewards api P [] = Some []"
| "node_rewards api P ((node, np) # nodes) =
     Option.bind (node_reward api node P np) (\<lambda>r.
     Option.bind (node_rewards api P nodes) (\<lambda>rs. Some (r # rs)))"

definition actives :: "('b \<times> NodeRewardParams) list \<Rightarrow> nat" where
  "actives nodes = length (filter (\<lambda>x. in_active_set (snd x)) nodes)"

definition standbys :: "('b \<times> NodeRewardParams) list \<Rightarrow> nat" where
  "standbys nodes = length (filter (\<lambda>x. \<not> in_active_set (snd x)) nodes)"

lemma actives_simps [simp]:
  "actives [] = 0" "actives (x # xs) = (if in_active_set (snd x) then Suc (actives xs) else actives xs)"
  "standbys [] = 0" "standbys (x # xs) = (if in_active_set (snd x) then standbys xs else Suc (standbys xs))"
  by (simp_all add: actives_def standbys_def)

lemma node_rewards_sum:
  assumes "\<alpha> = percent_value (sybil_resistance (interval_params P))" "k = rewarded_set_size P"
    and ok: "decimals_ok api"
  shows "node_rewards api P nodes = Some rs \<Longrightarrow> \<forall>x \<in> set nodes. percent_value (performance (snd x)) \<le> DECIMAL_ONE
    \<Longrightarrow> 0 < standbys nodes \<longrightarrow> standby_node_work api P = Some ws
    \<Longrightarrow> 0 < actives nodes \<longrightarrow> active_node_work api P = Some wa
    \<Longrightarrow> sum_list rs * (DECIMAL_ONE + \<alpha>) * k
       \<le> epoch_reward_budget (interval_params P) * ((actives nodes * wa + standbys nodes * ws) * k
            + (actives nodes + standbys nodes) * \<alpha>)"
proof (induction nodes arbitrary: rs)
  case Nil
  then show ?case by simp
next
  case (Cons x nodes)
  obtain node np where x: "x = (node, np)" by force
  obtain r rs' where r: "node_reward api node P np = Some r" and rs': "node_rewards api P nodes = Some rs'"
    and rs: "rs = r # rs'"
    using Cons.prems(1) by (auto simp: x bind_eq_Some_conv)
  let ?B = "epoch_reward_budget (interval_params P)"
  let ?w = "if in_active_set np then wa else ws"
  have perf: "percent_value (performance np) \<le> DECIMAL_ONE" using Cons.prems(2) by (simp add: x)
  obtain work p where work: "(if in_active_set np then active_node_work api P else standby_node_work api P) = Some work"
    and p: "p * k \<le> \<alpha>" and le: "r * (DECIMAL_ONE + \<alpha>) \<le> ?B * (work + p)"
    using node_reward_bound [OF ok r perf] assms(1,2) by metis
  have "work = ?w" using work Cons.prems(3,4) by (auto simp: x split: if_splits)
  then have "r * (DECIMAL_ONE + \<alpha>) * k \<le> ?B * (?w + p) * k" using le by (simp add: mult_le_mono1)
  also have "\<dots> = ?B * (?w * k + p * k)" by (simp add: algebra_simps)
  also have "\<dots> \<le> ?B * (?w * k + \<alpha>)" using p by simp
  finally have head: "r * (DECIMAL_ONE + \<alpha>) * k \<le> ?B * (?w * k + \<alpha>)" .
  have "sum_list rs' * (DECIMAL_ONE + \<alpha>) * k
       \<le> ?B * ((actives nodes * wa + standbys nodes * ws) * k + (actives nodes + standbys nodes) * \<alpha>)"
    using Cons.prems by (intro Cons.IH rs') (auto simp: x split: if_splits)
  then show ?case using head by (auto simp: x rs algebra_simps)
qed

lemma node_rewards_work:
  assumes ok: "decimals_ok api" and rs: "node_rewards api P nodes = Some rs" and "nodes \<noteq> []"
  obtains ws where "standby_node_work api P = Some ws" "0 < rewarded_set_size P"
    "\<And>x. x \<in> set nodes \<Longrightarrow> in_active_set (snd x) \<Longrightarrow> \<exists>wa. active_node_work api P = Some wa
       \<and> wa * DECIMAL_ONE \<le> active_set_work_factor (interval_params P) * ws"
proof -
  have each: "\<exists>r. node_reward api (fst x) P (snd x) = Some r" if "x \<in> set nodes" for x
    using rs that by (induction nodes arbitrary: rs) (auto simp: bind_eq_Some_conv)
  obtain x where x: "x \<in> set nodes" using \<open>nodes \<noteq> []\<close> by (cases nodes) auto
  obtain ws where ws: "standby_node_work api P = Some ws"
    using each [OF x]
    by (auto simp: node_reward_def Let_def bind_eq_Some_conv active_node_work_def split: if_splits)
  have k: "0 < rewarded_set_size P"
    using each [OF x] by (auto simp: node_reward_def Let_def bind_eq_Some_conv dec_rewarded_set_size_def decimal_values [OF ok]
        split: if_splits)
  have "\<exists>wa. active_node_work api P = Some wa \<and> wa * DECIMAL_ONE \<le> active_set_work_factor (interval_params P) * ws"
    if y: "y \<in> set nodes" "in_active_set (snd y)" for y
  proof -
    obtain wa where wa: "active_node_work api P = Some wa"
      using each [OF y(1)] y(2) by (auto simp: node_reward_def Let_def bind_eq_Some_conv)
    then show ?thesis using active_node_work_bound [OF ok wa] ws by auto
  qed
  then show ?thesis using that ws k by blast
qed

text \<open>
  C14. The rewards of one epoch do not exceed its budget: for any nodes of which at most
  \<open>active_set_size\<close> are active and at most \<open>rewarded_set_size - active_set_size\<close> are in reserve,
  whatever their stakes, costs and performance, the rewards computed by \<open>node_reward\<close> with all
  roundings add up to at most \<open>epoch_reward_budget\<close>.
\<close>

theorem epoch_rewards_within_budget:
  assumes ok: "decimals_ok api" and rs: "node_rewards api P nodes = Some rs"
    and perf: "\<forall>x \<in> set nodes. percent_value (performance (snd x)) \<le> DECIMAL_ONE"
    and act: "actives nodes \<le> active_set_size P"
    and stb: "standbys nodes \<le> rewarded_set_size P - active_set_size P"
  shows "sum_list rs \<le> epoch_reward_budget (interval_params P)"
proof (cases "nodes = []")
  case True
  then show ?thesis using rs by simp
next
  case False
  let ?B = "epoch_reward_budget (interval_params P)" and ?f = "active_set_work_factor (interval_params P)"
  let ?k = "rewarded_set_size P" and ?\<alpha> = "percent_value (sybil_resistance (interval_params P))"
  obtain ws where ws: "standby_node_work api P = Some ws" and k: "0 < ?k"
    and each: "\<And>x. x \<in> set nodes \<Longrightarrow> in_active_set (snd x) \<Longrightarrow> \<exists>wa. active_node_work api P = Some wa
       \<and> wa * DECIMAL_ONE \<le> ?f * ws"
    using node_rewards_work [OF ok rs False] by metis
  obtain wa where wa: "0 < actives nodes \<longrightarrow> active_node_work api P = Some wa" and wa_le: "wa * DECIMAL_ONE \<le> ?f * ws"
  proof (cases "actives nodes = 0")
    case True
    then show ?thesis using that [of 0] by simp
  next
    case False
    then obtain x where "x \<in> set nodes" "in_active_set (snd x)" by (auto simp: actives_def filter_empty_conv)
    then show ?thesis using each that by blast
  qed
  have "(actives nodes * wa + standbys nodes * ws) * DECIMAL_ONE
      = actives nodes * (wa * DECIMAL_ONE) + standbys nodes * (ws * DECIMAL_ONE)" by (simp add: algebra_simps)
  also have "\<dots> \<le> active_set_size P * (?f * ws) + (?k - active_set_size P) * (ws * DECIMAL_ONE)"
    by (rule add_mono [OF mult_le_mono [OF act wa_le] mult_le_mono [OF stb order_refl]])
  also have "\<dots> = ws * (?f * active_set_size P + DECIMAL_ONE * (?k - active_set_size P))" by (simp add: algebra_simps)
  also have "\<dots> \<le> DECIMAL_ONE * DECIMAL_ONE" by (rule standby_node_work_bound(2) [OF ok ws])
  finally have work: "actives nodes * wa + standbys nodes * ws \<le> DECIMAL_ONE" by simp
  have count: "actives nodes + standbys nodes \<le> ?k"
    using act stb standby_node_work_bound(1) [OF ok ws] by linarith
  have "sum_list rs * (DECIMAL_ONE + ?\<alpha>) * ?k
     \<le> ?B * ((actives nodes * wa + standbys nodes * ws) * ?k + (actives nodes + standbys nodes) * ?\<alpha>)"
    by (rule node_rewards_sum [OF refl refl ok rs perf]) (use ws wa in auto)
  also have "\<dots> \<le> ?B * (DECIMAL_ONE * ?k + ?k * ?\<alpha>)"
    by (rule mult_le_mono [OF order_refl add_mono [OF mult_le_mono [OF work order_refl] mult_le_mono [OF count order_refl]]])
  also have "\<dots> = ?B * (DECIMAL_ONE + ?\<alpha>) * ?k" by (simp add: algebra_simps)
  finally have "sum_list rs * ((DECIMAL_ONE + ?\<alpha>) * ?k) \<le> ?B * ((DECIMAL_ONE + ?\<alpha>) * ?k)" by (simp add: mult.assoc)
  moreover have "0 < (DECIMAL_ONE + ?\<alpha>) * ?k" using k by simp
  ultimately show ?thesis by (metis mult_le_cancel2)
qed

section \<open>Splitting a reward\<close>

lemma reward_split_exact:
  "determine_reward_split api r x q n = Some rd \<Longrightarrow> dist_operator rd + dist_delegates rd = x"
  by (auto simp: determine_reward_split_def Let_def bind_eq_Some_conv split: if_splits)

text \<open>If the stake of the node and its costs fit, the split does not panic.\<close>

lemma reward_split_total:
  assumes ok: "decimals_ok api" and n: "0 < n" and bond: "0 < operator r + delegates r" "operator r + delegates r \<le> u128_max"
    and margin: "percent_value (profit_margin_percent (cost_params r)) \<le> DECIMAL_ONE"
    and q: "percent_value q \<le> DECIMAL_ONE" and x: "x \<le> u128_max"
    and cost: "amount (interval_operating_cost (cost_params r)) * DECIMAL_ONE div n \<le> u128_max"
  shows "\<exists>rd. determine_reward_split api r x q n = Some rd"
proof -
  define c where "c = amount (interval_operating_cost (cost_params r)) * DECIMAL_ONE div n"
  define nc where "nc = c * percent_value q div DECIMAL_ONE"
  define m where "m = percent_value (profit_margin_percent (cost_params r))"
  define s where "s = operator r * DECIMAL_ONE div (operator r + delegates r)"
  define sh where "sh = (DECIMAL_ONE - m) * s div DECIMAL_ONE"
  have one: "DECIMAL_ONE \<le> u128_max" by (simp add: DECIMAL_ONE_def u128_max_def)
  have nc: "nc \<le> c" using q unfolding nc_def by (rule mult_div_le_left)
  have s: "s \<le> DECIMAL_ONE" unfolding s_def by (rule saturation_le) simp
  have sh: "sh \<le> DECIMAL_ONE - m" unfolding sh_def by (rule mult_div_le_left [OF s])
  have m: "m \<le> DECIMAL_ONE" using margin by (simp add: m_def)
  have part: "m + sh \<le> DECIMAL_ONE" using sh m by linarith
  have op: "(x - nc) * (m + sh) div DECIMAL_ONE \<le> x - nc" by (rule mult_div_le_left [OF part])
  have "epoch_operating_cost api (cost_params r) n = Some c"
    using n cost by (simp add: epoch_operating_cost_def decimals_from_ratio [OF ok] c_def)
  moreover have "dec_mul api c (percent_value q) = Some nc"
    using nc cost by (simp add: decimals_mul [OF ok] nc_def [symmetric] c_def [symmetric])
  moreover have "node_bond r = Some (operator r + delegates r)" using bond by (simp add: node_bond_def)
  moreover have "dec_div api (operator r) (operator r + delegates r) = Some s"
    using bond s one by (simp add: decimals_div [OF ok] s_def [symmetric])
  moreover have "uint128_sub DECIMAL_ONE m = Some (DECIMAL_ONE - m)" using m by simp
  moreover have "dec_mul api (DECIMAL_ONE - m) s = Some sh"
    using sh one by (simp add: decimals_mul [OF ok] sh_def [symmetric])
  moreover have "uint128_add m sh = Some (m + sh)" using part one by simp
  moreover have "dec_mul api (x - nc) (m + sh) = Some ((x - nc) * (m + sh) div DECIMAL_ONE)"
    using op x by (simp add: decimals_mul [OF ok])
  moreover have "nc < x \<Longrightarrow> uint128_add ((x - nc) * (m + sh) div DECIMAL_ONE) nc = Some ((x - nc) * (m + sh) div DECIMAL_ONE + nc)"
    using op x by simp
  ultimately show ?thesis
    using op by (cases "nc < x") (simp_all add: determine_reward_split_def Let_def m_def [symmetric] uint128_sub_def uint128_add_def)
qed

section \<open>The delegators' part\<close>

text \<open>
  A delegation made when the unit of one delegation stood at \<open>unit_delegation + s\<close> is worth
  \<open>(unit_delegation + total_unit_reward) / (unit_delegation + s)\<close> times its amount.
\<close>

definition delegated :: "Delegation \<Rightarrow> nat" where
  "delegated d = amount (del_amount d) * DECIMAL_ONE"

definition worth :: "MixNodeRewarding \<Rightarrow> Delegation \<Rightarrow> real" where
  "worth r d = real (delegated d) * real (unit_delegation r + total_unit_reward r)
                 / real (unit_delegation r + cumulative_reward_ratio d)"

definition pool_ok :: "MixNodeRewarding \<Rightarrow> Delegation list \<Rightarrow> bool" where
  "pool_ok r ds \<longleftrightarrow>
     0 < unit_delegation r \<and> delegates r \<le> u128_max \<and> unique_delegations r = length ds
     \<and> (\<forall>d \<in> set ds. cumulative_reward_ratio d \<le> total_unit_reward r)
     \<and> sum_list (map (worth r) ds) \<le> real (delegates r)"

lemma worth_nonneg [simp]: "0 \<le> worth r d"
  by (simp add: worth_def)

lemma worth_split:
  assumes "0 < unit_delegation r" "cumulative_reward_ratio d \<le> total_unit_reward r"
  shows "worth r d = real (delegated d) + real (delegated d) * real (total_unit_reward r - cumulative_reward_ratio d)
           / real (unit_delegation r + cumulative_reward_ratio d)"
  using assms by (simp add: worth_def field_simps of_nat_diff)

lemma worth_le_pool:
  assumes "pool_ok r ds" "d \<in> set ds"
  shows "worth r d \<le> real (delegates r)"
proof -
  have "worth r d \<le> sum_list (map (worth r) ds)"
    using assms(2) by (intro member_le_sum_list) auto
  then show ?thesis using assms(1) by (simp add: pool_ok_def)
qed

lemma sum_list_remove1:
  fixes f :: "'b \<Rightarrow> real"
  shows "d \<in> set ds \<Longrightarrow> sum_list (map f ds) = f d + sum_list (map f (remove1 d ds))"
  by (rule sum_list_map_remove1)

lemma pool_permute: "mset ds = mset ds' \<Longrightarrow> pool_ok r ds \<Longrightarrow> pool_ok r ds'"
proof -
  assume m: "mset ds = mset ds'" and p: "pool_ok r ds"
  have "set ds = set ds'" using m by (rule mset_eq_setD)
  moreover have "length ds = length ds'" using m by (rule mset_eq_length)
  moreover have "sum_list (map (worth r) ds) = sum_list (map (worth r) ds')"
    using m by (metis mset_map sum_mset_sum_list)
  ultimately show ?thesis using p by (simp add: pool_ok_def)
qed

text \<open>A reward raises the unit by at most the factor by which it raises the pool.\<close>

lemma unit_reward_le:
  assumes ok: "decimals_ok api" and d: "distribute_rewards api r rd e = Some r'"
    and del: "0 < delegates r"
  shows "real (unit_delegation r + total_unit_reward r') * real (delegates r)
    \<le> real (unit_delegation r + total_unit_reward r) * real (delegates r + dist_delegates rd)"
proof -
  define u where "u = unit_delegation r + total_unit_reward r"
  define D where "D = dist_delegates rd"
  have t: "total_unit_reward r' = total_unit_reward r + D * (u * DECIMAL_ONE div delegates r) div DECIMAL_ONE"
    using d del by (auto simp: distribute_rewards_def bind_eq_Some_conv delegator_share_def decimal_values [OF ok] u_def D_def)
  have "D * (u * DECIMAL_ONE div delegates r) div DECIMAL_ONE * delegates r \<le> D * u"
  proof -
    have "D * (u * DECIMAL_ONE div delegates r) div DECIMAL_ONE * DECIMAL_ONE * delegates r
        \<le> D * (u * DECIMAL_ONE div delegates r) * delegates r"
      by (rule mult_le_mono1) (rule div_mult_le')
    also have "\<dots> = D * (u * DECIMAL_ONE div delegates r * delegates r)" by simp
    also have "\<dots> \<le> D * (u * DECIMAL_ONE)" by (rule mult_le_mono2) (rule div_mult_le')
    finally have "D * (u * DECIMAL_ONE div delegates r) div DECIMAL_ONE * delegates r * DECIMAL_ONE \<le> D * u * DECIMAL_ONE"
      by (simp add: ac_simps)
    then show ?thesis by simp
  qed
  then have "(u + D * (u * DECIMAL_ONE div delegates r) div DECIMAL_ONE) * delegates r \<le> u * (delegates r + D)"
    by (simp add: algebra_simps)
  then have "real ((u + D * (u * DECIMAL_ONE div delegates r) div DECIMAL_ONE) * delegates r) \<le> real (u * (delegates r + D))"
    by (simp only: of_nat_le_iff)
  moreover have "unit_delegation r + total_unit_reward r' = u + D * (u * DECIMAL_ONE div delegates r) div DECIMAL_ONE"
    by (simp add: t u_def)
  ultimately show ?thesis by (simp only: of_nat_mult u_def [symmetric] D_def [symmetric])
qed

lemma distribute_fields:
  assumes "distribute_rewards api r rd e = Some r'"
  shows "unit_delegation r' = unit_delegation r" "unique_delegations r' = unique_delegations r"
    "operator r' = operator r + dist_operator rd" "delegates r' = delegates r + dist_delegates rd"
    "total_unit_reward r \<le> total_unit_reward r'" "operator r' \<le> u128_max" "delegates r' \<le> u128_max"
    "total_unit_reward r' \<le> u128_max" "cost_params r' = cost_params r" "last_rewarded_epoch r' = e"
  using assms by (auto simp: distribute_rewards_def bind_eq_Some_conv)

lemma pool_distribute:
  assumes ok: "decimals_ok api" and d: "distribute_rewards api r rd e = Some r'" and p: "pool_ok r ds"
  shows "pool_ok r' ds"
proof -
  note f = distribute_fields [OF d]
  let ?u = "unit_delegation r + total_unit_reward r" and ?u' = "unit_delegation r + total_unit_reward r'"
  have u: "0 < unit_delegation r" using p by (simp add: pool_ok_def)
  have "sum_list (map (worth r') ds) \<le> real (delegates r')"
  proof (cases "delegates r = 0")
    case True
    then have "total_unit_reward r' = total_unit_reward r"
      using d by (auto simp: distribute_rewards_def bind_eq_Some_conv delegator_share_def decimal_values [OF ok])
    then have "worth r' = worth r" by (simp add: worth_def f fun_eq_iff)
    then show ?thesis using p by (simp add: pool_ok_def f)
  next
    case False
    have "real ?u > 0" using u by simp
    define c where "c = real ?u' / real ?u"
    have "worth r' = (\<lambda>x. worth r x * c)" using \<open>real ?u > 0\<close> by (simp add: fun_eq_iff worth_def f c_def)
    then have "sum_list (map (worth r') ds) = sum_list (map (worth r) ds) * c"
      by (simp add: sum_list_mult_const)
    also have "\<dots> \<le> real (delegates r) * c"
      using p by (intro mult_right_mono) (auto simp: pool_ok_def c_def)
    also have "\<dots> = real ?u' * real (delegates r) / real ?u" by (simp add: c_def)
    also have "\<dots> \<le> real ?u * real (delegates r + dist_delegates rd) / real ?u"
      using unit_reward_le [OF ok d] False by (intro divide_right_mono) auto
    also have "\<dots> = real (delegates r')" using \<open>real ?u > 0\<close> by (simp add: f)
    finally show ?thesis .
  qed
  then show ?thesis using p f by (auto simp: pool_ok_def intro: order_trans)
qed

text \<open>The exact reward of a delegation, and when its computation overflows.\<close>

definition accrued :: "MixNodeRewarding \<Rightarrow> Delegation \<Rightarrow> nat" where
  "accrued r d = (total_unit_reward r - cumulative_reward_ratio d) * amount (del_amount d) * DECIMAL_ONE
                   div (unit_delegation r + cumulative_reward_ratio d)"

definition reward_fits :: "MixNodeRewarding \<Rightarrow> Delegation \<Rightarrow> bool" where
  "reward_fits r d \<longleftrightarrow> (total_unit_reward r - cumulative_reward_ratio d) * amount (del_amount d) \<le> u128_max
     \<and> unit_delegation r + cumulative_reward_ratio d \<le> u128_max"

lemma accrued_le_worth:
  assumes "pool_ok r ds" "d \<in> set ds"
  shows "real (delegated d + accrued r d) \<le> worth r d"
proof -
  have "real (accrued r d) \<le> real ((total_unit_reward r - cumulative_reward_ratio d) * amount (del_amount d) * DECIMAL_ONE)
           / real (unit_delegation r + cumulative_reward_ratio d)"
    unfolding accrued_def by (rule of_nat_div_le_of_nat)
  then show ?thesis
    using assms by (subst worth_split) (auto simp: pool_ok_def delegated_def ac_simps)
qed

lemma accrued_le_pool:
  assumes "pool_ok r ds" "d \<in> set ds"
  shows "delegated d + accrued r d \<le> delegates r"
  using order_trans [OF accrued_le_worth [OF assms] worth_le_pool [OF assms]] by (simp only: of_nat_le_iff)

lemma determine_delegation_reward_eq:
  assumes ok: "decimals_ok api" and p: "pool_ok r ds" "d \<in> set ds"
  shows "determine_delegation_reward api r d = (if reward_fits r d then Some (Inr (accrued r d)) else None)"
proof -
  let ?s = "cumulative_reward_ratio d" and ?R = "total_unit_reward r"
  have le: "delegated d + accrued r d \<le> u128_max" "?s \<le> ?R"
    using accrued_le_pool [OF p] p by (auto simp: pool_ok_def)
  have amt: "dec_amount api d = Inr (delegated d)"
    using le by (simp add: dec_amount_def into_base_decimal_Inr [OF ok] delegated_def)
  have mul: "dec_mul api (?R - ?s) (delegated d) = fits ((?R - ?s) * amount (del_amount d))"
    by (simp add: decimals_mul [OF ok] delegated_def mult.assoc [symmetric])
  have div: "dec_div api ((?R - ?s) * amount (del_amount d)) (?s + unit_delegation r) = Some (accrued r d)"
    using le p by (simp add: decimals_div [OF ok] accrued_def add.commute pool_ok_def)
  show ?thesis
    using le div
    by (auto simp: determine_delegation_reward_def Let_def full_reward_ratio_def amt mul reward_fits_def
        uint128_add_def uint128_sub_def fits_def add.commute)
qed

lemma truncate_eq: "decimals_ok api \<Longrightarrow> x \<le> u128_max \<Longrightarrow> truncate_reward api x c = Some \<lparr>denom = c, amount = x div DECIMAL_ONE\<rparr>"
  by (simp add: truncate_reward_def truncate_reward_amount_def decimals_truncate fits_def)
    (meson div_le_dividend order_trans)

text \<open>Withdrawing a reward.\<close>

lemma withdraw_delegator_reward_eq:
  assumes ok: "decimals_ok api" and p: "pool_ok r ds" "d \<in> set ds"
  shows "withdraw_delegator_reward api r d =
    (if reward_fits r d
     then Ok (r\<lparr>delegates := delegates r - accrued r d\<rparr>, d\<lparr>cumulative_reward_ratio := total_unit_reward r\<rparr>,
              \<lparr>denom = denom (del_amount d), amount = accrued r d div DECIMAL_ONE\<rparr>)
     else None)"
proof -
  have "accrued r d \<le> delegates r" "accrued r d \<le> u128_max"
    using accrued_le_pool [OF p] p by (auto simp: pool_ok_def)
  then show ?thesis
    by (auto simp: withdraw_delegator_reward_def determine_delegation_reward_eq [OF ok p] decrease_delegates_decimal_def
        full_reward_ratio_def truncate_eq [OF ok])
qed

lemma pool_withdraw:
  assumes p: "pool_ok r ds" "d \<in> set ds"
  shows "pool_ok (r\<lparr>delegates := delegates r - accrued r d\<rparr>) (d\<lparr>cumulative_reward_ratio := total_unit_reward r\<rparr> # remove1 d ds)"
proof -
  let ?r = "r\<lparr>delegates := delegates r - accrued r d\<rparr>" and ?d = "d\<lparr>cumulative_reward_ratio := total_unit_reward r\<rparr>"
  have w: "worth ?r = worth r" by (simp add: worth_def fun_eq_iff)
  have wd: "worth r ?d = real (delegated d)" using p by (simp add: worth_def delegated_def pool_ok_def)
  have "sum_list (map (worth r) (remove1 d ds)) \<le> real (delegates r) - worth r d"
    using p sum_list_remove1 [OF p(2), of "worth r"] by (simp add: pool_ok_def)
  then have "worth r ?d + sum_list (map (worth r) (remove1 d ds)) \<le> real (delegates r - accrued r d)"
    using accrued_le_worth [OF p] accrued_le_pool [OF p] wd by (simp add: of_nat_diff)
  moreover have "length ds = Suc (length (remove1 d ds))" using p(2) length_pos_if_in_set [OF p(2)] by (simp add: length_remove1)
  ultimately show ?thesis
    using p by (auto simp: pool_ok_def w dest: set_remove1_subset [THEN subsetD])
qed

text \<open>Ending a delegation.\<close>

definition after_undelegation :: "MixNodeRewarding \<Rightarrow> Delegation \<Rightarrow> MixNodeRewarding" where
  "after_undelegation r d =
     (let rest = delegates r - (delegated d + accrued r d) in
      if unique_delegations r = 1
      then r\<lparr>operator := operator r + rest, delegates := 0, unique_delegations := 0\<rparr>
      else r\<lparr>delegates := rest, unique_delegations := unique_delegations r - 1\<rparr>)"

lemma undelegate_eq:
  assumes ok: "decimals_ok api" and p: "pool_ok r ds" "d \<in> set ds"
  shows "undelegate api r d =
    (if reward_fits r d \<and> (unique_delegations r = 1 \<longrightarrow> operator (after_undelegation r d) \<le> u128_max)
     then Ok (after_undelegation r d, \<lparr>denom = denom (del_amount d), amount = (delegated d + accrued r d) div DECIMAL_ONE\<rparr>)
     else None)"
proof -
  have le: "delegated d + accrued r d \<le> delegates r" "delegated d + accrued r d \<le> u128_max"
    using accrued_le_pool [OF p] p by (auto simp: pool_ok_def)
  have n: "unique_delegations r = Suc (length ds - 1)" using p by (cases ds) (auto simp: pool_ok_def)
  have amt: "dec_amount api d = Inr (delegated d)"
    using le by (simp add: dec_amount_def into_base_decimal_Inr [OF ok] delegated_def)
  show ?thesis
    using le n
    by (auto simp: undelegate_def determine_delegation_reward_eq [OF ok p] amt uint128_add_def remove_delegation_decimal_def
        decrease_delegates_decimal_def decrement_unique_delegations_def after_undelegation_def Let_def truncate_eq [OF ok] add.commute)
qed

lemma pool_undelegate:
  assumes p: "pool_ok r ds" "d \<in> set ds"
  shows "pool_ok (after_undelegation r d) (remove1 d ds)"
proof -
  let ?r = "after_undelegation r d"
  have w: "worth ?r = worth r" by (simp add: worth_def fun_eq_iff after_undelegation_def Let_def)
  have "sum_list (map (worth r) (remove1 d ds)) \<le> real (delegates r) - worth r d"
    using p sum_list_remove1 [OF p(2), of "worth r"] by (simp add: pool_ok_def)
  then have "sum_list (map (worth r) (remove1 d ds)) \<le> real (delegates r - (delegated d + accrued r d))"
    using accrued_le_worth [OF p] accrued_le_pool [OF p] by (simp add: of_nat_diff)
  moreover have "length ds = 1 \<Longrightarrow> remove1 d ds = []" using p(2) by (cases ds) auto
  ultimately show ?thesis
    using p unfolding pool_ok_def w
    by (auto simp: length_remove1 after_undelegation_def Let_def dest: set_remove1_subset [THEN subsetD])
qed

text \<open>Adding a delegation at the current unit.\<close>

lemma pool_add:
  assumes ok: "decimals_ok api" and a: "add_base_delegation api r a = Ok r'" and p: "pool_ok r ds"
    and d: "amount (del_amount d) = a" "cumulative_reward_ratio d = total_unit_reward r"
  shows "pool_ok r' (d # ds)"
proof -
  have r': "r' = r\<lparr>delegates := delegates r + a * DECIMAL_ONE, unique_delegations := unique_delegations r + 1\<rparr>"
    and le: "delegates r + a * DECIMAL_ONE \<le> u128_max"
    using a by (auto simp: add_base_delegation_def increase_delegates_uint128_def result_eqs into_base_decimal_Inr [OF ok])
  have w: "worth r' = worth r" by (simp add: worth_def fun_eq_iff r')
  have "worth r d = real (a * DECIMAL_ONE)" using p d by (simp add: worth_def delegated_def pool_ok_def)
  then show ?thesis using p d le by (simp add: pool_ok_def w) (simp add: r')
qed

lemma pool_new: "initialise_new api c pledge e = Ok r \<Longrightarrow> pool_ok r []"
  by (auto simp: initialise_new_def pool_ok_def result_eqs UNIT_DELEGATION_BASE_def split: if_splits)

lemma undelegate_Ok:
  assumes "decimals_ok api" "pool_ok r ds" "d \<in> set ds" "undelegate api r d = Ok (r', c)"
  shows "reward_fits r d" "r' = after_undelegation r d"
    "c = \<lparr>denom = denom (del_amount d), amount = (delegated d + accrued r d) div DECIMAL_ONE\<rparr>"
  using assms(4) by (auto simp: undelegate_eq [OF assms(1-3)] split: if_splits)

lemma undelegate_no_error:
  "decimals_ok api \<Longrightarrow> pool_ok r ds \<Longrightarrow> d \<in> set ds \<Longrightarrow> undelegate api r d \<noteq> Err e"
  by (simp add: undelegate_eq)

section \<open>The stake of a node\<close>

definition stake :: "MixNodeRewarding \<Rightarrow> nat" where
  "stake r = operator r + delegates r"

lemma truncate_le:
  assumes "decimals_ok api" "truncate_reward api x c = Some coin"
  shows "amount coin * DECIMAL_ONE \<le> x"
  using assms by (auto simp: truncate_reward_def truncate_reward_amount_def decimals_truncate bind_eq_Some_conv)

lemma undelegate_stake:
  assumes ok: "decimals_ok api" and u: "undelegate api r d = Ok (r', c)"
  shows "stake r' + amount c * DECIMAL_ONE \<le> stake r"
proof -
  obtain x r1 where rm: "remove_delegation_decimal r x = Ok r1" and t: "truncate_reward api x (denom (del_amount d)) = Some c"
    and r': "r' = r1"
    using u by (auto simp: undelegate_def result_eqs)
  have "x \<le> delegates r" "stake r1 = stake r - x"
    using rm by (auto simp: remove_delegation_decimal_def decrease_delegates_decimal_def decrement_unique_delegations_def
        result_eqs stake_def split: if_splits)
  then show ?thesis using truncate_le [OF ok t] by (simp add: r' stake_def)
qed

lemma add_base_delegation_stake:
  "decimals_ok api \<Longrightarrow> add_base_delegation api r a = Ok r' \<Longrightarrow> stake r' = stake r + a * DECIMAL_ONE"
  by (auto simp: add_base_delegation_def increase_delegates_uint128_def result_eqs into_base_decimal_Inr stake_def)

lemma withdraw_operator_stake:
  "decimals_ok api \<Longrightarrow> withdraw_operator_reward api r pledge = Ok (r', c) \<Longrightarrow> stake r' + amount c * DECIMAL_ONE \<le> stake r"
  by (auto simp: withdraw_operator_reward_def result_eqs into_base_decimal_Inr stake_def split: if_splits dest: truncate_le)

lemma withdraw_delegator_stake:
  assumes ok: "decimals_ok api" and w: "withdraw_delegator_reward api r d = Ok (r', d', c)"
  shows "stake r' + amount c * DECIMAL_ONE \<le> stake r"
proof -
  obtain x r1 where rm: "decrease_delegates_decimal r x = Inr r1" and r': "r' = r1"
    and t: "truncate_reward api x (denom (del_amount (d\<lparr>cumulative_reward_ratio := full_reward_ratio r1\<rparr>))) = Some c"
    using w by (auto simp: withdraw_delegator_reward_def result_eqs)
  have "x \<le> delegates r" "stake r1 = stake r - x"
    using rm by (auto simp: decrease_delegates_decimal_def stake_def split: if_splits)
  then show ?thesis using truncate_le [OF ok t] by (simp add: r' stake_def)
qed

lemma distribute_stake:
  "distribute_rewards api r rd e = Some r' \<Longrightarrow> stake r' = stake r + dist_operator rd + dist_delegates rd"
  by (simp add: stake_def distribute_fields)

lemma increase_operator_stake:
  "decimals_ok api \<Longrightarrow> increase_operator_uint128 api r a = Ok r' \<Longrightarrow> stake r' = stake r + a * DECIMAL_ONE"
  by (auto simp: increase_operator_uint128_def result_eqs into_base_decimal_Inr stake_def)

lemma decrease_operator_stake:
  "decimals_ok api \<Longrightarrow> decrease_operator_uint128 api r a = Ok r' \<Longrightarrow> stake r' + a * DECIMAL_ONE = stake r"
  by (auto simp: decrease_operator_uint128_def result_eqs into_base_decimal_Inr stake_def split: if_splits)

lemma initialise_new_stake:
  "decimals_ok api \<Longrightarrow> initialise_new api c pledge e = Ok r \<Longrightarrow> stake r = amount pledge * DECIMAL_ONE"
  by (auto simp: initialise_new_def result_eqs into_base_decimal_Inr stake_def split: if_splits)

section \<open>An instance\<close>

definition example_mixnet_api :: mixnet_api where
  "example_mixnet_api =
     \<lparr>addr_validate = Inr, decimal_mul = (\<lambda>a b. fits (a * b div DECIMAL_ONE)),
      dec_mul = (\<lambda>a b. fits (a * b div DECIMAL_ONE)),
      dec_div = (\<lambda>a b. if b = 0 then None else fits (a * DECIMAL_ONE div b)),
      dec_from_ratio = (\<lambda>a b. if b = 0 then None else fits (a * DECIMAL_ONE div b)),
      dec_from_atomics = (\<lambda>a. fits (a * DECIMAL_ONE)),
      date_from_unix = (\<lambda>s. Some (s * 1000000000)), date_add = (\<lambda>t d. Some (t + int d)), date_unix = (\<lambda>t. t div 1000000000)\<rparr>"

lemma example_decimals_ok: "decimals_ok example_mixnet_api"
  by (simp add: decimals_ok_def example_mixnet_api_def)

definition example_params :: RewardingParams where
  "example_params =
     \<lparr>interval_params =
        \<lparr>reward_pool = 1000000 * DECIMAL_ONE, staking_supply = 2000 * DECIMAL_ONE, staking_supply_scale_factor = Percent DECIMAL_ONE,
         epoch_reward_budget = 1000 * DECIMAL_ONE, stake_saturation_point = 1000 * DECIMAL_ONE,
         sybil_resistance = Percent (decimal_percent 30), active_set_work_factor = 10 * DECIMAL_ONE,
         interval_pool_emission = Percent (decimal_percent 2)\<rparr>,
      rewarded_set_size = 2, active_set_size = 1\<rparr>"

definition example_node :: "nat \<Rightarrow> nat \<Rightarrow> MixNodeRewarding" where
  "example_node op del =
     \<lparr>cost_params = \<lparr>profit_margin_percent = Percent (decimal_percent 10), interval_operating_cost = \<lparr>denom = ''unym'', amount = 40\<rparr>\<rparr>,
      operator = op * DECIMAL_ONE, delegates = del * DECIMAL_ONE, total_unit_reward = 0, unit_delegation = UNIT_DELEGATION_BASE,
      last_rewarded_epoch = 0, unique_delegations = 1\<rparr>"

definition example_nodes :: "(MixNodeRewarding \<times> NodeRewardParams) list" where
  "example_nodes =
     [(example_node 500 500, \<lparr>performance = Percent DECIMAL_ONE, in_active_set = True\<rparr>),
      (example_node 100 300, \<lparr>performance = Percent (decimal_percent 90), in_active_set = False\<rparr>)]"

lemmas example_defs = example_mixnet_api_def example_params_def example_node_def example_nodes_def
  DECIMAL_ONE_def decimal_percent_def UNIT_DELEGATION_BASE_def u128_max_def

theorem epoch_rewards_within_budget_witness:
  "node_rewards example_mixnet_api example_params example_nodes = Some [756993006993006992307, 29328671328671328646]
   \<and> sum_list [756993006993006992307, 29328671328671328646] \<le> epoch_reward_budget (interval_params example_params)"
proof -
  have "node_rewards example_mixnet_api example_params example_nodes = Some [756993006993006992307, 29328671328671328646]"
    by (simp add: example_defs node_reward_def active_node_work_def standby_node_work_def dec_rewarded_set_size_def
        dec_standby_set_size_def into_base_decimal_def bond_saturation_def pledge_saturation_def node_bond_def
        fits_def uint128_add_def uint128_sub_def u32_sub_def)
  then show ?thesis
    using epoch_rewards_within_budget [OF example_decimals_ok, of example_params example_nodes "[756993006993006992307, 29328671328671328646]"]
    by (simp add: example_nodes_def example_params_def decimal_percent_def DECIMAL_ONE_def)
qed

end
