(* ===== verification/Mixnet_Storage.thy ===== *)
theory Mixnet_Storage
  imports Mixnet_Rewarding
begin

text \<open>
  The state of the mixnet contract, \<open>contracts/mixnet/src\<close>, with the accesses of the \<open>storage.rs\<close>
  and \<open>helpers.rs\<close> files of its modules and the guards of \<open>support/helpers.rs\<close>.

  The state is one record with a field per storage item. Items that \<open>instantiate\<close> saves are always
  present. An \<open>IndexedMap\<close> is the association list of its primary map; its unique indexes are the
  condition that \<open>save\<close> and \<open>replace\<close> check. Events are not modelled.
\<close>

section \<open>State\<close>

record ContractStateParams =
  minimum_mixnode_delegation :: "Coin option"
  minimum_mixnode_pledge :: Coin
  minimum_gateway_pledge :: Coin

record ContractState =
  cs_owner :: Addr
  rewarding_validator_address :: Addr
  vesting_contract_address :: Addr
  rewarding_denom :: string
  cs_params :: ContractStateParams

record RewardPoolChange =
  removed :: decimal
  added :: decimal

record Family =
  fam_head :: FamilyHead
  fam_proxy :: "string option"
  fam_label :: string

type_synonym OwnerProxySubKey = string
type_synonym StorageKey = "MixId \<times> OwnerProxySubKey"

record mixnet_state =
  CONTRACT_STATE :: ContractState
  LAYERS :: LayerDistribution
  MIXNODE_ID_COUNTER :: "MixId option"
  MIXNODE_BONDS :: "(MixId \<times> MixNodeBond) list"
  UNBONDED_MIXNODES :: "(MixId \<times> UnbondedMixnode) list"
  PENDING_MIXNODE_CHANGES :: "MixId \<Rightarrow> PendingMixNodeChanges option"
  GATEWAYS :: "(IdentityKey \<times> GatewayBond) list"
  MIX_DELEGATIONS :: "(StorageKey \<times> Delegation) list"
  MIXNODE_REWARDING :: "(MixId \<times> MixNodeRewarding) list"
  REWARDING_PARAMS :: RewardingParams
  PENDING_REWARD_POOL_CHANGE :: RewardPoolChange
  CURRENT_EPOCH_STATUS :: EpochStatus
  CURRENT_INTERVAL :: Interval
  REWARDED_SET :: "(MixId \<times> RewardedSetNodeStatus) list"
  EPOCH_EVENT_ID_COUNTER :: EpochEventId
  INTERVAL_EVENT_ID_COUNTER :: IntervalEventId
  LAST_PROCESSED_EPOCH_EVENT :: EpochEventId
  LAST_PROCESSED_INTERVAL_EVENT :: IntervalEventId
  PENDING_EPOCH_EVENTS :: "(EpochEventId \<times> PendingEpochEventData) list"
  PENDING_INTERVAL_EVENTS :: "(IntervalEventId \<times> PendingIntervalEventData) list"
  NONCES :: "Addr \<Rightarrow> Nonce option"
  FAMILIES :: "(IdentityKey \<times> Family) list"
  MEMBERS :: "(IdentityKey \<times> FamilyHead) list"

section \<open>Signed messages\<close>

datatype SigningAlgorithm = Ed25519 | Secp256k1

record 't SignableMessage =
  sm_nonce :: Nonce
  sm_algorithm :: SigningAlgorithm
  sm_message_type :: string
  sm_content :: 't

record 't ContractMessageContent =
  mc_sender :: Addr
  mc_proxy :: "Addr option"
  mc_funds :: "Coin list"
  mc_data :: 't

datatype MixnodeBondingPayload = MixnodeBondingPayload MixNode MixNodeCostParams
datatype GatewayBondingPayload = GatewayBondingPayload Gateway
datatype FamilyJoinPermit = FamilyJoinPermit FamilyHead "Addr option" IdentityKey

text \<open>Base58, the serialisation of the three kinds of signed messages and the verification of signatures.\<close>

record mixnet_lib = mixnet_api +
  bs58_decode_into :: "string \<Rightarrow> nat \<Rightarrow> string + bytes"
  bs58_encode :: "bytes \<Rightarrow> string"
  mixnode_bonding_to_vec :: "MixnodeBondingPayload ContractMessageContent SignableMessage \<Rightarrow> StdError + bytes"
  gateway_bonding_to_vec :: "GatewayBondingPayload ContractMessageContent SignableMessage \<Rightarrow> StdError + bytes"
  join_permit_to_vec :: "FamilyJoinPermit SignableMessage \<Rightarrow> StdError + bytes"
  ed25519_verify :: "bytes \<Rightarrow> bytes \<Rightarrow> bytes \<Rightarrow> VerificationError + bool"

definition signable_message_new :: "Nonce \<Rightarrow> string \<Rightarrow> 't \<Rightarrow> 't SignableMessage" where
  "signable_message_new nonce message_type content =
     \<lparr>sm_nonce = nonce, sm_algorithm = Ed25519, sm_message_type = message_type, sm_content = content\<rparr>"

definition construct_mixnode_bonding_sign_payload ::
    "Nonce \<Rightarrow> Addr \<Rightarrow> Addr option \<Rightarrow> Coin \<Rightarrow> MixNode \<Rightarrow> MixNodeCostParams
       \<Rightarrow> MixnodeBondingPayload ContractMessageContent SignableMessage" where
  "construct_mixnode_bonding_sign_payload nonce from proxy pledge mix_node costs =
     signable_message_new nonce ''mixnode-bonding''
       \<lparr>mc_sender = from, mc_proxy = proxy, mc_funds = [pledge], mc_data = MixnodeBondingPayload mix_node costs\<rparr>"

definition construct_gateway_bonding_sign_payload ::
    "Nonce \<Rightarrow> Addr \<Rightarrow> Addr option \<Rightarrow> Coin \<Rightarrow> Gateway \<Rightarrow> GatewayBondingPayload ContractMessageContent SignableMessage" where
  "construct_gateway_bonding_sign_payload nonce from proxy pledge gateway =
     signable_message_new nonce ''gateway-bonding''
       \<lparr>mc_sender = from, mc_proxy = proxy, mc_funds = [pledge], mc_data = GatewayBondingPayload gateway\<rparr>"

definition construct_family_join_permit ::
    "Nonce \<Rightarrow> FamilyHead \<Rightarrow> Addr option \<Rightarrow> IdentityKey \<Rightarrow> FamilyJoinPermit SignableMessage" where
  "construct_family_join_permit nonce family_head proxy member_node =
     signable_message_new nonce ''family-join-permit'' (FamilyJoinPermit family_head proxy member_node)"

text \<open>\<open>Verifier::verify_message\<close> with the serialisation of the message as an argument.\<close>

definition verify_message ::
    "mixnet_lib \<Rightarrow> ('t SignableMessage \<Rightarrow> StdError + bytes) \<Rightarrow> 't SignableMessage \<Rightarrow> MessageSignature \<Rightarrow> bytes
       \<Rightarrow> (ApiVerifierError + bool) option" where
  "verify_message lib to_vec message signature public_key =
     (case sm_algorithm message of
        Ed25519 \<Rightarrow>
          (case to_vec message of
             Inl e \<Rightarrow> Err (VerifierStd e)
           | Inr plaintext \<Rightarrow> Some (map_sum Verification id (ed25519_verify lib plaintext signature public_key)))
      | Secp256k1 \<Rightarrow> None)"

definition decode_ed25519_identity_key :: "mixnet_lib \<Rightarrow> string \<Rightarrow> bytes mresult" where
  "decode_ed25519_identity_key lib encoded =
     (case bs58_decode_into lib encoded 32 of
        Inl e \<Rightarrow> Err (MalformedEd25519IdentityKey e)
      | Inr public_key \<Rightarrow>
          if length public_key \<noteq> 32 then Err (MalformedEd25519IdentityKey ''Too few bytes provided for the public key'')
          else Ok public_key)"

definition get_signing_nonce :: "mixnet_state \<Rightarrow> Addr \<Rightarrow> Nonce" where
  "get_signing_nonce st address = (case NONCES st address of Some n \<Rightarrow> n | None \<Rightarrow> 0)"

definition update_signing_nonce :: "mixnet_state \<Rightarrow> Addr \<Rightarrow> Nonce \<Rightarrow> mixnet_state" where
  "update_signing_nonce st address value = st\<lparr>NONCES := (NONCES st)(address \<mapsto> value)\<rparr>"

definition increment_signing_nonce :: "mixnet_state \<Rightarrow> Addr \<Rightarrow> mixnet_state option" where
  "increment_signing_nonce st address =
     map_option (update_signing_nonce st address) (u32_add (get_signing_nonce st address) 1)"

section \<open>Bonds\<close>

definition unique_violation :: StdError where
  "unique_violation = StdGeneric ''Violates unique constraint on index''"

definition save_bond :: "MixId \<Rightarrow> MixNodeBond \<Rightarrow> mixnet_state \<Rightarrow> mixnet_state mresult" where
  "save_bond mix_id bond st =
     (if list_ex (\<lambda>(k, b). k \<noteq> mix_id \<and>
           (bond_owner b = bond_owner bond \<or> bond_identity b = bond_identity bond
            \<or> mn_sphinx_key (bond_mix_node b) = mn_sphinx_key (bond_mix_node bond))) (MIXNODE_BONDS st)
      then Err (StdErr unique_violation)
      else Ok (st\<lparr>MIXNODE_BONDS := AList.update mix_id bond (MIXNODE_BONDS st)\<rparr>))"

definition remove_bond :: "MixId \<Rightarrow> mixnet_state \<Rightarrow> mixnet_state" where
  "remove_bond mix_id st = st\<lparr>MIXNODE_BONDS := AList.delete mix_id (MIXNODE_BONDS st)\<rparr>"

definition bond_by_owner :: "mixnet_state \<Rightarrow> Addr \<Rightarrow> MixNodeBond option" where
  "bond_by_owner st owner = map_option snd (find (\<lambda>(k, b). bond_owner b = owner) (MIXNODE_BONDS st))"

definition bond_by_identity :: "mixnet_state \<Rightarrow> IdentityKey \<Rightarrow> MixNodeBond option" where
  "bond_by_identity st identity = map_option snd (find (\<lambda>(k, b). bond_identity b = identity) (MIXNODE_BONDS st))"

definition must_get_mixnode_bond_by_owner :: "mixnet_state \<Rightarrow> Addr \<Rightarrow> MixNodeBond mresult" where
  "must_get_mixnode_bond_by_owner st owner =
     (case bond_by_owner st owner of Some b \<Rightarrow> Ok b | None \<Rightarrow> Err (NoAssociatedMixNodeBond owner))"

record MixNodeDetails =
  bond_information :: MixNodeBond
  rewarding_details :: MixNodeRewarding
  pending_changes :: PendingMixNodeChanges

definition load_pending_changes :: "mixnet_state \<Rightarrow> MixId \<Rightarrow> PendingMixNodeChanges" where
  "load_pending_changes st mix_id =
     (case PENDING_MIXNODE_CHANGES st mix_id of Some c \<Rightarrow> c | None \<Rightarrow> pending_changes_default)"

definition save_pending_changes :: "MixId \<Rightarrow> PendingMixNodeChanges \<Rightarrow> mixnet_state \<Rightarrow> mixnet_state" where
  "save_pending_changes mix_id c st = st\<lparr>PENDING_MIXNODE_CHANGES := (PENDING_MIXNODE_CHANGES st)(mix_id \<mapsto> c)\<rparr>"

definition save_rewarding :: "MixId \<Rightarrow> MixNodeRewarding \<Rightarrow> mixnet_state \<Rightarrow> mixnet_state" where
  "save_rewarding mix_id r st = st\<lparr>MIXNODE_REWARDING := AList.update mix_id r (MIXNODE_REWARDING st)\<rparr>"

definition remove_rewarding :: "MixId \<Rightarrow> mixnet_state \<Rightarrow> mixnet_state" where
  "remove_rewarding mix_id st = st\<lparr>MIXNODE_REWARDING := AList.delete mix_id (MIXNODE_REWARDING st)\<rparr>"

definition attach_mix_details :: "mixnet_state \<Rightarrow> MixNodeBond \<Rightarrow> MixNodeDetails mresult" where
  "attach_mix_details st bond =
     (case map_of (MIXNODE_REWARDING st) (bond_mix_id bond) of
        None \<Rightarrow> Err (StdErr (StdNotFound ''MixNodeRewarding''))
      | Some r \<Rightarrow>
          Ok \<lparr>bond_information = bond, rewarding_details = r, pending_changes = load_pending_changes st (bond_mix_id bond)\<rparr>)"

definition get_mixnode_details_by_id :: "mixnet_state \<Rightarrow> MixId \<Rightarrow> MixNodeDetails option mresult" where
  "get_mixnode_details_by_id st mix_id =
     (case map_of (MIXNODE_BONDS st) mix_id of
        None \<Rightarrow> Ok None
      | Some bond \<Rightarrow> pbind (attach_mix_details st bond) (\<lambda>d. Ok (Some d)))"

definition get_mixnode_details_by_owner :: "mixnet_state \<Rightarrow> Addr \<Rightarrow> MixNodeDetails option mresult" where
  "get_mixnode_details_by_owner st address =
     (case bond_by_owner st address of
        None \<Rightarrow> Ok None
      | Some bond \<Rightarrow> pbind (attach_mix_details st bond) (\<lambda>d. Ok (Some d)))"

definition get_mixnode_details_by_identity :: "mixnet_state \<Rightarrow> IdentityKey \<Rightarrow> MixNodeDetails option mresult" where
  "get_mixnode_details_by_identity st mix_identity =
     (case bond_by_identity st mix_identity of
        None \<Rightarrow> Ok None
      | Some bond \<Rightarrow> pbind (attach_mix_details st bond) (\<lambda>d. Ok (Some d)))"

text \<open>The \<open>ok_or\<close> of the callers.\<close>

definition ok_or :: "MixnetContractError \<Rightarrow> 'a option \<Rightarrow> 'a mresult" where
  "ok_or e x = (case x of None \<Rightarrow> Err e | Some v \<Rightarrow> Ok v)"

definition decrement_stored_layer_count :: "mixnet_state \<Rightarrow> Layer \<Rightarrow> mixnet_state mresult" where
  "decrement_stored_layer_count st layer =
     pbind (Some (decrement_layer_count (LAYERS st) layer)) (\<lambda>layers. Ok (st\<lparr>LAYERS := layers\<rparr>))"

definition assign_layer :: "mixnet_state \<Rightarrow> (mixnet_state \<times> Layer) option" where
  "assign_layer st =
     (let fewest = choose_with_fewest (LAYERS st) in
      Option.bind (increment_layer_count (LAYERS st) fewest) (\<lambda>layers. Some (st\<lparr>LAYERS := layers\<rparr>, fewest)))"

definition next_mixnode_id_counter :: "mixnet_state \<Rightarrow> (mixnet_state \<times> MixId) option" where
  "next_mixnode_id_counter st =
     Option.bind (u32_add (case MIXNODE_ID_COUNTER st of Some n \<Rightarrow> n | None \<Rightarrow> 0) 1) (\<lambda>i.
     Some (st\<lparr>MIXNODE_ID_COUNTER := Some i\<rparr>, i))"

definition save_new_mixnode ::
    "mixnet_lib \<Rightarrow> Env \<Rightarrow> MixNode \<Rightarrow> MixNodeCostParams \<Rightarrow> Addr \<Rightarrow> Addr option \<Rightarrow> Coin \<Rightarrow> mixnet_state
       \<Rightarrow> (mixnet_state \<times> MixId \<times> Layer) mresult" where
  "save_new_mixnode lib env mixnode costs owner proxy pledge st =
     pbind (panicking (assign_layer st)) (\<lambda>(st, layer).
     pbind (panicking (next_mixnode_id_counter st)) (\<lambda>(st, mix_id).
     let current_epoch = current_epoch_absolute_id (CURRENT_INTERVAL st) in
     pbind (initialise_new lib costs pledge current_epoch) (\<lambda>rewarding.
     let bond = mixnode_bond_new mix_id owner pledge layer mixnode proxy (block_height env) in
     pbind (save_bond mix_id bond st) (\<lambda>st.
     Ok (save_rewarding mix_id rewarding st, mix_id, layer)))))"

definition cleanup_post_unbond_mixnode_storage :: "Env \<Rightarrow> MixNodeDetails \<Rightarrow> mixnet_state \<Rightarrow> mixnet_state mresult" where
  "cleanup_post_unbond_mixnode_storage env current_details st =
     (let bond = bond_information current_details; rewarding = rewarding_details current_details;
          mix_id = bond_mix_id bond;
          st = remove_bond mix_id st;
          st = (if unique_delegations rewarding = 0 then remove_rewarding mix_id st
                else save_rewarding mix_id (rewarding\<lparr>operator := 0\<rparr>) st);
          st = st\<lparr>UNBONDED_MIXNODES := AList.update mix_id
                    \<lparr>unbonded_identity_key = bond_identity bond, unbonded_owner = bond_owner bond,
                     unbonded_proxy = bond_proxy bond, unbonding_height = block_height env\<rparr> (UNBONDED_MIXNODES st)\<rparr>
      in decrement_stored_layer_count st (bond_layer bond))"

definition gateway_by_owner :: "mixnet_state \<Rightarrow> Addr \<Rightarrow> GatewayBond option" where
  "gateway_by_owner st owner = map_option snd (find (\<lambda>(k, b). gb_owner b = owner) (GATEWAYS st))"

definition save_gateway :: "IdentityKey \<Rightarrow> GatewayBond \<Rightarrow> mixnet_state \<Rightarrow> mixnet_state mresult" where
  "save_gateway identity bond st =
     (if list_ex (\<lambda>(k, b). k \<noteq> identity \<and> gb_owner b = gb_owner bond) (GATEWAYS st)
      then Err (StdErr unique_violation)
      else Ok (st\<lparr>GATEWAYS := AList.update identity bond (GATEWAYS st)\<rparr>))"

definition must_get_gateway_bond_by_owner :: "mixnet_state \<Rightarrow> Addr \<Rightarrow> GatewayBond mresult" where
  "must_get_gateway_bond_by_owner st owner =
     (case gateway_by_owner st owner of Some b \<Rightarrow> Ok b | None \<Rightarrow> Err (NoAssociatedGatewayBond owner))"

section \<open>Delegations\<close>

definition as_bytes :: "string \<Rightarrow> bytes" where
  "as_bytes s = map of_char s"

definition generate_owner_storage_subkey :: "mixnet_lib \<Rightarrow> Addr \<Rightarrow> Addr option \<Rightarrow> OwnerProxySubKey" where
  "generate_owner_storage_subkey lib address maybe_vesting_contract =
     (case maybe_vesting_contract of
        Some vesting_contract \<Rightarrow>
          bs58_encode lib (map (\<lambda>(x, y). xor x y) (zip (as_bytes address) (as_bytes vesting_contract)))
      | None \<Rightarrow> address)"

definition generate_delegation_key :: "mixnet_lib \<Rightarrow> MixId \<Rightarrow> Addr \<Rightarrow> Addr option \<Rightarrow> StorageKey" where
  "generate_delegation_key lib mix_id owner proxy = (mix_id, generate_owner_storage_subkey lib owner proxy)"

definition delegation_storage_key :: "mixnet_lib \<Rightarrow> Delegation \<Rightarrow> StorageKey" where
  "delegation_storage_key lib self = generate_delegation_key lib (del_mix_id self) (del_owner self) (del_proxy self)"

definition store_delegation :: "StorageKey \<Rightarrow> Delegation \<Rightarrow> mixnet_state \<Rightarrow> mixnet_state" where
  "store_delegation key d st = st\<lparr>MIX_DELEGATIONS := AList.update key d (MIX_DELEGATIONS st)\<rparr>"

definition drop_delegation :: "StorageKey \<Rightarrow> mixnet_state \<Rightarrow> mixnet_state" where
  "drop_delegation key st = st\<lparr>MIX_DELEGATIONS := AList.delete key (MIX_DELEGATIONS st)\<rparr>"

definition undelegate_stored :: "mixnet_lib \<Rightarrow> Delegation \<Rightarrow> MixNodeRewarding \<Rightarrow> mixnet_state \<Rightarrow> (mixnet_state \<times> Coin) mresult" where
  "undelegate_stored lib delegation mix_rewarding st =
     pbind (undelegate lib mix_rewarding delegation) (\<lambda>(mix_rewarding, tokens).
     let st = save_rewarding (del_mix_id delegation) mix_rewarding st in
     Ok (drop_delegation (delegation_storage_key lib delegation) st, tokens))"

section \<open>Epochs and pending events\<close>

definition save_current_epoch_status :: "EpochStatus \<Rightarrow> mixnet_state \<Rightarrow> mixnet_state" where
  "save_current_epoch_status status st = st\<lparr>CURRENT_EPOCH_STATUS := status\<rparr>"

definition save_interval :: "Interval \<Rightarrow> mixnet_state \<Rightarrow> mixnet_state" where
  "save_interval interval st = st\<lparr>CURRENT_INTERVAL := interval\<rparr>"

definition next_epoch_event_id_counter :: "mixnet_state \<Rightarrow> (mixnet_state \<times> EpochEventId) option" where
  "next_epoch_event_id_counter st =
     Option.bind (u32_add (EPOCH_EVENT_ID_COUNTER st) 1) (\<lambda>i. Some (st\<lparr>EPOCH_EVENT_ID_COUNTER := i\<rparr>, i))"

definition next_interval_event_id_counter :: "mixnet_state \<Rightarrow> (mixnet_state \<times> IntervalEventId) option" where
  "next_interval_event_id_counter st =
     Option.bind (u32_add (INTERVAL_EVENT_ID_COUNTER st) 1) (\<lambda>i. Some (st\<lparr>INTERVAL_EVENT_ID_COUNTER := i\<rparr>, i))"

definition push_new_epoch_event :: "Env \<Rightarrow> PendingEpochEventKind \<Rightarrow> mixnet_state \<Rightarrow> (mixnet_state \<times> EpochEventId) option" where
  "push_new_epoch_event env event st =
     Option.bind (next_epoch_event_id_counter st) (\<lambda>(st, event_id).
     Some (st\<lparr>PENDING_EPOCH_EVENTS := AList.update event_id \<lparr>ee_created_at = block_height env, ee_kind = event\<rparr>
               (PENDING_EPOCH_EVENTS st)\<rparr>, event_id))"

definition push_new_interval_event :: "Env \<Rightarrow> PendingIntervalEventKind \<Rightarrow> mixnet_state \<Rightarrow> (mixnet_state \<times> IntervalEventId) option" where
  "push_new_interval_event env event st =
     Option.bind (next_interval_event_id_counter st) (\<lambda>(st, event_id).
     Some (st\<lparr>PENDING_INTERVAL_EVENTS := AList.update event_id \<lparr>ie_created_at = block_height env, ie_kind = event\<rparr>
               (PENDING_INTERVAL_EVENTS st)\<rparr>, event_id))"

text \<open>The loop over the new rewarded set: the remaining old entries and the stored set.\<close>

fun update_rewarded_set_loop ::
    "nat \<Rightarrow> nat \<Rightarrow> MixId list \<Rightarrow> (MixId \<times> RewardedSetNodeStatus) list \<Rightarrow> (MixId \<times> RewardedSetNodeStatus) list
       \<Rightarrow> (MixId \<times> RewardedSetNodeStatus) list \<times> (MixId \<times> RewardedSetNodeStatus) list" where
  "update_rewarded_set_loop active i [] old stored = (old, stored)"
| "update_rewarded_set_loop active i (node_id # new_set) old stored =
     (let set_status = (if i < active then Active else Standby);
          stored = (if map_of old node_id \<noteq> Some set_status then AList.update node_id set_status stored else stored)
      in update_rewarded_set_loop active (i + 1) new_set (AList.delete node_id old) stored)"

definition update_stored_rewarded_set :: "nat \<Rightarrow> MixId list \<Rightarrow> mixnet_state \<Rightarrow> mixnet_state" where
  "update_stored_rewarded_set active new_set st =
     (let (old, stored) = update_rewarded_set_loop active 0 new_set (REWARDED_SET st) (REWARDED_SET st) in
      st\<lparr>REWARDED_SET := fold AList.delete (map fst old) stored\<rparr>)"

definition reward_accounting :: "decimal \<Rightarrow> mixnet_state \<Rightarrow> mixnet_state option" where
  "reward_accounting a st =
     (let change = PENDING_REWARD_POOL_CHANGE st in
      map_option (\<lambda>n. st\<lparr>PENDING_REWARD_POOL_CHANGE := change\<lparr>removed := n\<rparr>\<rparr>) (uint128_add (removed change) a))"

section \<open>Guards\<close>

definition vesting_contract_of :: "mixnet_state \<Rightarrow> Addr" where
  "vesting_contract_of st = vesting_contract_address (CONTRACT_STATE st)"

definition ensure_epoch_in_progress_state :: "mixnet_state \<Rightarrow> unit mresult" where
  "ensure_epoch_in_progress_state st =
     (let s = epoch_state (CURRENT_EPOCH_STATUS st) in
      if s \<noteq> InProgress then Err (EpochAdvancementInProgress s) else Ok ())"

definition ensure_is_authorized :: "Addr \<Rightarrow> mixnet_state \<Rightarrow> unit mresult" where
  "ensure_is_authorized a st =
     (if a \<noteq> rewarding_validator_address (CONTRACT_STATE st) then Err Unauthorized else Ok ())"

definition ensure_can_advance_epoch :: "Addr \<Rightarrow> mixnet_state \<Rightarrow> EpochStatus mresult" where
  "ensure_can_advance_epoch a st =
     (let status = CURRENT_EPOCH_STATUS st in
      if a \<noteq> being_advanced_by status then
        pbind (ensure_is_authorized a st) (\<lambda>_. Err (RewardingValidatorMismatch a (being_advanced_by status)))
      else Ok status)"

definition ensure_is_owner :: "Addr \<Rightarrow> mixnet_state \<Rightarrow> unit mresult" where
  "ensure_is_owner a st = (if a \<noteq> cs_owner (CONTRACT_STATE st) then Err Unauthorized else Ok ())"

definition proxy_name :: "Addr option \<Rightarrow> string" where
  "proxy_name p = (case p of None \<Rightarrow> ''None'' | Some a \<Rightarrow> a)"

definition ensure_proxy_match :: "Addr option \<Rightarrow> Addr option \<Rightarrow> unit mresult" where
  "ensure_proxy_match actual expected =
     (if actual \<noteq> expected then Err (ProxyMismatch (proxy_name expected) (proxy_name actual)) else Ok ())"

definition ensure_sent_by_vesting_contract :: "MessageInfo \<Rightarrow> mixnet_state \<Rightarrow> unit mresult" where
  "ensure_sent_by_vesting_contract info st =
     (if sender info \<noteq> vesting_contract_of st then Err (SenderIsNotVestingContract (sender info) (vesting_contract_of st))
      else Ok ())"

definition ensure_bonded :: "MixNodeBond \<Rightarrow> unit mresult" where
  "ensure_bonded bond = (if is_unbonding bond then Err (MixnodeIsUnbonding (bond_mix_id bond)) else Ok ())"

definition ensure_no_pending_pledge_changes :: "PendingMixNodeChanges \<Rightarrow> unit mresult" where
  "ensure_no_pending_pledge_changes changes =
     (case pledge_change changes of Some i \<Rightarrow> Err (PendingPledgeChange i) | None \<Rightarrow> Ok ())"

definition ensure_no_existing_bond :: "Addr \<Rightarrow> mixnet_state \<Rightarrow> unit mresult" where
  "ensure_no_existing_bond a st =
     (if bond_by_owner st a \<noteq> None then Err AlreadyOwnsMixnode
      else if gateway_by_owner st a \<noteq> None then Err AlreadyOwnsGateway
      else Ok ())"

definition validate_pledge :: "Coin list \<Rightarrow> Coin \<Rightarrow> Coin mresult" where
  "validate_pledge pledge minimum =
     (case pledge of
        [] \<Rightarrow> Err NoBondFound
      | [c] \<Rightarrow>
          if denom c \<noteq> denom minimum then Err (WrongDenom (denom c) (denom minimum))
          else if amount c < amount minimum then Err (InsufficientPledge c minimum)
          else Ok c
      | _ \<Rightarrow> Err MultipleDenoms)"

definition validate_delegation_stake :: "Coin list \<Rightarrow> Coin option \<Rightarrow> string \<Rightarrow> Coin mresult" where
  "validate_delegation_stake delegation minimum expected_denom =
     (case delegation of
        [] \<Rightarrow> Err EmptyDelegation
      | [c] \<Rightarrow>
          if denom c \<noteq> expected_denom then Err (WrongDenom (denom c) expected_denom)
          else
            (case minimum of
               Some m \<Rightarrow> if amount c < amount m then Err (InsufficientDelegation c m) else Ok c
             | None \<Rightarrow> if amount c = 0 then Err EmptyDelegation else Ok c)
      | _ \<Rightarrow> Err MultipleDenoms)"

section \<open>Messages to the bank and the vesting contract\<close>

datatype MixCosmosMsg =
    MixBankSend Addr "Coin list"
  | VestingExecute Addr ExecuteMsg "Coin list"

type_synonym mcall = "(mixnet_state \<times> MixCosmosMsg list) mresult"

definition send_to_proxy_or_owner :: "Addr option \<Rightarrow> Addr \<Rightarrow> Coin list \<Rightarrow> MixCosmosMsg" where
  "send_to_proxy_or_owner proxy owner a = MixBankSend (case proxy of Some p \<Rightarrow> p | None \<Rightarrow> owner) a"

definition ensure_vesting_proxy :: "Addr \<Rightarrow> mixnet_state \<Rightarrow> unit mresult" where
  "ensure_vesting_proxy proxy st =
     (if proxy \<noteq> vesting_contract_of st then Err (ProxyIsNotVestingContract proxy (vesting_contract_of st)) else Ok ())"

definition maybe_add_track_vesting_undelegation_message ::
    "mixnet_state \<Rightarrow> Addr option \<Rightarrow> string \<Rightarrow> MixId \<Rightarrow> Coin \<Rightarrow> MixCosmosMsg list \<Rightarrow> MixCosmosMsg list mresult" where
  "maybe_add_track_vesting_undelegation_message st proxy owner mix_id a ms =
     (case proxy of
        Some p \<Rightarrow> pbind (ensure_vesting_proxy p st) (\<lambda>_. Ok (ms @ [VestingExecute p (TrackUndelegation owner mix_id a) []]))
      | None \<Rightarrow> Ok ms)"

definition maybe_add_track_vesting_unbond_mixnode_message ::
    "mixnet_state \<Rightarrow> Addr option \<Rightarrow> string \<Rightarrow> Coin \<Rightarrow> MixCosmosMsg list \<Rightarrow> MixCosmosMsg list mresult" where
  "maybe_add_track_vesting_unbond_mixnode_message st proxy owner a ms =
     (case proxy of
        Some p \<Rightarrow> pbind (ensure_vesting_proxy p st) (\<lambda>_. Ok (ms @ [VestingExecute p (TrackUnbondMixnode owner a) []]))
      | None \<Rightarrow> Ok ms)"

definition maybe_add_track_vesting_decrease_mixnode_pledge ::
    "mixnet_state \<Rightarrow> Addr option \<Rightarrow> string \<Rightarrow> Coin \<Rightarrow> MixCosmosMsg list \<Rightarrow> MixCosmosMsg list mresult" where
  "maybe_add_track_vesting_decrease_mixnode_pledge st proxy owner a ms =
     (case proxy of
        Some p \<Rightarrow> pbind (ensure_vesting_proxy p st) (\<lambda>_. Ok (ms @ [VestingExecute p (TrackDecreasePledge owner a) []]))
      | None \<Rightarrow> Ok ms)"

end
