(* ===== verification/Mixnet_Contract.thy ===== *)
theory Mixnet_Contract
  imports Mixnet_Storage
begin

text \<open>
  The messages of the mixnet contract, \<open>contracts/mixnet/src\<close>: execution of pending events
  (\<open>interval/pending_events.rs\<close>), epochs and intervals (\<open>interval/transactions.rs\<close>), rewards,
  delegations, mixnodes, gateways and families (the \<open>transactions.rs\<close> of each module), and their
  dispatch (\<open>contract.rs\<close>). A call returns the new state and the messages to the bank and to the
  vesting contract. The messages the vesting contract sends on behalf of its accounts are the
  values of \<open>MixnetExecuteMsg\<close>.
\<close>

section \<open>Pending epoch events\<close>

definition execute_delegate ::
    "mixnet_lib \<Rightarrow> Env \<Rightarrow> Addr \<Rightarrow> MixId \<Rightarrow> Coin \<Rightarrow> Addr option \<Rightarrow> mixnet_state \<Rightarrow> mcall" where
  "execute_delegate lib env owner mix_id a proxy st =
     pbind (get_mixnode_details_by_id st mix_id) (\<lambda>details.
     case (case details of
             Some d \<Rightarrow> if still_bonded (rewarding_details d) \<and> \<not> is_unbonding (bond_information d) then Some d else None
           | None \<Rightarrow> None) of
       None \<Rightarrow>
         pbind (maybe_add_track_vesting_undelegation_message st proxy owner mix_id a [send_to_proxy_or_owner proxy owner [a]])
           (\<lambda>ms. Ok (st, ms))
     | Some d \<Rightarrow>
         let key = generate_delegation_key lib mix_id owner proxy in
         pbind (case map_of (MIX_DELEGATIONS st) key of
                  Some existing \<Rightarrow>
                    pbind (undelegate lib (rewarding_details d) existing) (\<lambda>(r, og_with_reward).
                    pbind (panicking (uint128_add (amount a) (amount og_with_reward))) (\<lambda>total.
                    Ok (r, a\<lparr>amount := total\<rparr>)))
                | None \<Rightarrow> Ok (rewarding_details d, a)) (\<lambda>(r, stored_amount).
         pbind (add_base_delegation lib r (amount stored_amount)) (\<lambda>r.
         pbind (panicking (delegation_new owner mix_id (total_unit_reward r) stored_amount (block_height env) proxy)) (\<lambda>delegation.
         Ok (save_rewarding mix_id r (store_delegation key delegation st), [])))))"

definition execute_undelegate :: "mixnet_lib \<Rightarrow> Addr \<Rightarrow> MixId \<Rightarrow> Addr option \<Rightarrow> mixnet_state \<Rightarrow> mcall" where
  "execute_undelegate lib owner mix_id proxy st =
     (case map_of (MIX_DELEGATIONS st) (generate_delegation_key lib mix_id owner proxy) of
        None \<Rightarrow> Ok (st, [])
      | Some delegation \<Rightarrow>
          pbind (ok_or (InconsistentState ''mixnode rewarding got removed from the storage whilst there's still an existing delegation'')
                   (map_of (MIXNODE_REWARDING st) mix_id)) (\<lambda>r.
          pbind (undelegate_stored lib delegation r st) (\<lambda>(st, tokens).
          pbind (maybe_add_track_vesting_undelegation_message st proxy owner mix_id tokens
                   [send_to_proxy_or_owner proxy owner [tokens]]) (\<lambda>ms.
          Ok (st, ms)))))"

definition execute_unbond_mixnode :: "mixnet_lib \<Rightarrow> Env \<Rightarrow> MixId \<Rightarrow> mixnet_state \<Rightarrow> mcall" where
  "execute_unbond_mixnode lib env mix_id st =
     pbind (get_mixnode_details_by_id st mix_id) (\<lambda>details.
     pbind (ok_or (InconsistentState ''mixnode getting processed to get unbonded doesn't exist in the storage'') details) (\<lambda>d.
     if pledge_change (pending_changes d) \<noteq> None
     then Err (InconsistentState ''attempted to unbond mixnode while there are associated pending pledge changes'')
     else
       let bond = bond_information d; proxy = bond_proxy bond; owner = bond_owner bond in
       pbind (panicking (operator_pledge_with_reward lib (rewarding_details d) (denom (original_pledge bond)))) (\<lambda>tokens.
       pbind (cleanup_post_unbond_mixnode_storage env d st) (\<lambda>st.
       pbind (maybe_add_track_vesting_unbond_mixnode_message st proxy owner tokens
                [send_to_proxy_or_owner proxy owner [tokens]]) (\<lambda>ms.
       Ok (st, ms))))))"

definition execute_update_active_set_size :: "nat \<Rightarrow> mixnet_state \<Rightarrow> mcall" where
  "execute_update_active_set_size n st =
     pbind (Some (try_change_active_set_size (REWARDING_PARAMS st) n)) (\<lambda>params.
     Ok (st\<lparr>REWARDING_PARAMS := params\<rparr>, []))"

definition execute_increase_pledge :: "mixnet_lib \<Rightarrow> MixId \<Rightarrow> Coin \<Rightarrow> mixnet_state \<Rightarrow> mcall" where
  "execute_increase_pledge lib mix_id increase st =
     pbind (get_mixnode_details_by_id st mix_id) (\<lambda>details.
     pbind (ok_or (InconsistentState ''mixnode getting processed to increase its pledge doesn't exist in the storage'') details) (\<lambda>d.
     if pledge_change (pending_changes d) = None
     then Err (InconsistentState ''attempted to increase mixnode pledge while there are no associated pending changes'')
     else
       let bond = bond_information d in
       pbind (panicking (uint128_add (amount (original_pledge bond)) (amount increase))) (\<lambda>pledge.
       pbind (increase_operator_uint128 lib (rewarding_details d) (amount increase)) (\<lambda>r.
       pbind (save_bond mix_id (bond\<lparr>original_pledge := (original_pledge bond)\<lparr>amount := pledge\<rparr>\<rparr>) st) (\<lambda>st.
       Ok (save_pending_changes mix_id ((pending_changes d)\<lparr>pledge_change := None\<rparr>) (save_rewarding mix_id r st), []))))))"

definition execute_decrease_pledge :: "mixnet_lib \<Rightarrow> MixId \<Rightarrow> Coin \<Rightarrow> mixnet_state \<Rightarrow> mcall" where
  "execute_decrease_pledge lib mix_id decrease_by st =
     pbind (get_mixnode_details_by_id st mix_id) (\<lambda>details.
     pbind (ok_or (InconsistentState ''mixnode getting processed to increase its pledge doesn't exist in the storage'') details) (\<lambda>d.
     if pledge_change (pending_changes d) = None
     then Err (InconsistentState ''attempted to decrease mixnode pledge while there are no associated pending changes'')
     else
       let bond = bond_information d; proxy = bond_proxy bond; owner = bond_owner bond in
       pbind (panicking (uint128_sub (amount (original_pledge bond)) (amount decrease_by))) (\<lambda>pledge.
       pbind (decrease_operator_uint128 lib (rewarding_details d) (amount decrease_by)) (\<lambda>r.
       pbind (save_bond mix_id (bond\<lparr>original_pledge := (original_pledge bond)\<lparr>amount := pledge\<rparr>\<rparr>) st) (\<lambda>st.
       let st = save_pending_changes mix_id ((pending_changes d)\<lparr>pledge_change := None\<rparr>) (save_rewarding mix_id r st) in
       pbind (maybe_add_track_vesting_decrease_mixnode_pledge st proxy owner decrease_by
                [send_to_proxy_or_owner proxy owner [decrease_by]]) (\<lambda>ms.
       Ok (st, ms)))))))"

fun execute_epoch_event :: "mixnet_lib \<Rightarrow> Env \<Rightarrow> PendingEpochEventKind \<Rightarrow> mixnet_state \<Rightarrow> mcall" where
  "execute_epoch_event lib env (EvDelegate owner mix_id a proxy) st = execute_delegate lib env owner mix_id a proxy st"
| "execute_epoch_event lib env (EvUndelegate owner mix_id proxy) st = execute_undelegate lib owner mix_id proxy st"
| "execute_epoch_event lib env (EvPledgeMore mix_id a) st = execute_increase_pledge lib mix_id a st"
| "execute_epoch_event lib env (EvDecreasePledge mix_id a) st = execute_decrease_pledge lib mix_id a st"
| "execute_epoch_event lib env (EvUnbondMixnode mix_id) st = execute_unbond_mixnode lib env mix_id st"
| "execute_epoch_event lib env (EvUpdateActiveSetSize n) st = execute_update_active_set_size n st"

section \<open>Pending interval events\<close>

definition change_mix_cost_params :: "MixId \<Rightarrow> MixNodeCostParams \<Rightarrow> mixnet_state \<Rightarrow> mcall" where
  "change_mix_cost_params mix_id new_costs st =
     (case map_of (MIXNODE_REWARDING st) mix_id of
        Some r \<Rightarrow> if still_bonded r then Ok (save_rewarding mix_id (r\<lparr>cost_params := new_costs\<rparr>) st, []) else Ok (st, [])
      | None \<Rightarrow> Ok (st, []))"

definition update_rewarding_params :: "mixnet_lib \<Rightarrow> IntervalRewardingParamsUpdate \<Rightarrow> mixnet_state \<Rightarrow> mcall" where
  "update_rewarding_params lib updated_params st =
     pbind (try_apply_updates lib (REWARDING_PARAMS st) updated_params (epochs_in_interval (CURRENT_INTERVAL st))) (\<lambda>params.
     Ok (st\<lparr>REWARDING_PARAMS := params\<rparr>, []))"

definition change_interval_config :: "mixnet_lib \<Rightarrow> Interval \<Rightarrow> nat \<Rightarrow> nat \<Rightarrow> mixnet_state \<Rightarrow> mcall" where
  "change_interval_config lib current_interval epochs epoch_duration_secs st =
     (let interval = change_epoch_length current_interval (duration_from_secs epoch_duration_secs) in
      pbind (panicking (apply_epochs_in_interval_change lib (REWARDING_PARAMS st) epochs)) (\<lambda>params.
      pbind (panicking (force_change_epochs_in_interval interval epochs)) (\<lambda>interval.
      Ok (save_interval interval (st\<lparr>REWARDING_PARAMS := params\<rparr>), []))))"

definition update_interval_config :: "mixnet_lib \<Rightarrow> nat \<Rightarrow> nat \<Rightarrow> mixnet_state \<Rightarrow> mcall" where
  "update_interval_config lib epochs epoch_duration_secs st =
     change_interval_config lib (CURRENT_INTERVAL st) epochs epoch_duration_secs st"

fun execute_interval_event :: "mixnet_lib \<Rightarrow> PendingIntervalEventKind \<Rightarrow> mixnet_state \<Rightarrow> mcall" where
  "execute_interval_event lib (EvChangeMixCostParams mix_id new_costs) st = change_mix_cost_params mix_id new_costs st"
| "execute_interval_event lib (EvUpdateRewardingParams update) st = update_rewarding_params lib update st"
| "execute_interval_event lib (EvUpdateIntervalConfig epochs secs) st = update_interval_config lib epochs secs st"

section \<open>Epoch progression\<close>

definition last_to_execute :: "nat option \<Rightarrow> nat \<Rightarrow> nat \<Rightarrow> nat option" where
  "last_to_execute limit last_executed last_inserted =
     Option.bind (u32_sub last_inserted last_executed) (\<lambda>pending.
     case limit of
       Some l \<Rightarrow> if pending \<le> l then Some last_inserted else u32_add last_executed l
     | None \<Rightarrow> Some last_inserted)"

fun epoch_events_loop :: "mixnet_lib \<Rightarrow> Env \<Rightarrow> EpochEventId list \<Rightarrow> mixnet_state \<Rightarrow> MixCosmosMsg list \<Rightarrow> mcall" where
  "epoch_events_loop lib env [] st ms = Ok (st, ms)"
| "epoch_events_loop lib env (event_id # ids) st ms =
     (case map_of (PENDING_EPOCH_EVENTS st) event_id of
        None \<Rightarrow> Err (StdErr (StdNotFound ''PendingEpochEventData''))
      | Some event \<Rightarrow>
          pbind (execute_epoch_event lib env (ee_kind event) st) (\<lambda>(st, sub).
          epoch_events_loop lib env ids (st\<lparr>PENDING_EPOCH_EVENTS := AList.delete event_id (PENDING_EPOCH_EVENTS st)\<rparr>) (ms @ sub)))"

definition perform_pending_epoch_actions ::
    "mixnet_lib \<Rightarrow> Env \<Rightarrow> nat option \<Rightarrow> mixnet_state \<Rightarrow> (mixnet_state \<times> MixCosmosMsg list \<times> nat) mresult" where
  "perform_pending_epoch_actions lib env limit st =
     (let last_executed = LAST_PROCESSED_EPOCH_EVENT st; last_inserted = EPOCH_EVENT_ID_COUNTER st in
      if last_executed = last_inserted then Ok (st, [], 0)
      else
        pbind (panicking (last_to_execute limit last_executed last_inserted)) (\<lambda>last.
        pbind (epoch_events_loop lib env [last_executed + 1..<last + 1] st []) (\<lambda>(st, ms).
        Ok (st\<lparr>LAST_PROCESSED_EPOCH_EVENT := last\<rparr>, ms, last - last_executed))))"

fun interval_events_loop :: "mixnet_lib \<Rightarrow> IntervalEventId list \<Rightarrow> mixnet_state \<Rightarrow> MixCosmosMsg list \<Rightarrow> mcall" where
  "interval_events_loop lib [] st ms = Ok (st, ms)"
| "interval_events_loop lib (event_id # ids) st ms =
     (case map_of (PENDING_INTERVAL_EVENTS st) event_id of
        None \<Rightarrow> Err (StdErr (StdNotFound ''PendingIntervalEventData''))
      | Some event \<Rightarrow>
          pbind (execute_interval_event lib (ie_kind event) st) (\<lambda>(st, sub).
          interval_events_loop lib ids (st\<lparr>PENDING_INTERVAL_EVENTS := AList.delete event_id (PENDING_INTERVAL_EVENTS st)\<rparr>) (ms @ sub)))"

definition perform_pending_interval_actions ::
    "mixnet_lib \<Rightarrow> nat option \<Rightarrow> mixnet_state \<Rightarrow> (mixnet_state \<times> MixCosmosMsg list \<times> nat) mresult" where
  "perform_pending_interval_actions lib limit st =
     (let last_executed = LAST_PROCESSED_INTERVAL_EVENT st; last_inserted = INTERVAL_EVENT_ID_COUNTER st in
      if last_executed = last_inserted then Ok (st, [], 0)
      else
        pbind (panicking (last_to_execute limit last_executed last_inserted)) (\<lambda>last.
        pbind (interval_events_loop lib [last_executed + 1..<last + 1] st []) (\<lambda>(st, ms).
        Ok (st\<lparr>LAST_PROCESSED_INTERVAL_EVENT := last\<rparr>, ms, last - last_executed))))"

text \<open>The error while the epoch is in progress; its data are computed first.\<close>

definition epoch_in_progress :: "mixnet_lib \<Rightarrow> Interval \<Rightarrow> Env \<Rightarrow> 'a mresult" where
  "epoch_in_progress lib interval env =
     pbind (panicking (current_epoch_end_unix_timestamp lib interval)) (\<lambda>e.
     Err (EpochInProgress (timestamp_seconds (block_time env)) (current_epoch_start_unix_timestamp lib interval) e))"

definition query_number_of_pending_events :: "mixnet_state \<Rightarrow> (nat \<times> nat) option" where
  "query_number_of_pending_events st =
     Option.bind (u32_sub (EPOCH_EVENT_ID_COUNTER st) (LAST_PROCESSED_EPOCH_EVENT st)) (\<lambda>e.
     Option.bind (u32_sub (INTERVAL_EVENT_ID_COUNTER st) (LAST_PROCESSED_INTERVAL_EVENT st)) (\<lambda>i. Some (e, i)))"

definition try_reconcile_epoch_events :: "mixnet_lib \<Rightarrow> Env \<Rightarrow> MessageInfo \<Rightarrow> nat option \<Rightarrow> mixnet_state \<Rightarrow> mcall" where
  "try_reconcile_epoch_events lib env info limit st =
     pbind (ensure_can_advance_epoch (sender info) st) (\<lambda>status.
     pbind (Some (ensure_is_in_event_reconciliation_state status)) (\<lambda>_.
     let interval = CURRENT_INTERVAL st in
     pbind (panicking (is_current_epoch_over lib interval env)) (\<lambda>epoch_over.
     if \<not> epoch_over then epoch_in_progress lib interval env
     else
       pbind (perform_pending_epoch_actions lib env limit st) (\<lambda>(st, ms, executed).
       pbind (case limit of Some l \<Rightarrow> panicking (map_option Some (u32_sub l executed)) | None \<Rightarrow> Ok None) (\<lambda>limit.
       pbind (panicking (is_current_interval_over lib interval env)) (\<lambda>interval_over.
       pbind (if interval_over then perform_pending_interval_actions lib limit st else Ok (st, [], 0)) (\<lambda>(st, ms', _).
       pbind (panicking (query_number_of_pending_events st)) (\<lambda>(epoch_events, interval_events).
       let progress = (epoch_events = 0 \<and> (interval_over \<longrightarrow> interval_events = 0));
           st = (if progress then save_current_epoch_status (status\<lparr>epoch_state := AdvancingEpoch\<rparr>) st else st)
       in Ok (st, ms @ ms')))))))))"

fun first_duplicate :: "MixId list \<Rightarrow> MixId list \<Rightarrow> MixId option" where
  "first_duplicate seen [] = None"
| "first_duplicate seen (x # xs) = (if x \<in> set seen then Some x else first_duplicate (x # seen) xs)"

definition update_rewarded_set :: "MixId list \<Rightarrow> nat \<Rightarrow> mixnet_state \<Rightarrow> mixnet_state mresult" where
  "update_rewarded_set new_set expected_active_set_size st =
     (let params = REWARDING_PARAMS st; len = length new_set mod 2 ^ 32 in
      if expected_active_set_size \<noteq> active_set_size params
      then Err (UnexpectedActiveSetSize expected_active_set_size (active_set_size params))
      else if rewarded_set_size params < len then Err (UnexpectedRewardedSetSize len (rewarded_set_size params))
      else
        (case first_duplicate [] new_set of
           Some node_id \<Rightarrow> Err (DuplicateRewardedSetNode node_id)
         | None \<Rightarrow> Ok (update_stored_rewarded_set expected_active_set_size new_set st)))"

definition try_begin_epoch_transition :: "mixnet_lib \<Rightarrow> Env \<Rightarrow> MessageInfo \<Rightarrow> mixnet_state \<Rightarrow> mcall" where
  "try_begin_epoch_transition lib env info st =
     pbind (ensure_is_authorized (sender info) st) (\<lambda>_.
     let interval = CURRENT_INTERVAL st in
     pbind (panicking (is_current_epoch_over lib interval env)) (\<lambda>epoch_over.
     if \<not> epoch_over then epoch_in_progress lib interval env
     else
       pbind (ensure_epoch_in_progress_state st) (\<lambda>_.
       let rewarded_set = map fst (kv_range (REWARDED_SET st));
           new_state = (if rewarded_set = [] then ReconcilingEvents else Rewarding 0 (last rewarded_set))
       in Ok (save_current_epoch_status \<lparr>being_advanced_by = sender info, epoch_state = new_state\<rparr> st, []))))"

definition update_mixnode_layer :: "MixId \<Rightarrow> Layer \<Rightarrow> mixnet_state \<Rightarrow> mixnet_state mresult" where
  "update_mixnode_layer mix_id layer st =
     (case map_of (MIXNODE_BONDS st) mix_id of
        None \<Rightarrow> Err (MixNodeBondNotFound mix_id)
      | Some bond \<Rightarrow> save_bond (bond_mix_id bond) (bond\<lparr>bond_layer := layer\<rparr>) st)"

fun update_layers :: "(MixId \<times> Layer) list \<Rightarrow> mixnet_state \<Rightarrow> mixnet_state mresult" where
  "update_layers [] st = Ok st"
| "update_layers ((mix_id, layer) # rest) st = pbind (update_mixnode_layer mix_id layer st) (update_layers rest)"

definition apply_reward_pool_changes :: "mixnet_lib \<Rightarrow> mixnet_state \<Rightarrow> mixnet_state mresult" where
  "apply_reward_pool_changes lib st =
     (let params = REWARDING_PARAMS st; iv = interval_params params; change = PENDING_REWARD_POOL_CHANGE st in
      pbind (panicking (uint128_sub (reward_pool iv) (removed change))) (\<lambda>pool.
      pbind (panicking (uint128_add pool (added change))) (\<lambda>pool.
      pbind (panicking (percent_mul_decimal lib (staking_supply_scale_factor iv) (removed change))) (\<lambda>scaled.
      pbind (panicking (uint128_add (staking_supply iv) scaled)) (\<lambda>supply.
      pbind (std (into_base_decimal lib (epochs_in_interval (CURRENT_INTERVAL st)))) (\<lambda>n.
      pbind (panicking (dec_div lib pool n)) (\<lambda>q.
      pbind (panicking (decimal_mul_percent lib q (interval_pool_emission iv))) (\<lambda>budget.
      pbind (std (into_base_decimal lib (rewarded_set_size params))) (\<lambda>k.
      pbind (panicking (dec_div lib supply k)) (\<lambda>point.
      Ok (st\<lparr>PENDING_REWARD_POOL_CHANGE := \<lparr>removed = 0, added = 0\<rparr>,
             REWARDING_PARAMS := params\<lparr>interval_params := iv\<lparr>reward_pool := pool, staking_supply := supply,
                epoch_reward_budget := budget, stake_saturation_point := point\<rparr>\<rparr>\<rparr>)))))))))))"

definition try_advance_epoch ::
    "mixnet_lib \<Rightarrow> Env \<Rightarrow> MessageInfo \<Rightarrow> (MixId \<times> Layer) list \<Rightarrow> nat \<Rightarrow> mixnet_state \<Rightarrow> mcall" where
  "try_advance_epoch lib env info layer_assignments expected_active_set_size st =
     pbind (ensure_can_advance_epoch (sender info) st) (\<lambda>status.
     pbind (Some (ensure_is_in_advancement_state status)) (\<lambda>_.
     let interval = CURRENT_INTERVAL st in
     pbind (panicking (is_current_epoch_over lib interval env)) (\<lambda>epoch_over.
     if \<not> epoch_over then epoch_in_progress lib interval env
     else
       pbind (panicking (is_current_interval_over lib interval env)) (\<lambda>interval_over.
       pbind (if interval_over then apply_reward_pool_changes lib st else Ok st) (\<lambda>st.
       pbind (panicking (advance_epoch lib interval)) (\<lambda>updated.
       pbind (update_rewarded_set (map fst layer_assignments) expected_active_set_size (save_interval updated st)) (\<lambda>st.
       pbind (update_layers layer_assignments st) (\<lambda>st.
       Ok (save_current_epoch_status (status\<lparr>epoch_state := InProgress\<rparr>) st, [])))))))))"

definition try_update_interval_config :: "mixnet_lib \<Rightarrow> Env \<Rightarrow> MessageInfo \<Rightarrow> nat \<Rightarrow> nat \<Rightarrow> bool \<Rightarrow> mixnet_state \<Rightarrow> mcall" where
  "try_update_interval_config lib env info epochs epoch_duration_secs force_immediately st =
     pbind (ensure_is_owner (sender info) st) (\<lambda>_.
     if epochs = 0 then Err EpochsInIntervalZero
     else if epoch_duration_secs = 0 then Err EpochDurationZero
     else
       let interval = CURRENT_INTERVAL st in
       pbind (if force_immediately then Ok True else panicking (is_current_interval_over lib interval env)) (\<lambda>now.
       if now then change_interval_config lib interval epochs epoch_duration_secs st
       else
         pbind (ensure_epoch_in_progress_state st) (\<lambda>_.
         pbind (panicking (push_new_interval_event env (EvUpdateIntervalConfig epochs epoch_duration_secs) st)) (\<lambda>(st, _).
         pbind (panicking (secs_until_current_interval_end lib interval env)) (\<lambda>_.
         Ok (st, []))))))"

section \<open>Rewards\<close>

definition update_and_save_last_rewarded :: "EpochStatus \<Rightarrow> MixId \<Rightarrow> mixnet_state \<Rightarrow> mixnet_state mresult" where
  "update_and_save_last_rewarded status new_last_rewarded st =
     pbind (Some (update_last_rewarded status new_last_rewarded)) (\<lambda>(status, is_done).
     let status = (if is_done then status\<lparr>epoch_state := ReconcilingEvents\<rparr> else status) in
     Ok (save_current_epoch_status status st))"

definition try_reward_mixnode :: "mixnet_lib \<Rightarrow> Env \<Rightarrow> MessageInfo \<Rightarrow> MixId \<Rightarrow> Percent \<Rightarrow> mixnet_state \<Rightarrow> mcall" where
  "try_reward_mixnode lib env info mix_id node_performance st =
     pbind (ensure_can_advance_epoch (sender info) st) (\<lambda>status.
     let interval = CURRENT_INTERVAL st in
     pbind (panicking (is_current_epoch_over lib interval env)) (\<lambda>epoch_over.
     if \<not> epoch_over then epoch_in_progress lib interval env
     else
       let epoch = current_epoch_absolute_id interval in
       if (case epoch_state status of Rewarding last_rewarded _ \<Rightarrow> last_rewarded = mix_id | _ \<Rightarrow> False)
       then Err (MixnodeAlreadyRewarded mix_id epoch)
       else
         pbind (update_and_save_last_rewarded status mix_id st) (\<lambda>st.
         case (case map_of (MIXNODE_REWARDING st) mix_id of Some r \<Rightarrow> if still_bonded r then Some r else None | None \<Rightarrow> None) of
           None \<Rightarrow> Ok (st, [])
         | Some r \<Rightarrow>
             if epoch = last_rewarded_epoch r then Err (MixnodeAlreadyRewarded mix_id epoch)
             else
               pbind (ok_or (MixnodeNotInRewardedSet mix_id epoch) (map_of (REWARDED_SET st) mix_id)) (\<lambda>node_status.
               if percent_is_zero node_performance then Ok (save_rewarding mix_id (r\<lparr>last_rewarded_epoch := epoch\<rparr>) st, [])
               else
                 let params = REWARDING_PARAMS st;
                     node_params = \<lparr>performance = node_performance, in_active_set = is_active node_status\<rparr>
                 in
                 pbind (panicking (node_reward lib r params node_params)) (\<lambda>reward.
                 pbind (panicking (determine_reward_split lib r reward node_performance (epochs_in_interval interval))) (\<lambda>distribution.
                 pbind (panicking (distribute_rewards lib r distribution epoch)) (\<lambda>r.
                 pbind (panicking (reward_accounting reward (save_rewarding mix_id r st))) (\<lambda>st.
                 Ok (st, [])))))))))"

definition withdraw_operator_reward_stored :: "mixnet_lib \<Rightarrow> MixNodeDetails \<Rightarrow> mixnet_state \<Rightarrow> (mixnet_state \<times> Coin) mresult" where
  "withdraw_operator_reward_stored lib d st =
     pbind (withdraw_operator_reward lib (rewarding_details d) (original_pledge (bond_information d))) (\<lambda>(r, reward).
     Ok (save_rewarding (bond_mix_id (bond_information d)) r st, reward))"

definition withdraw_delegator_reward_stored ::
    "mixnet_lib \<Rightarrow> Delegation \<Rightarrow> MixNodeRewarding \<Rightarrow> mixnet_state \<Rightarrow> (mixnet_state \<times> Coin) mresult" where
  "withdraw_delegator_reward_stored lib delegation r st =
     pbind (withdraw_delegator_reward lib r delegation) (\<lambda>(r, updated, reward).
     Ok (save_rewarding (del_mix_id delegation) r (store_delegation (delegation_storage_key lib delegation) updated st), reward))"

text \<open>The messages for a reward that is not zero.\<close>

definition reward_messages :: "Addr option \<Rightarrow> Addr \<Rightarrow> Coin \<Rightarrow> mixnet_state \<Rightarrow> MixCosmosMsg list" where
  "reward_messages proxy owner reward st =
     (if amount reward = 0 then []
      else
        send_to_proxy_or_owner proxy owner [reward] #
        (case proxy of
           Some p \<Rightarrow> if p = vesting_contract_of st then [VestingExecute p (TrackReward reward owner) []] else []
         | None \<Rightarrow> []))"

definition try_withdraw_operator_reward_internal :: "mixnet_lib \<Rightarrow> Addr \<Rightarrow> Addr option \<Rightarrow> mixnet_state \<Rightarrow> mcall" where
  "try_withdraw_operator_reward_internal lib owner proxy st =
     pbind (get_mixnode_details_by_owner st owner) (\<lambda>details.
     pbind (ok_or (NoAssociatedMixNodeBond owner) details) (\<lambda>d.
     pbind (ensure_proxy_match proxy (bond_proxy (bond_information d))) (\<lambda>_.
     pbind (ensure_bonded (bond_information d)) (\<lambda>_.
     pbind (withdraw_operator_reward_stored lib d st) (\<lambda>(st, reward).
     Ok (st, reward_messages proxy owner reward st))))))"

definition try_withdraw_delegator_reward_internal :: "mixnet_lib \<Rightarrow> MixId \<Rightarrow> Addr \<Rightarrow> Addr option \<Rightarrow> mixnet_state \<Rightarrow> mcall" where
  "try_withdraw_delegator_reward_internal lib mix_id owner proxy st =
     pbind (ok_or (NoMixnodeDelegationFound mix_id owner proxy)
              (map_of (MIX_DELEGATIONS st) (generate_delegation_key lib mix_id owner proxy))) (\<lambda>delegation.
     pbind (ok_or (InconsistentState ''mixnode rewarding got removed from the storage whilst there's still an existing delegation'')
              (map_of (MIXNODE_REWARDING st) mix_id)) (\<lambda>r.
     pbind (ok_or (MixnodeHasUnbonded mix_id) (map_of (MIXNODE_BONDS st) mix_id)) (\<lambda>bond.
     if is_unbonding bond then Err (MixnodeIsUnbonding mix_id)
     else
       pbind (ensure_proxy_match proxy (del_proxy delegation)) (\<lambda>_.
       pbind (withdraw_delegator_reward_stored lib delegation r st) (\<lambda>(st, reward).
       Ok (st, reward_messages proxy owner reward st))))))"

definition try_update_active_set_size :: "mixnet_lib \<Rightarrow> Env \<Rightarrow> MessageInfo \<Rightarrow> nat \<Rightarrow> bool \<Rightarrow> mixnet_state \<Rightarrow> mcall" where
  "try_update_active_set_size lib env info n force_immediately st =
     pbind (ensure_is_owner (sender info) st) (\<lambda>_.
     if n = 0 then Err ZeroActiveSet
     else if rewarded_set_size (REWARDING_PARAMS st) < n then Err InvalidActiveSetSize
     else
       let interval = CURRENT_INTERVAL st in
       pbind (if force_immediately then Ok True else panicking (is_current_epoch_over lib interval env)) (\<lambda>now.
       if now then
         pbind (Some (try_change_active_set_size (REWARDING_PARAMS st) n)) (\<lambda>params.
         Ok (st\<lparr>REWARDING_PARAMS := params\<rparr>, []))
       else
         pbind (ensure_epoch_in_progress_state st) (\<lambda>_.
         pbind (panicking (push_new_epoch_event env (EvUpdateActiveSetSize n) st)) (\<lambda>(st, _).
         pbind (panicking (secs_until_current_interval_end lib interval env)) (\<lambda>_.
         Ok (st, []))))))"

definition try_update_rewarding_params ::
    "mixnet_lib \<Rightarrow> Env \<Rightarrow> MessageInfo \<Rightarrow> IntervalRewardingParamsUpdate \<Rightarrow> bool \<Rightarrow> mixnet_state \<Rightarrow> mcall" where
  "try_update_rewarding_params lib env info updated_params force_immediately st =
     pbind (ensure_is_owner (sender info) st) (\<lambda>_.
     if \<not> contains_updates updated_params then Err EmptyParamsChangeMsg
     else
       let interval = CURRENT_INTERVAL st in
       pbind (if force_immediately then Ok True else panicking (is_current_interval_over lib interval env)) (\<lambda>now.
       if now then
         pbind (try_apply_updates lib (REWARDING_PARAMS st) updated_params (epochs_in_interval interval)) (\<lambda>params.
         Ok (st\<lparr>REWARDING_PARAMS := params\<rparr>, []))
       else
         pbind (ensure_epoch_in_progress_state st) (\<lambda>_.
         pbind (panicking (push_new_interval_event env (EvUpdateRewardingParams updated_params) st)) (\<lambda>(st, _).
         pbind (panicking (secs_until_current_interval_end lib interval env)) (\<lambda>_.
         Ok (st, []))))))"

section \<open>Delegations\<close>

definition try_delegate_to_mixnode_internal ::
    "Env \<Rightarrow> MixId \<Rightarrow> Addr \<Rightarrow> Coin list \<Rightarrow> Addr option \<Rightarrow> mixnet_state \<Rightarrow> mcall" where
  "try_delegate_to_mixnode_internal env mix_id delegate a proxy st =
     pbind (ensure_epoch_in_progress_state st) (\<lambda>_.
     pbind (validate_delegation_stake a (minimum_mixnode_delegation (cs_params (CONTRACT_STATE st)))
              (rewarding_denom (CONTRACT_STATE st))) (\<lambda>delegation.
     case map_of (MIXNODE_BONDS st) mix_id of
       None \<Rightarrow> Err (MixNodeBondNotFound mix_id)
     | Some bond \<Rightarrow>
         if is_unbonding bond then Err (MixnodeIsUnbonding mix_id)
         else
           pbind (panicking (push_new_epoch_event env (EvDelegate delegate mix_id delegation proxy) st)) (\<lambda>(st, _).
           Ok (st, []))))"

definition try_remove_delegation_from_mixnode_internal ::
    "mixnet_lib \<Rightarrow> Env \<Rightarrow> MixId \<Rightarrow> Addr \<Rightarrow> Addr option \<Rightarrow> mixnet_state \<Rightarrow> mcall" where
  "try_remove_delegation_from_mixnode_internal lib env mix_id delegate proxy st =
     pbind (ensure_epoch_in_progress_state st) (\<lambda>_.
     if map_of (MIX_DELEGATIONS st) (generate_delegation_key lib mix_id delegate proxy) = None
     then Err (NoMixnodeDelegationFound mix_id delegate proxy)
     else
       pbind (panicking (push_new_epoch_event env (EvUndelegate delegate mix_id proxy) st)) (\<lambda>(st, _).
       Ok (st, [])))"

section \<open>Mixnodes\<close>

definition assign_mixnode_layer :: "MessageInfo \<Rightarrow> MixId \<Rightarrow> Layer \<Rightarrow> mixnet_state \<Rightarrow> mcall" where
  "assign_mixnode_layer info mix_id layer st =
     pbind (ensure_is_authorized (sender info) st) (\<lambda>_.
     pbind (update_mixnode_layer mix_id layer st) (\<lambda>st. Ok (st, [])))"

definition verify_mixnode_bonding_signature ::
    "mixnet_lib \<Rightarrow> mixnet_state \<Rightarrow> Addr \<Rightarrow> Addr option \<Rightarrow> Coin \<Rightarrow> MixNode \<Rightarrow> MixNodeCostParams \<Rightarrow> MessageSignature \<Rightarrow> unit mresult" where
  "verify_mixnode_bonding_signature lib st from proxy pledge mixnode costs signature =
     pbind (decode_ed25519_identity_key lib (mn_identity_key mixnode)) (\<lambda>public_key.
     let msg = construct_mixnode_bonding_sign_payload (get_signing_nonce st from) from proxy pledge mixnode costs in
     pbind (map_option (map_sum SignatureVerificationFailure id)
              (verify_message lib (mixnode_bonding_to_vec lib) msg signature public_key)) (\<lambda>ok.
     if ok then Ok () else Err InvalidEd25519Signature))"

definition try_add_mixnode_internal ::
    "mixnet_lib \<Rightarrow> Env \<Rightarrow> MixNode \<Rightarrow> MixNodeCostParams \<Rightarrow> Coin list \<Rightarrow> Addr \<Rightarrow> MessageSignature \<Rightarrow> Addr option
       \<Rightarrow> mixnet_state \<Rightarrow> mcall" where
  "try_add_mixnode_internal lib env mixnode costs pledge owner owner_signature proxy st =
     pbind (validate_pledge pledge (minimum_mixnode_pledge (cs_params (CONTRACT_STATE st)))) (\<lambda>pledge.
     pbind (ensure_no_existing_bond owner st) (\<lambda>_.
     pbind (verify_mixnode_bonding_signature lib st owner proxy pledge mixnode costs owner_signature) (\<lambda>_.
     pbind (panicking (increment_signing_nonce st owner)) (\<lambda>st.
     pbind (save_new_mixnode lib env mixnode costs owner proxy pledge st) (\<lambda>(st, _, _).
     Ok (st, []))))))"

definition try_increase_pledge_internal :: "Env \<Rightarrow> Coin list \<Rightarrow> Addr \<Rightarrow> Addr option \<Rightarrow> mixnet_state \<Rightarrow> mcall" where
  "try_increase_pledge_internal env increase owner proxy st =
     pbind (get_mixnode_details_by_owner st owner) (\<lambda>details.
     pbind (ok_or (NoAssociatedMixNodeBond owner) details) (\<lambda>d.
     let mix_id = bond_mix_id (bond_information d) in
     pbind (ensure_epoch_in_progress_state st) (\<lambda>_.
     pbind (ensure_proxy_match proxy (bond_proxy (bond_information d))) (\<lambda>_.
     pbind (ensure_bonded (bond_information d)) (\<lambda>_.
     pbind (ensure_no_pending_pledge_changes (pending_changes d)) (\<lambda>_.
     pbind (validate_pledge increase \<lparr>denom = rewarding_denom (CONTRACT_STATE st), amount = 1\<rparr>) (\<lambda>pledge_increase.
     pbind (panicking (push_new_epoch_event env (EvPledgeMore mix_id pledge_increase) st)) (\<lambda>(st, event_id).
     Ok (save_pending_changes mix_id ((pending_changes d)\<lparr>pledge_change := Some event_id\<rparr>) st, [])))))))))"

definition try_decrease_pledge_internal :: "Env \<Rightarrow> Coin \<Rightarrow> Addr \<Rightarrow> Addr option \<Rightarrow> mixnet_state \<Rightarrow> mcall" where
  "try_decrease_pledge_internal env decrease_by owner proxy st =
     pbind (get_mixnode_details_by_owner st owner) (\<lambda>details.
     pbind (ok_or (NoAssociatedMixNodeBond owner) details) (\<lambda>d.
     let mix_id = bond_mix_id (bond_information d); current = amount (original_pledge (bond_information d)) in
     pbind (ensure_epoch_in_progress_state st) (\<lambda>_.
     pbind (ensure_proxy_match proxy (bond_proxy (bond_information d))) (\<lambda>_.
     pbind (ensure_bonded (bond_information d)) (\<lambda>_.
     pbind (ensure_no_pending_pledge_changes (pending_changes d)) (\<lambda>_.
     let minimum = minimum_mixnode_pledge (cs_params (CONTRACT_STATE st)) in
     if denom decrease_by \<noteq> denom minimum then Err (WrongDenom (denom decrease_by) (denom minimum))
     else if amount decrease_by = 0 then Err ZeroCoinAmount
     else if current - amount decrease_by < amount minimum
     then Err (InvalidPledgeReduction current (amount decrease_by) (amount minimum) (denom minimum))
     else
       pbind (panicking (push_new_epoch_event env (EvDecreasePledge mix_id decrease_by) st)) (\<lambda>(st, event_id).
       Ok (save_pending_changes mix_id ((pending_changes d)\<lparr>pledge_change := Some event_id\<rparr>) st, []))))))))"

definition try_remove_mixnode_internal :: "Env \<Rightarrow> Addr \<Rightarrow> Addr option \<Rightarrow> mixnet_state \<Rightarrow> mcall" where
  "try_remove_mixnode_internal env owner proxy st =
     pbind (must_get_mixnode_bond_by_owner st owner) (\<lambda>bond.
     let changes = load_pending_changes st (bond_mix_id bond) in
     pbind (ensure_epoch_in_progress_state st) (\<lambda>_.
     pbind (ensure_proxy_match proxy (bond_proxy bond)) (\<lambda>_.
     pbind (ensure_bonded bond) (\<lambda>_.
     pbind (ensure_no_pending_pledge_changes changes) (\<lambda>_.
     pbind (save_bond (bond_mix_id bond) (bond\<lparr>is_unbonding := True\<rparr>) st) (\<lambda>st.
     pbind (panicking (push_new_epoch_event env (EvUnbondMixnode (bond_mix_id bond)) st)) (\<lambda>(st, _).
     Ok (st, []))))))))"

definition try_update_mixnode_config_internal :: "MixNodeConfigUpdate \<Rightarrow> Addr \<Rightarrow> Addr option \<Rightarrow> mixnet_state \<Rightarrow> mcall" where
  "try_update_mixnode_config_internal new_config owner proxy st =
     pbind (must_get_mixnode_bond_by_owner st owner) (\<lambda>bond.
     pbind (ensure_bonded bond) (\<lambda>_.
     pbind (ensure_proxy_match proxy (bond_proxy bond)) (\<lambda>_.
     let node = (bond_mix_node bond)\<lparr>mn_host := mu_host new_config, mn_mix_port := mu_mix_port new_config,
                  mn_verloc_port := mu_verloc_port new_config, mn_http_api_port := mu_http_api_port new_config,
                  mn_version := mu_version new_config\<rparr> in
     pbind (save_bond (bond_mix_id bond) (bond\<lparr>bond_mix_node := node\<rparr>) st) (\<lambda>st. Ok (st, [])))))"

definition try_update_mixnode_cost_params_internal :: "Env \<Rightarrow> MixNodeCostParams \<Rightarrow> Addr \<Rightarrow> Addr option \<Rightarrow> mixnet_state \<Rightarrow> mcall" where
  "try_update_mixnode_cost_params_internal env new_costs owner proxy st =
     pbind (must_get_mixnode_bond_by_owner st owner) (\<lambda>bond.
     pbind (ensure_epoch_in_progress_state st) (\<lambda>_.
     pbind (ensure_proxy_match proxy (bond_proxy bond)) (\<lambda>_.
     pbind (ensure_bonded bond) (\<lambda>_.
     pbind (panicking (push_new_interval_event env (EvChangeMixCostParams (bond_mix_id bond) new_costs) st)) (\<lambda>(st, _).
     Ok (st, []))))))"

section \<open>Gateways\<close>

definition verify_gateway_bonding_signature ::
    "mixnet_lib \<Rightarrow> mixnet_state \<Rightarrow> Addr \<Rightarrow> Addr option \<Rightarrow> Coin \<Rightarrow> Gateway \<Rightarrow> MessageSignature \<Rightarrow> unit mresult" where
  "verify_gateway_bonding_signature lib st from proxy pledge gateway signature =
     pbind (decode_ed25519_identity_key lib (gw_identity_key gateway)) (\<lambda>public_key.
     let msg = construct_gateway_bonding_sign_payload (get_signing_nonce st from) from proxy pledge gateway in
     pbind (map_option (map_sum SignatureVerificationFailure id)
              (verify_message lib (gateway_bonding_to_vec lib) msg signature public_key)) (\<lambda>ok.
     if ok then Ok () else Err InvalidEd25519Signature))"

definition try_add_gateway_internal ::
    "mixnet_lib \<Rightarrow> Env \<Rightarrow> Gateway \<Rightarrow> Coin list \<Rightarrow> Addr \<Rightarrow> MessageSignature \<Rightarrow> Addr option \<Rightarrow> mixnet_state \<Rightarrow> mcall" where
  "try_add_gateway_internal lib env gateway pledge owner owner_signature proxy st =
     pbind (validate_pledge pledge (minimum_gateway_pledge (cs_params (CONTRACT_STATE st)))) (\<lambda>pledge.
     pbind (ensure_no_existing_bond owner st) (\<lambda>_.
     pbind (case map_of (GATEWAYS st) (gw_identity_key gateway) of
              Some existing \<Rightarrow> if gb_owner existing \<noteq> owner then Err (DuplicateGateway (gb_owner existing)) else Ok ()
            | None \<Rightarrow> Ok ()) (\<lambda>_.
     pbind (verify_gateway_bonding_signature lib st owner proxy pledge gateway owner_signature) (\<lambda>_.
     pbind (panicking (increment_signing_nonce st owner)) (\<lambda>st.
     let bond = gateway_bond_new pledge owner (block_height env) gateway proxy in
     pbind (save_gateway (gateway_identity bond) bond st) (\<lambda>st. Ok (st, [])))))))"

definition try_remove_gateway_internal :: "Addr \<Rightarrow> Addr option \<Rightarrow> mixnet_state \<Rightarrow> mcall" where
  "try_remove_gateway_internal owner proxy st =
     (case gateway_by_owner st owner of
        None \<Rightarrow> Err (NoAssociatedGatewayBond owner)
      | Some bond \<Rightarrow>
          if proxy \<noteq> gb_proxy bond then Err (ProxyMismatch (proxy_name (gb_proxy bond)) (proxy_name proxy))
          else
            Ok (st\<lparr>GATEWAYS := AList.delete (gateway_identity bond) (GATEWAYS st)\<rparr>,
                send_to_proxy_or_owner proxy owner [gb_pledge_amount bond] #
                (case proxy of
                   Some p \<Rightarrow> [VestingExecute p (TrackUnbondGateway owner (gb_pledge_amount bond)) []]
                 | None \<Rightarrow> [])))"

definition try_update_gateway_config_internal :: "GatewayConfigUpdate \<Rightarrow> Addr \<Rightarrow> Addr option \<Rightarrow> mixnet_state \<Rightarrow> mcall" where
  "try_update_gateway_config_internal new_config owner proxy st =
     pbind (must_get_gateway_bond_by_owner st owner) (\<lambda>bond.
     pbind (ensure_proxy_match proxy (gb_proxy bond)) (\<lambda>_.
     let gateway = (gb_gateway bond)\<lparr>gw_host := gu_host new_config, gw_mix_port := gu_mix_port new_config,
                     gw_clients_port := gu_clients_port new_config, gw_location := gu_location new_config,
                     gw_version := gu_version new_config\<rparr> in
     pbind (save_gateway (gateway_identity bond) (bond\<lparr>gb_gateway := gateway\<rparr>) st) (\<lambda>st. Ok (st, []))))"

section \<open>Families\<close>

fun head_identity :: "FamilyHead \<Rightarrow> IdentityKey" where
  "head_identity (FamilyHead k) = k"

definition must_get_family :: "FamilyHead \<Rightarrow> mixnet_state \<Rightarrow> Family mresult" where
  "must_get_family head st = ok_or (FamilyDoesNotExist (head_identity head)) (map_of (FAMILIES st) (head_identity head))"

definition get_family_by_label :: "string \<Rightarrow> mixnet_state \<Rightarrow> Family option" where
  "get_family_by_label label st = map_option snd (find (\<lambda>(k, f). fam_label f = label) (FAMILIES st))"

definition save_family :: "Family \<Rightarrow> mixnet_state \<Rightarrow> mixnet_state mresult" where
  "save_family f st =
     (if list_ex (\<lambda>(k, g). k \<noteq> head_identity (fam_head f) \<and> fam_label g = fam_label f) (FAMILIES st)
      then Err (StdErr unique_violation)
      else Ok (st\<lparr>FAMILIES := AList.update (head_identity (fam_head f)) f (FAMILIES st)\<rparr>))"

definition add_family_member :: "Family \<Rightarrow> IdentityKey \<Rightarrow> mixnet_state \<Rightarrow> mixnet_state" where
  "add_family_member f member st = st\<lparr>MEMBERS := AList.update member (fam_head f) (MEMBERS st)\<rparr>"

definition remove_family_member :: "IdentityKey \<Rightarrow> mixnet_state \<Rightarrow> mixnet_state" where
  "remove_family_member member st = st\<lparr>MEMBERS := AList.delete member (MEMBERS st)\<rparr>"

definition is_family_member :: "mixnet_state \<Rightarrow> Family \<Rightarrow> IdentityKey \<Rightarrow> bool" where
  "is_family_member st f member \<longleftrightarrow> map_of (MEMBERS st) member = Some (fam_head f)"

definition is_any_member :: "mixnet_state \<Rightarrow> IdentityKey \<Rightarrow> FamilyHead option" where
  "is_any_member st member = map_of (MEMBERS st) member"

definition verify_family_join_permit ::
    "mixnet_lib \<Rightarrow> mixnet_state \<Rightarrow> FamilyHead \<Rightarrow> Addr option \<Rightarrow> IdentityKey \<Rightarrow> MessageSignature \<Rightarrow> unit mresult" where
  "verify_family_join_permit lib st granter proxy member signature =
     pbind (decode_ed25519_identity_key lib (head_identity granter)) (\<lambda>public_key.
     case bond_by_identity st (head_identity granter) of
       None \<Rightarrow> Err (FamilyDoesNotExist (head_identity granter))
     | Some head_mixnode \<Rightarrow>
         let msg = construct_family_join_permit (get_signing_nonce st (bond_owner head_mixnode)) granter proxy member in
         pbind (map_option (map_sum SignatureVerificationFailure id)
                  (verify_message lib (join_permit_to_vec lib) msg signature public_key)) (\<lambda>ok.
         if ok then Ok () else Err InvalidEd25519Signature))"

definition try_create_family_internal :: "Addr \<Rightarrow> string \<Rightarrow> Addr option \<Rightarrow> mixnet_state \<Rightarrow> mcall" where
  "try_create_family_internal owner label proxy st =
     pbind (must_get_mixnode_bond_by_owner st owner) (\<lambda>bond.
     pbind (ensure_bonded bond) (\<lambda>_.
     let family_head = FamilyHead (bond_identity bond) in
     if map_of (FAMILIES st) (bond_identity bond) \<noteq> None then Err FamilyCanHaveOnlyOne
     else if get_family_by_label label st \<noteq> None then Err (FamilyWithLabelExists label)
     else
       pbind (save_family \<lparr>fam_head = family_head, fam_proxy = proxy, fam_label = label\<rparr> st) (\<lambda>st. Ok (st, []))))"

definition try_join_family_internal :: "mixnet_lib \<Rightarrow> Addr \<Rightarrow> MessageSignature \<Rightarrow> FamilyHead \<Rightarrow> Addr option \<Rightarrow> mixnet_state \<Rightarrow> mcall" where
  "try_join_family_internal lib owner join_permit family_head proxy st =
     pbind (must_get_mixnode_bond_by_owner st owner) (\<lambda>bond.
     pbind (ensure_bonded bond) (\<lambda>_.
     if head_identity family_head = bond_identity bond
     then Err (CantJoinOwnFamily (head_identity family_head) (bond_identity bond))
     else
       (case is_any_member st (bond_identity bond) of
          Some family \<Rightarrow> Err (AlreadyMemberOfFamily (head_identity family))
        | None \<Rightarrow>
            pbind (verify_family_join_permit lib st family_head proxy (bond_identity bond) join_permit) (\<lambda>_.
            pbind (must_get_family family_head st) (\<lambda>family.
            Ok (add_family_member family (bond_identity bond) st, []))))))"

definition try_leave_family_internal :: "Addr \<Rightarrow> FamilyHead \<Rightarrow> mixnet_state \<Rightarrow> mcall" where
  "try_leave_family_internal owner family_head st =
     pbind (must_get_mixnode_bond_by_owner st owner) (\<lambda>bond.
     pbind (ensure_bonded bond) (\<lambda>_.
     if head_identity family_head = bond_identity bond
     then Err (CantLeaveOwnFamily (head_identity family_head) (bond_identity bond))
     else
       pbind (must_get_family family_head st) (\<lambda>family.
       if \<not> is_family_member st family (bond_identity bond)
       then Err (NotAMember (head_identity family_head) (bond_identity bond))
       else Ok (remove_family_member (bond_identity bond) st, []))))"

definition try_head_kick_member_internal :: "Addr \<Rightarrow> IdentityKey \<Rightarrow> mixnet_state \<Rightarrow> mcall" where
  "try_head_kick_member_internal owner member st =
     pbind (must_get_mixnode_bond_by_owner st owner) (\<lambda>head_bond.
     pbind (ensure_bonded head_bond) (\<lambda>_.
     if member = bond_identity head_bond then Err (CantLeaveOwnFamily (bond_identity head_bond) member)
     else
       pbind (must_get_family (FamilyHead (bond_identity head_bond)) st) (\<lambda>family.
       if \<not> is_family_member st family member then Err (NotAMember (bond_identity head_bond) member)
       else Ok (remove_family_member member st, []))))"

section \<open>Settings\<close>

definition try_update_rewarding_validator_address :: "mixnet_lib \<Rightarrow> MessageInfo \<Rightarrow> string \<Rightarrow> mixnet_state \<Rightarrow> mcall" where
  "try_update_rewarding_validator_address lib info address st =
     (if sender info \<noteq> cs_owner (CONTRACT_STATE st) then Err Unauthorized
      else
        pbind (std (addr_validate lib address)) (\<lambda>new_address.
        Ok (st\<lparr>CONTRACT_STATE := (CONTRACT_STATE st)\<lparr>rewarding_validator_address := new_address\<rparr>\<rparr>, [])))"

definition try_update_contract_settings :: "MessageInfo \<Rightarrow> ContractStateParams \<Rightarrow> mixnet_state \<Rightarrow> mcall" where
  "try_update_contract_settings info params st =
     (if sender info \<noteq> cs_owner (CONTRACT_STATE st) then Err Unauthorized
      else Ok (st\<lparr>CONTRACT_STATE := (CONTRACT_STATE st)\<lparr>cs_params := params\<rparr>\<rparr>, []))"

section \<open>Entry points\<close>

definition INITIAL_GATEWAY_PLEDGE_AMOUNT :: nat where "INITIAL_GATEWAY_PLEDGE_AMOUNT = 100000000"
definition INITIAL_MIXNODE_PLEDGE_AMOUNT :: nat where "INITIAL_MIXNODE_PLEDGE_AMOUNT = 100000000"

definition default_initial_state :: "Addr \<Rightarrow> Addr \<Rightarrow> string \<Rightarrow> Addr \<Rightarrow> ContractState" where
  "default_initial_state owner validator d vesting =
     \<lparr>cs_owner = owner, rewarding_validator_address = validator, vesting_contract_address = vesting, rewarding_denom = d,
      cs_params = \<lparr>minimum_mixnode_delegation = None,
                   minimum_mixnode_pledge = \<lparr>denom = d, amount = INITIAL_MIXNODE_PLEDGE_AMOUNT\<rparr>,
                   minimum_gateway_pledge = \<lparr>denom = d, amount = INITIAL_GATEWAY_PLEDGE_AMOUNT\<rparr>\<rparr>\<rparr>"

record InstantiateMsg =
  ini_rewarding_validator_address :: string
  ini_vesting_contract_address :: string
  ini_rewarding_denom :: string
  ini_epochs_in_interval :: nat
  ini_epoch_duration :: nat
  initial_rewarding_params :: InitialRewardingParams

text \<open>The state of a fresh contract: the saved items, and empty maps.\<close>

definition initial_mixnet_state :: "ContractState \<Rightarrow> RewardingParams \<Rightarrow> Interval \<Rightarrow> Addr \<Rightarrow> mixnet_state" where
  "initial_mixnet_state state params interval validator =
     \<lparr>CONTRACT_STATE = state, LAYERS = layer_distribution_default, MIXNODE_ID_COUNTER = None, MIXNODE_BONDS = [],
      UNBONDED_MIXNODES = [], PENDING_MIXNODE_CHANGES = Map.empty, GATEWAYS = [], MIX_DELEGATIONS = [],
      MIXNODE_REWARDING = [], REWARDING_PARAMS = params, PENDING_REWARD_POOL_CHANGE = \<lparr>removed = 0, added = 0\<rparr>,
      CURRENT_EPOCH_STATUS = epoch_status_new validator, CURRENT_INTERVAL = interval, REWARDED_SET = [],
      EPOCH_EVENT_ID_COUNTER = 0, INTERVAL_EVENT_ID_COUNTER = 0, LAST_PROCESSED_EPOCH_EVENT = 0,
      LAST_PROCESSED_INTERVAL_EVENT = 0, PENDING_EPOCH_EVENTS = [], PENDING_INTERVAL_EVENTS = [], NONCES = Map.empty,
      FAMILIES = [], MEMBERS = []\<rparr>"

definition mixnet_instantiate :: "mixnet_lib \<Rightarrow> Env \<Rightarrow> MessageInfo \<Rightarrow> InstantiateMsg \<Rightarrow> mixnet_state mresult" where
  "mixnet_instantiate lib env info msg =
     (if ini_epochs_in_interval msg = 0 then Err EpochsInIntervalZero
      else if duration_as_secs (ini_epoch_duration msg) = 0 then Err EpochDurationZero
      else
        pbind (std (addr_validate lib (ini_rewarding_validator_address msg))) (\<lambda>validator.
        pbind (std (addr_validate lib (ini_vesting_contract_address msg))) (\<lambda>vesting.
        let state = default_initial_state (sender info) validator (ini_rewarding_denom msg) vesting in
        pbind (panicking (init_interval lib (ini_epochs_in_interval msg) (ini_epoch_duration msg) env)) (\<lambda>interval.
        pbind (into_rewarding_params lib (initial_rewarding_params msg) (ini_epochs_in_interval msg)) (\<lambda>params.
        Ok (initial_mixnet_state state params interval validator))))))"

text \<open>
  The messages, apart from those on behalf of an owner, which only the vesting contract may send.
\<close>

datatype MixExecuteMsg =
    OnBehalf MixnetExecuteMsg
  | AssignNodeLayer MixId Layer
  | CreateFamily string
  | JoinFamily MessageSignature FamilyHead
  | LeaveFamily FamilyHead
  | KickFamilyMember IdentityKey
  | UpdateRewardingValidatorAddress string
  | UpdateContractStateParams ContractStateParams
  | UpdateActiveSetSize nat bool
  | UpdateRewardingParams IntervalRewardingParamsUpdate bool
  | UpdateIntervalConfig nat nat bool
  | BeginEpochTransition
  | AdvanceCurrentEpoch "(MixId \<times> Layer) list" nat
  | ReconcileEpochEvents "nat option"
  | BondMixnode MixNode MixNodeCostParams MessageSignature
  | PledgeMore
  | DecreasePledge Coin
  | UnbondMixnode
  | UpdateMixnodeCostParams MixNodeCostParams
  | UpdateMixnodeConfig MixNodeConfigUpdate
  | BondGateway Gateway MessageSignature
  | UnbondGateway
  | UpdateGatewayConfig GatewayConfigUpdate
  | DelegateToMixnode MixId
  | UndelegateFromMixnode MixId
  | RewardMixnode MixId Percent
  | WithdrawOperatorReward
  | WithdrawDelegatorReward MixId

text \<open>The \<open>_on_behalf\<close> handlers: the sender must be the vesting contract and becomes the proxy.\<close>

definition on_behalf :: "mixnet_lib \<Rightarrow> MessageInfo \<Rightarrow> string \<Rightarrow> (Addr \<Rightarrow> Addr option \<Rightarrow> mixnet_state \<Rightarrow> mcall) \<Rightarrow> mixnet_state \<Rightarrow> mcall" where
  "on_behalf lib info owner handler st =
     pbind (ensure_sent_by_vesting_contract info st) (\<lambda>_.
     pbind (std (addr_validate lib owner)) (\<lambda>owner. handler owner (Some (sender info)) st))"

fun execute_on_behalf :: "mixnet_lib \<Rightarrow> Env \<Rightarrow> MessageInfo \<Rightarrow> MixnetExecuteMsg \<Rightarrow> mixnet_state \<Rightarrow> mcall" where
  "execute_on_behalf lib env info (CreateFamilyOnBehalf owner label) st =
     on_behalf lib info owner (\<lambda>o' p. try_create_family_internal o' label p) st"
| "execute_on_behalf lib env info (JoinFamilyOnBehalf member join_permit family_head) st =
     on_behalf lib info member (\<lambda>o' p. try_join_family_internal lib o' join_permit family_head p) st"
| "execute_on_behalf lib env info (LeaveFamilyOnBehalf member family_head) st =
     on_behalf lib info member (\<lambda>o' p. try_leave_family_internal o' family_head) st"
| "execute_on_behalf lib env info (KickFamilyMemberOnBehalf head member) st =
     on_behalf lib info head (\<lambda>o' p. try_head_kick_member_internal o' member) st"
| "execute_on_behalf lib env info (BondMixnodeOnBehalf mix_node costs signature owner) st =
     on_behalf lib info owner (\<lambda>o' p. try_add_mixnode_internal lib env mix_node costs (funds info) o' signature p) st"
| "execute_on_behalf lib env info (PledgeMoreOnBehalf owner) st =
     on_behalf lib info owner (\<lambda>o' p. try_increase_pledge_internal env (funds info) o' p) st"
| "execute_on_behalf lib env info (DecreasePledgeOnBehalf owner decrease_by) st =
     on_behalf lib info owner (\<lambda>o' p. try_decrease_pledge_internal env decrease_by o' p) st"
| "execute_on_behalf lib env info (UnbondMixnodeOnBehalf owner) st =
     on_behalf lib info owner (\<lambda>o' p. try_remove_mixnode_internal env o' p) st"
| "execute_on_behalf lib env info (UpdateMixnodeCostParamsOnBehalf new_costs owner) st =
     on_behalf lib info owner (\<lambda>o' p. try_update_mixnode_cost_params_internal env new_costs o' p) st"
| "execute_on_behalf lib env info (UpdateMixnodeConfigOnBehalf new_config owner) st =
     on_behalf lib info owner (\<lambda>o' p. try_update_mixnode_config_internal new_config o' p) st"
| "execute_on_behalf lib env info (BondGatewayOnBehalf gateway owner signature) st =
     on_behalf lib info owner (\<lambda>o' p. try_add_gateway_internal lib env gateway (funds info) o' signature p) st"
| "execute_on_behalf lib env info (UnbondGatewayOnBehalf owner) st =
     on_behalf lib info owner (\<lambda>o' p. try_remove_gateway_internal o' p) st"
| "execute_on_behalf lib env info (UpdateGatewayConfigOnBehalf new_config owner) st =
     on_behalf lib info owner (\<lambda>o' p. try_update_gateway_config_internal new_config o' p) st"
| "execute_on_behalf lib env info (DelegateToMixnodeOnBehalf mix_id delegate) st =
     on_behalf lib info delegate (\<lambda>o' p. try_delegate_to_mixnode_internal env mix_id o' (funds info) p) st"
| "execute_on_behalf lib env info (UndelegateFromMixnodeOnBehalf mix_id delegate) st =
     on_behalf lib info delegate (\<lambda>o' p. try_remove_delegation_from_mixnode_internal lib env mix_id o' p) st"
| "execute_on_behalf lib env info (WithdrawOperatorRewardOnBehalf owner) st =
     on_behalf lib info owner (\<lambda>o' p. try_withdraw_operator_reward_internal lib o' p) st"
| "execute_on_behalf lib env info (WithdrawDelegatorRewardOnBehalf mix_id owner) st =
     on_behalf lib info owner (\<lambda>o' p. try_withdraw_delegator_reward_internal lib mix_id o' p) st"

fun mixnet_execute :: "mixnet_lib \<Rightarrow> Env \<Rightarrow> MessageInfo \<Rightarrow> MixExecuteMsg \<Rightarrow> mixnet_state \<Rightarrow> mcall" where
  "mixnet_execute lib env info (OnBehalf msg) st = execute_on_behalf lib env info msg st"
| "mixnet_execute lib env info (AssignNodeLayer mix_id layer) st = assign_mixnode_layer info mix_id layer st"
| "mixnet_execute lib env info (CreateFamily label) st = try_create_family_internal (sender info) label None st"
| "mixnet_execute lib env info (JoinFamily join_permit family_head) st =
     try_join_family_internal lib (sender info) join_permit family_head None st"
| "mixnet_execute lib env info (LeaveFamily family_head) st = try_leave_family_internal (sender info) family_head st"
| "mixnet_execute lib env info (KickFamilyMember member) st = try_head_kick_member_internal (sender info) member st"
| "mixnet_execute lib env info (UpdateRewardingValidatorAddress address) st =
     try_update_rewarding_validator_address lib info address st"
| "mixnet_execute lib env info (UpdateContractStateParams params) st = try_update_contract_settings info params st"
| "mixnet_execute lib env info (UpdateActiveSetSize n force_immediately) st =
     try_update_active_set_size lib env info n force_immediately st"
| "mixnet_execute lib env info (UpdateRewardingParams updated_params force_immediately) st =
     try_update_rewarding_params lib env info updated_params force_immediately st"
| "mixnet_execute lib env info (UpdateIntervalConfig epochs secs force_immediately) st =
     try_update_interval_config lib env info epochs secs force_immediately st"
| "mixnet_execute lib env info BeginEpochTransition st = try_begin_epoch_transition lib env info st"
| "mixnet_execute lib env info (AdvanceCurrentEpoch new_rewarded_set expected) st =
     try_advance_epoch lib env info new_rewarded_set expected st"
| "mixnet_execute lib env info (ReconcileEpochEvents limit) st = try_reconcile_epoch_events lib env info limit st"
| "mixnet_execute lib env info (BondMixnode mix_node costs signature) st =
     try_add_mixnode_internal lib env mix_node costs (funds info) (sender info) signature None st"
| "mixnet_execute lib env info PledgeMore st = try_increase_pledge_internal env (funds info) (sender info) None st"
| "mixnet_execute lib env info (DecreasePledge decrease_by) st =
     try_decrease_pledge_internal env decrease_by (sender info) None st"
| "mixnet_execute lib env info UnbondMixnode st = try_remove_mixnode_internal env (sender info) None st"
| "mixnet_execute lib env info (UpdateMixnodeCostParams new_costs) st =
     try_update_mixnode_cost_params_internal env new_costs (sender info) None st"
| "mixnet_execute lib env info (UpdateMixnodeConfig new_config) st =
     try_update_mixnode_config_internal new_config (sender info) None st"
| "mixnet_execute lib env info (BondGateway gateway signature) st =
     try_add_gateway_internal lib env gateway (funds info) (sender info) signature None st"
| "mixnet_execute lib env info UnbondGateway st = try_remove_gateway_internal (sender info) None st"
| "mixnet_execute lib env info (UpdateGatewayConfig new_config) st =
     try_update_gateway_config_internal new_config (sender info) None st"
| "mixnet_execute lib env info (DelegateToMixnode mix_id) st =
     try_delegate_to_mixnode_internal env mix_id (sender info) (funds info) None st"
| "mixnet_execute lib env info (UndelegateFromMixnode mix_id) st =
     try_remove_delegation_from_mixnode_internal lib env mix_id (sender info) None st"
| "mixnet_execute lib env info (RewardMixnode mix_id node_performance) st =
     try_reward_mixnode lib env info mix_id node_performance st"
| "mixnet_execute lib env info WithdrawOperatorReward st = try_withdraw_operator_reward_internal lib (sender info) None st"
| "mixnet_execute lib env info (WithdrawDelegatorReward mix_id) st =
     try_withdraw_delegator_reward_internal lib mix_id (sender info) None st"

end
