(* ===== verification/Contract_Interaction.thy ===== *)
theory Contract_Interaction
  imports Vesting_Safety Mixnet_Contract
begin

text \<open>
  The messages that the mixnet contract sends to the vesting contract: that the coins they report are
  sent along with them, and what happens when they report less than was staked.
\<close>

section \<open>Coins that are announced are sent\<close>

text \<open>The coin that a tracking message reports as returned.\<close>

fun tracked_coin :: "ExecuteMsg \<Rightarrow> Coin option" where
  "tracked_coin (TrackReward a _) = Some a"
| "tracked_coin (TrackUndelegation _ _ a) = Some a"
| "tracked_coin (TrackUnbondMixnode _ a) = Some a"
| "tracked_coin (TrackDecreasePledge _ a) = Some a"
| "tracked_coin (TrackUnbondGateway _ a) = Some a"
| "tracked_coin _ = None"

text \<open>
  Every message to a vesting contract is a tracking message without funds that follows directly on the
  transfer of exactly the reported coin to the same contract.
\<close>

fun announced_sent :: "MixCosmosMsg list \<Rightarrow> bool" where
  "announced_sent [] \<longleftrightarrow> True"
| "announced_sent (MixBankSend a cs # VestingExecute v m fs # ms) \<longleftrightarrow>
     a = v \<and> fs = [] \<and> tracked_coin m \<noteq> None \<and> cs = [the (tracked_coin m)] \<and> announced_sent ms"
| "announced_sent (MixBankSend a cs # ms) \<longleftrightarrow> announced_sent ms"
| "announced_sent (VestingExecute v m fs # ms) \<longleftrightarrow> False"

text \<open>The coins of one denomination that are reported and sent to a contract.\<close>

fun announced_to :: "Addr \<Rightarrow> string \<Rightarrow> MixCosmosMsg list \<Rightarrow> nat" where
  "announced_to v d [] = 0"
| "announced_to v d (VestingExecute a m _ # ms) =
     (case tracked_coin m of Some c \<Rightarrow> if a = v \<and> denom c = d then amount c else 0 | None \<Rightarrow> 0) + announced_to v d ms"
| "announced_to v d (MixBankSend _ _ # ms) = announced_to v d ms"

fun sent_to :: "Addr \<Rightarrow> string \<Rightarrow> MixCosmosMsg list \<Rightarrow> nat" where
  "sent_to v d [] = 0"
| "sent_to v d (VestingExecute _ _ _ # ms) = sent_to v d ms"
| "sent_to v d (MixBankSend a cs # ms) = (if a = v then coins_in d cs else 0) + sent_to v d ms"

lemma announced_sent_total: "announced_sent ms \<Longrightarrow> announced_to v d ms \<le> sent_to v d ms"
  by (induction ms rule: announced_sent.induct) (auto simp: coins_in_def split: option.splits)

lemma announced_sent_send: "announced_sent ms \<Longrightarrow> announced_sent (MixBankSend a cs # ms)"
  by (cases ms rule: announced_sent.cases) auto

lemma announced_sent_append: "announced_sent xs \<Longrightarrow> announced_sent ys \<Longrightarrow> announced_sent (xs @ ys)"
  by (induction xs rule: announced_sent.induct) (auto intro: announced_sent_send)

definition sends_announced :: "mcall \<Rightarrow> bool" where
  "sends_announced r \<longleftrightarrow> (\<forall>st ms. r = Ok (st, ms) \<longrightarrow> announced_sent ms)"

lemma sends_announced_pbind: "(\<And>x. f = Ok x \<Longrightarrow> sends_announced (g x)) \<Longrightarrow> sends_announced (pbind f g)"
  by (auto simp: sends_announced_def pbind_eq_Inr)

lemma sends_announced_simps [simp]:
  "sends_announced (Err e)" "sends_announced (Ok (st, [])) " "sends_announced (Ok (st, ms)) \<longleftrightarrow> announced_sent ms"
  by (simp_all add: sends_announced_def)

lemmas track_defs = maybe_add_track_vesting_undelegation_message_def maybe_add_track_vesting_unbond_mixnode_message_def
  maybe_add_track_vesting_decrease_mixnode_pledge_def send_to_proxy_or_owner_def

lemma track_messages_announced:
  "maybe_add_track_vesting_undelegation_message st p o' m a [send_to_proxy_or_owner p o' [a]] = Ok ms \<Longrightarrow> announced_sent ms"
  "maybe_add_track_vesting_unbond_mixnode_message st p o' a [send_to_proxy_or_owner p o' [a]] = Ok ms \<Longrightarrow> announced_sent ms"
  "maybe_add_track_vesting_decrease_mixnode_pledge st p o' a [send_to_proxy_or_owner p o' [a]] = Ok ms \<Longrightarrow> announced_sent ms"
  "announced_sent (reward_messages p o' a st)"
  by (auto simp: track_defs reward_messages_def pbind_eq_Inr split: option.splits)

lemma sends_announced_if: "sends_announced x \<Longrightarrow> sends_announced y \<Longrightarrow> sends_announced (if b then x else y)"
  by simp

lemma sends_announced_option:
  "sends_announced x \<Longrightarrow> (\<And>z. o' = Some z \<Longrightarrow> sends_announced (f z)) \<Longrightarrow>
    sends_announced (case o' of None \<Rightarrow> x | Some z \<Rightarrow> f z)"
  by (simp split: option.splits)

lemma sends_announced_prod: "(\<And>x y. p = (x, y) \<Longrightarrow> sends_announced (f x y)) \<Longrightarrow> sends_announced (case p of (x, y) \<Rightarrow> f x y)"
  by (simp split: prod.splits)

lemmas sends_announced_intros = sends_announced_pbind sends_announced_if sends_announced_option sends_announced_prod

lemma epoch_event_announced: "sends_announced (execute_epoch_event lib env e st)"
  by (cases e; simp only: execute_epoch_event.simps execute_delegate_def execute_undelegate_def execute_increase_pledge_def
      execute_decrease_pledge_def execute_unbond_mixnode_def execute_update_active_set_size_def Let_def)
    (intro sends_announced_intros; simp add: track_messages_announced)+

lemma interval_event_announced: "sends_announced (execute_interval_event lib e st)"
  by (cases e; simp only: execute_interval_event.simps change_mix_cost_params_def update_rewarding_params_def
      update_interval_config_def change_interval_config_def Let_def)
    (intro sends_announced_intros; simp)+

lemma sends_announcedD: "sends_announced r \<Longrightarrow> r = Ok (st, ms) \<Longrightarrow> announced_sent ms"
  by (simp add: sends_announced_def)

lemma epoch_events_announced:
  "epoch_events_loop lib env ids st ms = Ok (st', ms') \<Longrightarrow> announced_sent ms \<Longrightarrow> announced_sent ms'"
proof (induction ids arbitrary: st ms)
  case (Cons i ids)
  then show ?case
    by (auto simp: pbind_eq_Inr split: option.splits) (meson Cons.IH announced_sent_append sends_announcedD [OF epoch_event_announced])
qed simp

lemma interval_events_announced:
  "interval_events_loop lib ids st ms = Ok (st', ms') \<Longrightarrow> announced_sent ms \<Longrightarrow> announced_sent ms'"
proof (induction ids arbitrary: st ms)
  case (Cons i ids)
  then show ?case
    by (auto simp: pbind_eq_Inr split: option.splits) (meson Cons.IH announced_sent_append sends_announcedD [OF interval_event_announced])
qed simp

lemma pending_actions_announced:
  "perform_pending_epoch_actions lib env limit st = Ok (st', ms, n) \<Longrightarrow> announced_sent ms"
  "perform_pending_interval_actions lib limit st = Ok (st', ms, n) \<Longrightarrow> announced_sent ms"
  by (auto simp: perform_pending_epoch_actions_def perform_pending_interval_actions_def Let_def pbind_eq_Inr split: if_splits
      dest: epoch_events_announced interval_events_announced)

lemma reconcile_announced: "sends_announced (try_reconcile_epoch_events lib env info limit st)"
  unfolding try_reconcile_epoch_events_def epoch_in_progress_def Let_def
  by (intro sends_announced_intros)
    (auto dest: pending_actions_announced intro!: announced_sent_append split: if_splits)

lemmas mixnet_tx_defs = assign_mixnode_layer_def try_begin_epoch_transition_def try_create_family_internal_def
  try_head_kick_member_internal_def try_increase_pledge_internal_def try_leave_family_internal_def
  try_remove_gateway_internal_def try_remove_mixnode_internal_def try_update_contract_settings_def
  try_withdraw_operator_reward_internal_def try_add_gateway_internal_def try_add_mixnode_internal_def try_advance_epoch_def
  try_decrease_pledge_internal_def try_delegate_to_mixnode_internal_def try_join_family_internal_def
  try_remove_delegation_from_mixnode_internal_def try_reward_mixnode_def try_update_active_set_size_def
  try_update_gateway_config_internal_def try_update_interval_config_def try_update_mixnode_config_internal_def
  try_update_mixnode_cost_params_internal_def try_update_rewarding_params_def
  try_update_rewarding_validator_address_def try_withdraw_delegator_reward_internal_def
  change_interval_config_def epoch_in_progress_def

lemma on_behalf_announced: "sends_announced (execute_on_behalf lib env info msg st)"
  by (cases msg; simp only: execute_on_behalf.simps on_behalf_def mixnet_tx_defs Let_def)
    (intro sends_announced_intros; simp add: track_messages_announced send_to_proxy_or_owner_def split: option.splits)+

text \<open>
  Whatever message of the mixnet contract succeeds, it sends the vesting contract at least the coins
  that it reports as returned. This is what \<^const>\<open>bank_after\<close> counts on.
\<close>

lemma mixnet_announced: "sends_announced (mixnet_execute lib env info msg st)"
  by (cases msg; simp only: mixnet_execute.simps mixnet_tx_defs Let_def)
    (rule on_behalf_announced | rule reconcile_announced
     | intro sends_announced_intros; simp add: track_messages_announced send_to_proxy_or_owner_def split: option.splits)+

lemma mixnet_sends_announced:
  assumes "mixnet_execute lib env info msg st = Ok (st', ms)"
  shows "announced_sent ms" "announced_to v d ms \<le> sent_to v d ms"
  using sends_announcedD [OF mixnet_announced assms] announced_sent_total by blast+

section \<open>A delegation on a node that is unbonding\<close>

lemma execute_delegate_unbonding:
  assumes "get_mixnode_details_by_id mst mix_id = Ok details"
    and "\<And>bond. map_of (MIXNODE_BONDS mst) mix_id = Some bond \<Longrightarrow> is_unbonding bond"
  shows "execute_delegate lib env owner mix_id a (Some (vesting_contract_of mst)) mst
    = Ok (mst, [MixBankSend (vesting_contract_of mst) [a],
                VestingExecute (vesting_contract_of mst) (TrackUndelegation owner mix_id a) []])"
proof -
  have "details = Some d \<Longrightarrow> is_unbonding (bond_information d)" for d
    using assms
    by (auto simp: get_mixnode_details_by_id_def attach_mix_details_def pbind_eq_Inr split: option.splits)
  then have "(case details of
      Some d \<Rightarrow> if still_bonded (rewarding_details d) \<and> \<not> is_unbonding (bond_information d) then Some d else None
    | None \<Rightarrow> None) = None"
    by (simp split: option.splits)
  then show ?thesis
    using assms(1)
    by (simp add: execute_delegate_def maybe_add_track_vesting_undelegation_message_def ensure_vesting_proxy_def
        send_to_proxy_or_owner_def)
qed

lemma delegation_refused_unbonding:
  assumes "\<And>bond. map_of (MIXNODE_BONDS mst) mix_id = Some bond \<Longrightarrow> is_unbonding bond"
  shows "execute_on_behalf lib env info (DelegateToMixnodeOnBehalf mix_id delegate) mst \<noteq> Ok r"
  using assms
  by (auto simp: on_behalf_def try_delegate_to_mixnode_internal_def pbind_eq_Inr split: option.splits)

lemma track_undelegation_forgets:
  assumes "account_from_address api owner vst = Ok acc" "MIXNET_CONTRACT_ADDRESS vst = Some (sender info)"
    and "load_balance (acc_storage_key acc) vst + amount a \<le> u128_max"
  shows "\<exists>vst'. execute api t info (TrackUndelegation owner mix_id a) vst = Ok (vst', [])
    \<and> load_balance (acc_storage_key acc) vst' = load_balance (acc_storage_key acc) vst + amount a
    \<and> delegated_where (of_mix (acc_storage_key acc) mix_id) vst' = 0
    \<and> \<not> any_delegation_for_mix acc mix_id vst'"
proof -
  let ?k = "acc_storage_key acc" and ?r = "remove_delegations_for_mix acc mix_id vst"
  let ?vst = "save_balance ?k (load_balance ?k vst + amount a) ?r"
  have r: "load_balance ?k ?r = load_balance ?k vst"
    "DELEGATIONS ?vst = filter (\<lambda>e. \<not> of_mix ?k mix_id (fst e)) (DELEGATIONS vst)"
    by (simp_all add: remove_delegations_for_mix_eq load_balance_def save_balance_def)
  have "ensure_mixnet info vst = Ok ()" using assms(2) ensure_mixnet_Ok [of info vst "()"] by simp
  moreover have "credit acc (amount a) ?r = Some ?vst" using assms(3) r(1) by (simp add: credit_def uint128_add_def)
  ultimately have "execute api t info (TrackUndelegation owner mix_id a) vst = Ok (?vst, [])"
    using assms(1) by (simp add: try_track_undelegation_def track_undelegation_def)
  moreover have "load_balance ?k ?vst = load_balance ?k vst + amount a" by (simp add: load_balance_def save_balance_def)
  moreover have "filter (\<lambda>e. of_mix ?k mix_id (fst e)) (DELEGATIONS ?vst) = []" using r(2) by (auto simp: filter_empty_conv)
  then have "delegated_where (of_mix ?k mix_id) ?vst = 0" by (simp only: delegated_where_def list.map sum_list.Nil)
  moreover have "\<not> any_delegation_for_mix acc mix_id ?vst"
    unfolding any_delegation_for_mix_def load_delegation_timestamps_def using r(2)
    by (auto simp: filter_empty_conv)
  ultimately show ?thesis by blast
qed

lemma undelegation_refused:
  assumes "\<not> any_delegation_for_mix acc mix_id vst" "staking_account api on_behalf_of info vst = Ok acc"
  shows "execute api t info (ExecuteMsg.UndelegateFromMixnode mix_id on_behalf_of) vst = Err (NoSuchDelegation (acc_owner_address acc) mix_id)"
  using assms by (simp add: try_undelegate_from_mixnode_def account_undelegate_from_mixnode_def)

end
