(* ===== verification/Spec2Isabelle.thy ===== *)
theory Spec2Isabelle
  imports Reconstruction Framing Socks5_Delivery Contract_Interaction
begin

text \<open>
  A verification of parts of the Nym repository: the packet formats of the mixnet, the division of
  messages into fragments and their reassembly, the byte streams of SOCKS5 connections, and the two
  smart contracts that hold the staked coins. Paths are relative to \<open>src/\<close>.

  \<^bold>\<open>How the parts interact.\<close> A client cuts a message into sets of fragments (\<open>common/nymsphinx/chunking\<close>),
  puts every fragment into a Sphinx or Outfox packet (\<open>nym-outfox\<close>, \<open>common/nymsphinx/params\<close>,
  \<open>common/nymsphinx/types\<close>) for a recipient (\<open>common/nymsphinx/addressing\<close>) and sends it in a frame
  (\<open>common/nymsphinx/framing\<close>, \<open>forwarding\<close>); the receiver reassembles the fragments. SOCKS5 connections
  are numbered messages on top of this (\<open>common/socks5\<close>, \<open>service-providers/common\<close>). Operators and
  delegators stake coins in the mixnet contract (\<open>contracts/mixnet\<close>), on their own account or on behalf
  of accounts of the vesting contract (\<open>contracts/vesting\<close>), which the mixnet contract tells when it
  returns coins.

  \<^bold>\<open>Conventions.\<close> A result of type \<open>'a option\<close> is \<^const>\<open>None\<close> for a panic or a call that never
  returns; a \<open>Result\<close> of the code is a sum with the error on the left; code that does both has a result of
  type \<open>('e + 'a) option\<close>, with \<open>Ok\<close> and \<open>Err\<close> for its two kinds of answers. Bytes and identifiers
  are words; lengths, amounts and times are natural numbers with their overflow checks written out.
  Storage maps are association lists in which a key is saved and removed as the storage does it; storage items that
  \<open>instantiate\<close> always writes are plain fields of the state. Code outside the repository (\<open>sphinx_packet\<close>, the ciphers and
  hashes, curves, base58, bincode, serde, \<open>cosmwasm_std\<close>, \<open>time\<close>) is an argument, mostly a record of functions; what
  a theorem needs of it is a hypothesis with a name (\<open>sphinx_ok\<close>, \<open>bincode_ok\<close>, \<open>decimals_ok\<close>), and its
  witness gives an instance.

  \<^bold>\<open>Theories.\<close>
  \<^item> \<open>Rust_Base\<close>: what is used of Rust and its standard library, and the shared lemmas. \<open>Utf8\<close>: strings.
    \<open>Codec\<close>: the contracts of encodings as locales (\<open>wire_codec\<close>, \<open>prefix_codec\<close>, \<open>fixed_codec\<close>,
    \<open>stream_codec\<close>), interpreted on the encoders and decoders of the components.
  \<^item> \<open>Fragment\<close> (\<open>chunking/src/fragment.rs\<close>), \<open>Fragment_Sets\<close> (\<open>set.rs\<close>, \<open>lib.rs\<close>), \<open>Splitting\<close>: headers and
    fragments, their exact wire format, the split of a message and its closed form, the prediction of the
    number of fragments, and what becomes of links between sets on the wire.
  \<^item> \<open>Reconstruction\<close> (\<open>reconstruction.rs\<close>): the buffers, the checks along the links and the reassembly. The locale
    \<open>chunker\<close> is what reassembly needs of a split; it is interpreted on \<open>split_with_set_ids\<close>. Reassembly
    works in any order; ill-linked fragments make it panic or recurse forever.
  \<^item> \<open>Outfox\<close> (\<open>nym-outfox\<close>): the lion transform, the layers of a packet, building, processing and parsing. A packet
    goes through its four nodes to the last one; which malformed packets panic.
  \<^item> \<open>Packet_Params\<close> (\<open>nymsphinx/params\<close>), \<open>Addressing\<close> (\<open>nymsphinx/addressing\<close>), \<open>Framing\<close> (\<open>nymsphinx/types\<close>, \<open>framing\<close>,
    \<open>forwarding\<close>): sizes and tags, addresses and recipients as bytes and text, frames on a connection. The codec
    delivers every sequence of proper frames, however it is cut into chunks.
  \<^item> \<open>Service_Provider\<close> (\<open>service-providers/common\<close>), \<open>Socks5_Requests\<close> (\<open>common/socks5/requests\<close>): requests and responses
    in all versions, with the locale \<open>roundtrip\<close> for their layers; exactly which of them are read back.
  \<^item> \<open>Socks5_Stream\<close> (\<open>common/socks5/ordered-buffer\<close>, \<open>proxy-helpers\<close>), \<open>Socks5_Delivery\<close>: the sender, the ordered
    buffer, the connection controller and the writer as functions of the events they select. What arrives
    is a prefix of what was sent, and all of it when no piece is lost or too far ahead.
  \<^item> \<open>Cosmwasm\<close>: results, amounts, coins, percentages, and storage maps as the locales \<open>kv_store\<close> and \<open>ledger\<close>.
  \<^item> \<open>Vesting_Account\<close>, \<open>Vesting_Contract\<close>, \<open>Vesting_Queries\<close> (\<open>contracts/vesting\<close>,
    \<open>vesting-contract\<close>): one definition per message, query and method of an account. \<open>Vesting_Schedule\<close>: the
    vested amount in closed form. \<open>Vesting_Ledger\<close>: an abstract book of free, staked and paid amounts that the
    contract refines. \<open>Vesting_Safety\<close>: runs of the contract as inductive predicates, the invariant of the storage,
    solvency, unvested grants, authorisation, paging. Nothing is assumed of the amounts that the
    mixnet contract reports; \<open>staking_run\<close> counts what it keeps.
  \<^item> \<open>Mixnet_Types\<close>, \<open>Mixnet_Rewarding\<close> (\<open>mixnet-contract/src\<close>), \<open>Mixnet_Storage\<close>, \<open>Mixnet_Contract\<close>
    (\<open>contracts/mixnet\<close>): data, the rewarding of a node with every rounding, the storage and guards, the pending
    events, and one definition per message of the contract. The rewards of an epoch stay within its budget; splitting,
    withdrawing and undelegating conserve the stake of a node up to rounding in its favour.
  \<^item> \<open>Contract_Interaction\<close>: the messages from the mixnet contract to the vesting contract. Every coin that they
    report is sent along with them (\<open>mixnet_sends_announced\<close>), which the solvency of the vesting contract counts on.
    This theory: a property of both contracts together, a stake that is stranded between them.

  \<^bold>\<open>Bounds and fuel.\<close> Loops over data are structural recursions. \<open>check_front_chain\<close>, \<open>check_back_chain\<close>,
  \<open>find_starting_set_id\<close>, \<open>set_id_successors\<close>, \<open>generate_set_id\<close> and \<open>drain\<close> may run forever and are
  partial functions; for split messages they are shown to return, and for cyclic links
  \<open>front_chain_steps\<close>, which counts calls and tells running on from a panic, is shown never to
  end. \<open>follow_pages\<close> has one request more than there are accounts, which is shown to be enough.

  \<^bold>\<open>Not modelled.\<close> Preparation and reception of messages, reply SURBs, acknowledgements, cover traffic and
  routing are compositions of calls to \<open>sphinx_packet\<close> with random keys and delays. Clients, mixnode, gateway,
  \<open>nym-api\<close>, explorers, wallets, service-provider processes, SDKs, tools and Ephemera are
  input and output, timers and concurrency around the modelled code. Coconut credentials and key generation are
  pairing-based cryptography of a library. The multisig and group contracts rest on the voting library of cw-plus.
  The contracts for Coconut, names, provider directory and Ephemera, exit policies and the topology do not
  interact with the modelled parts and are left out. Of the modelled contracts, events, \<open>migrate\<close>, serialisation
  and the queries of the mixnet contract are left out.
\<close>

section \<open>The contracts together\<close>

text \<open>
  C40. A stake stranded between the contracts. When a pending delegation of the vesting contract is
  executed on a node that is unbonding or gone, the mixnet contract changes nothing in its own
  storage: it sends the new amount back and reports an undelegation of that amount. The vesting contract
  adds the amount to the balance and forgets all delegations of the account to that node, earlier ones
  included. In the state that results, it refuses to undelegate from that node, for the owner and for
  whoever stakes on their behalf, and the mixnet contract refuses every new delegation on the node
  from the vesting contract: neither message reaches the earlier stake that the mixnet contract still
  holds.
\<close>

theorem delegation_stranded_by_unbonding:
  assumes "get_mixnode_details_by_id mst mix_id = Ok details"
    and "\<And>bond. map_of (MIXNODE_BONDS mst) mix_id = Some bond \<Longrightarrow> is_unbonding bond"
    and "account_from_address api owner vst = Ok acc" "MIXNET_CONTRACT_ADDRESS vst = Some mixnet"
    and "load_balance (acc_storage_key acc) vst + amount a \<le> u128_max"
  shows "\<exists>vst'.
      execute_epoch_event lib env (EvDelegate owner mix_id a (Some (vesting_contract_of mst))) mst
        = Ok (mst, [MixBankSend (vesting_contract_of mst) [a],
                    VestingExecute (vesting_contract_of mst) (TrackUndelegation owner mix_id a) []])
    \<and> execute api t \<lparr>sender = mixnet, funds = []\<rparr> (TrackUndelegation owner mix_id a) vst = Ok (vst', [])
    \<and> load_balance (acc_storage_key acc) vst' = load_balance (acc_storage_key acc) vst + amount a
    \<and> delegated_where (of_mix (acc_storage_key acc) mix_id) vst' = 0
    \<and> (\<forall>t' info on_behalf_of. staking_account api on_behalf_of info vst' = Ok acc \<longrightarrow>
        execute api t' info (ExecuteMsg.UndelegateFromMixnode mix_id on_behalf_of) vst'
          = Err (NoSuchDelegation (acc_owner_address acc) mix_id))
    \<and> (\<forall>env' info delegate r. execute_on_behalf lib env' info (DelegateToMixnodeOnBehalf mix_id delegate) mst \<noteq> Ok r)"
proof -
  obtain vst' where vst': "execute api t \<lparr>sender = mixnet, funds = []\<rparr> (TrackUndelegation owner mix_id a) vst = Ok (vst', [])"
    "load_balance (acc_storage_key acc) vst' = load_balance (acc_storage_key acc) vst + amount a"
    "delegated_where (of_mix (acc_storage_key acc) mix_id) vst' = 0" "\<not> any_delegation_for_mix acc mix_id vst'"
    using track_undelegation_forgets [OF assms(3) _ assms(5), of "\<lparr>sender = mixnet, funds = []\<rparr>" t mix_id] assms(4) by auto
  moreover have "execute_epoch_event lib env (EvDelegate owner mix_id a (Some (vesting_contract_of mst))) mst
      = Ok (mst, [MixBankSend (vesting_contract_of mst) [a],
                  VestingExecute (vesting_contract_of mst) (TrackUndelegation owner mix_id a) []])"
    using execute_delegate_unbonding [OF assms(1,2)] by simp
  ultimately show ?thesis
    using undelegation_refused delegation_refused_unbonding [OF assms(2)] by (intro exI [of _ vst']) simp
qed

definition example_mixnet_lib :: mixnet_lib where
  "example_mixnet_lib =
     mixnet_api.extend example_mixnet_api
       (mixnet_lib.fields (\<lambda>_ _. Inl ''base58'') (\<lambda>_. []) (\<lambda>_. Inr []) (\<lambda>_. Inr []) (\<lambda>_. Inr []) (\<lambda>_ _ _. Inr False))"

text \<open>Node 7 is unbonding; the vesting contract has 60 coins on it for the owner, and 30 more were queued.\<close>

definition example_delegation :: Delegation where
  "example_delegation =
     \<lparr>del_owner = ''owner'', del_mix_id = 7, cumulative_reward_ratio = 0, del_amount = unym 60, del_height = 1,
      del_proxy = Some ''vesting''\<rparr>"

definition example_bond :: MixNodeBond where
  "example_bond =
     \<lparr>bond_mix_id = 7, bond_owner = ''operator'', original_pledge = unym 500, bond_layer = One,
      bond_mix_node = \<lparr>mn_host = ''host'', mn_mix_port = 1789, mn_verloc_port = 1790, mn_http_api_port = 8000,
        mn_sphinx_key = ''sphinx'', mn_identity_key = ''identity'', mn_version = ''1.1''\<rparr>,
      bond_proxy = None, bonding_height = 1, is_unbonding = True\<rparr>"

definition example_unbonding :: mixnet_state where
  "example_unbonding =
     (initial_mixnet_state (default_initial_state ''admin'' ''validator'' ''unym'' ''vesting'') example_params
        \<lparr>interval_id = 0, epochs_in_interval = 720, current_epoch_start = 0, current_epoch_id = 0,
         epoch_length = 3600 * NANOS, total_elapsed_epochs = 0\<rparr> ''validator'')
     \<lparr>MIXNODE_BONDS := [(7, example_bond)], MIXNODE_REWARDING := [(7, example_node 500 60)],
      MIX_DELEGATIONS := [(generate_delegation_key example_mixnet_lib 7 ''owner'' (Some ''vesting''), example_delegation)]\<rparr>"

theorem delegation_stranded_by_unbonding_witness:
  "\<exists>vst'. execute_epoch_event example_mixnet_lib \<lparr>block_height = 5, block_time = 93 * NANOS\<rparr>
        (EvDelegate ''owner'' 7 (unym 30) (Some ''vesting'')) example_unbonding
      = Ok (example_unbonding, [MixBankSend ''vesting'' [unym 30],
          VestingExecute ''vesting'' (TrackUndelegation ''owner'' 7 (unym 30)) []])
    \<and> execute example_api (93 * NANOS) \<lparr>sender = ''mixnet'', funds = []\<rparr> (TrackUndelegation ''owner'' 7 (unym 30))
        (example_delegated [(91, 60), (92, 30)] 910) = Ok (vst', [])
    \<and> load_balance 1 vst' = 940 \<and> delegated_where (of_mix 1 7) vst' = 0
    \<and> map (amount \<circ> del_amount \<circ> snd) (MIX_DELEGATIONS example_unbonding) = [60]"
proof -
  have mix: "get_mixnode_details_by_id example_unbonding 7
      = Ok (Some \<lparr>bond_information = example_bond, rewarding_details = example_node 500 60,
          pending_changes = load_pending_changes example_unbonding 7\<rparr>)"
    "\<And>bond. map_of (MIXNODE_BONDS example_unbonding) 7 = Some bond \<Longrightarrow> is_unbonding bond"
    "vesting_contract_of example_unbonding = ''vesting''"
    by (auto simp: get_mixnode_details_by_id_def attach_mix_details_def example_unbonding_def example_bond_def
        vesting_contract_of_def initial_mixnet_state_def default_initial_state_def)
  have ves: "account_from_address example_api ''owner'' (example_delegated [(91, 60), (92, 30)] 910) = Ok example_account"
    "MIXNET_CONTRACT_ADDRESS (example_delegated [(91, 60), (92, 30)] 910) = Some ''mixnet''"
    by (simp_all add: example_delegated_def vesting_eval)
  have bal: "acc_storage_key example_account = 1" "load_balance 1 (example_delegated [(91, 60), (92, 30)] 910) = 910"
    by (simp_all add: example_account_def example_delegated_def load_balance_def)
  then have fits: "load_balance (acc_storage_key example_account) (example_delegated [(91, 60), (92, 30)] 910)
      + amount (unym 30) \<le> u128_max"
    by (simp add: u128_max_def)
  from delegation_stranded_by_unbonding [OF mix(1,2) ves fits, of example_mixnet_lib "\<lparr>block_height = 5, block_time = 93 * NANOS\<rparr>"
      "93 * NANOS", unfolded mix(3) bal]
  obtain vst' where v: "execute_epoch_event example_mixnet_lib \<lparr>block_height = 5, block_time = 93 * NANOS\<rparr>
        (EvDelegate ''owner'' 7 (unym 30) (Some ''vesting'')) example_unbonding
      = Ok (example_unbonding, [MixBankSend ''vesting'' [unym 30],
          VestingExecute ''vesting'' (TrackUndelegation ''owner'' 7 (unym 30)) []])"
    "execute example_api (93 * NANOS) \<lparr>sender = ''mixnet'', funds = []\<rparr> (TrackUndelegation ''owner'' 7 (unym 30))
        (example_delegated [(91, 60), (92, 30)] 910) = Ok (vst', [])"
    "load_balance 1 vst' = 910 + amount (unym 30)" "delegated_where (of_mix 1 7) vst' = 0"
    by blast
  then show ?thesis by (intro exI [of _ vst']) (simp add: example_delegation_def example_unbonding_def)
qed

end
